theory Spec2Isabelle
  imports Complex_Main "HOL-Library.AList"
begin

section \<open>Whale position tracker: data model\<close>

text \<open>
  The development follows \<open>profitable_whale_tracker_bot_adjusted.py\<close>, class
  \<open>WhaleTracker\<close>. Python dicts whose order is observable are association lists
  with the operations of \<open>AList\<close> (assignment keeps the position of an existing key
  and appends a new one; \<open>del\<close> removes the key), and the two transient tables keyed
  by \<open>(coin, side)\<close> are finite maps. Python floats are modelled as real numbers:
  rounding is not modelled. The examples evaluated below use numbers on which the
  operations of the code are exact in double precision, and the general statements that
  follow a comparison of the code (a threshold, a percentage) hold whichever way the
  comparison goes.
\<close>

datatype error = KeyError | ZeroDivisionError

text \<open>
  One entry of the dict built by \<open>get_whale_positions\<close>: keys \<open>size\<close>, \<open>side\<close>,
  \<open>value\<close>, \<open>avg_price\<close>, \<open>current_price\<close>. A tracked position
  (\<open>self.positions[coin]\<close>) has the same keys and \<open>max_value\<close>.
\<close>

record exchange_position =
  p_size :: real
  p_side :: string
  p_value :: real
  p_avg_price :: real
  p_current_price :: real

record position = exchange_position +
  p_max_value :: real

type_synonym snapshot = "(string \<times> exchange_position) list"
type_synonym table = "(string \<times> position) list"

text \<open>A fill as returned by the \<open>userFills\<close> request, with \<open>sz\<close> and \<open>px\<close> parsed.\<close>

record trade =
  t_coin :: string
  t_side :: string
  sz :: real
  px :: real

type_synonym key = "string \<times> string"

text \<open>
  The answer to a \<open>clearinghouseState\<close> request. \<open>Request_failed\<close> stands for any
  exception raised inside the \<open>try\<close> block of \<open>get_whale_positions\<close> (timeout,
  connection error, undecodable body); \<open>Http status body\<close> is an answer with its status code
  and the list under \<open>assetPositions\<close>, where \<open>None\<close> is an element whose
  \<open>position\<close> is missing or empty.
\<close>

record asset_position =
  ap_coin :: string
  szi :: real
  entryPx :: real
  markPx :: "real option"

datatype response = Request_failed | Http nat "asset_position option list"

text \<open>
  The network, as seen by the tracker: what the \<open>n\<close>-th request of the run is answered,
  for each of the three kinds of request the tracker makes. \<open>btc_quote\<close> is the positive
  BTC price found by \<open>get_btc_price\<close>, if any; \<open>asset_quote\<close> is the result of
  \<open>get_asset_price\<close> (0 when the request fails or the price is not positive).
\<close>

record env =
  clearinghouseState :: "nat \<Rightarrow> response"
  btc_quote :: "nat \<Rightarrow> real option"
  asset_quote :: "nat \<Rightarrow> string \<Rightarrow> real"

datatype alert_kind = OPEN | CLOSE | PARTIAL_INCREASE | PARTIAL_CLOSE

text \<open>
  A message handed to \<open>send_telegram_message\<close> by one of the four \<open>send_*_alert\<close>
  methods, as the values interpolated into its text: \<open>shown_value\<close> is the value (or
  current value) line, \<open>prev_shown\<close> and \<open>pct\<close> the previous value and the percentage
  of a partial alert, \<open>entry_shown\<close> the entry price when the line is printed.
\<close>

record alert =
  kind :: alert_kind
  emoji :: string
  tier :: string
  a_coin :: string
  a_side :: string
  shown_value :: real
  prev_shown :: "real option"
  pct :: "real option"
  entry_shown :: "real option"
  price :: real
  btc :: real

text \<open>
  The local variables of \<open>process_aggregated_fills\<close> that its close branch still
  needs when the task sleeps inside \<open>verify_position_closed\<close>: \<open>avg_price\<close>,
  the entry read at lines 490-492 (for \<open>prev_value\<close> and \<open>prev_side\<close>) and the
  attempts of the verification loop still to make.
\<close>

record closing =
  c_avg :: real
  c_prev :: position
  c_attempts :: "nat list"

text \<open>
  The fields of \<open>WhaleTracker\<close> the reconciliation logic uses, the file
  \<open>whale_positions.json\<close>, the messages sent so far (oldest first), the number of
  requests made so far, and the event loop: its clock (in seconds), the suspended
  \<open>process_aggregated_fills\<close> tasks as (task, key, wake-up time), and for a task
  that sleeps inside the close verification its local variables (a task without them is in
  its initial sleep).
\<close>

record tracker =
  MIN_POSITION_VALUE :: int
  PARTIAL_CHANGE_THRESHOLD :: real
  fill_aggregation_window :: nat
  positions :: table
  pending_fills :: "key \<rightharpoonup> trade list"
  fill_timers :: "key \<rightharpoonup> nat"
  btc_price :: real
  telegram :: "alert list"
  positions_file :: table
  requests :: nat
  clock :: nat
  tasks :: "(nat \<times> key \<times> nat) list"
  next_task :: nat
  verifying :: "nat \<rightharpoonup> closing"

definition POSITION_CLOSE_VERIFY_ATTEMPTS :: nat where
  "POSITION_CLOSE_VERIFY_ATTEMPTS = 3"

definition POSITION_CLOSE_VERIFY_DELAY :: nat where
  "POSITION_CLOSE_VERIFY_DELAY = 5"

section \<open>External calls\<close>

definition save_positions :: "tracker \<Rightarrow> tracker" where
  "save_positions s = s\<lparr>positions_file := positions s\<rparr>"

definition send_telegram_message :: "alert \<Rightarrow> tracker \<Rightarrow> tracker" where
  "send_telegram_message message s = s\<lparr>telegram := telegram s @ [message]\<rparr>"

text \<open>\<open>asyncio.sleep\<close> inside a running task body.\<close>

definition sleep :: "nat \<Rightarrow> tracker \<Rightarrow> tracker" where
  "sleep d s = s\<lparr>clock := clock s + d\<rparr>"

text \<open>The loop over \<open>asset_positions\<close> in \<open>get_whale_positions\<close>.\<close>

fun asset_positions_loop :: "asset_position option list \<Rightarrow> snapshot \<Rightarrow> snapshot" where
  "asset_positions_loop [] acc = acc"
| "asset_positions_loop (None # rest) acc = asset_positions_loop rest acc"
| "asset_positions_loop (Some position # rest) acc =
     (let coin = ap_coin position; size_f = szi position in
      if size_f \<noteq> 0 then
        (let entry_px = entryPx position;
             mark_px = (case markPx position of Some m \<Rightarrow> m | None \<Rightarrow> entry_px);
             current_price = (if mark_px > 0 then mark_px else entry_px)
         in asset_positions_loop rest
              (AList.update coin
                 \<lparr>p_size = \<bar>size_f\<bar>,
                  p_side = (if size_f > 0 then ''LONG'' else ''SHORT''),
                  p_value = \<bar>size_f * current_price\<bar>,
                  p_avg_price = entry_px,
                  p_current_price = current_price\<rparr> acc))
      else asset_positions_loop rest acc)"

definition parse_positions :: "response \<Rightarrow> snapshot" where
  "parse_positions r =
     (case r of
        Request_failed \<Rightarrow> []
      | Http status_code body \<Rightarrow>
          if status_code = 200 then asset_positions_loop body [] else [])"

definition get_whale_positions :: "env \<Rightarrow> tracker \<Rightarrow> snapshot \<times> tracker" where
  "get_whale_positions e s =
     (parse_positions (clearinghouseState e (requests s)), s\<lparr>requests := Suc (requests s)\<rparr>)"

definition get_btc_price :: "env \<Rightarrow> tracker \<Rightarrow> real \<times> tracker" where
  "get_btc_price e s =
     (let s1 = s\<lparr>requests := Suc (requests s)\<rparr> in
      case btc_quote e (requests s) of
        Some p \<Rightarrow> (p, s1\<lparr>btc_price := p\<rparr>)
      | None \<Rightarrow> (if btc_price s \<noteq> 0 then btc_price s else 100000, s1))"

definition get_asset_price :: "env \<Rightarrow> string \<Rightarrow> tracker \<Rightarrow> real \<times> tracker" where
  "get_asset_price e coin s =
     (asset_quote e (requests s) coin, s\<lparr>requests := Suc (requests s)\<rparr>)"

section \<open>Close verification\<close>

text \<open>
  The \<open>for attempt in range(...)\<close> loop of \<open>verify_position_closed\<close>, over the
  attempts still to make. The result is \<open>True\<close> for "position IS closed".
\<close>

fun verify_attempts :: "env \<Rightarrow> string \<Rightarrow> nat list \<Rightarrow> tracker \<Rightarrow> bool \<times> tracker" where
  "verify_attempts e coin [] s = (True, s)"
| "verify_attempts e coin (attempt # rest) s =
     (let s1 = (if attempt > 0 then sleep POSITION_CLOSE_VERIFY_DELAY s else s);
          (current_positions, s2) = get_whale_positions e s1
      in if current_positions = [] \<and> attempt < POSITION_CLOSE_VERIFY_ATTEMPTS - 1
         then verify_attempts e coin rest s2
         else if map_of current_positions coin \<noteq> None then (False, s2)
         else verify_attempts e coin rest s2)"

definition verify_position_closed :: "env \<Rightarrow> string \<Rightarrow> tracker \<Rightarrow> bool \<times> tracker" where
  "verify_position_closed e coin s =
     verify_attempts e coin [0..<POSITION_CLOSE_VERIFY_ATTEMPTS] s"

section \<open>Alerts\<close>

text \<open>The emoji are written by name.\<close>

definition get_position_emoji_and_tier :: "string \<Rightarrow> real \<Rightarrow> string \<times> string" where
  "get_position_emoji_and_tier coin v =
     (if coin \<in> set [''BTC'', ''ETH''] then
        (if v \<ge> 50000000 then (''rocket rocket rocket rocket'', ''50M+'')
         else if v \<ge> 10000000 then (''siren siren siren'', ''10M+'')
         else if v \<ge> 1000000 then (''alien alien'', ''1M+'')
         else if v \<ge> 100000 then (''yellow circle'', ''100K+'')
         else ('''', ''''))
      else if v \<ge> 100000 then (''clown clown'', ''100K+'')
      else ('''', ''''))"

definition entry_price_text :: "real option \<Rightarrow> real option" where
  "entry_price_text entry_price =
     (case entry_price of
        None \<Rightarrow> None
      | Some p \<Rightarrow> if p > 0 then Some p else None)"

definition send_open_alert :: "string \<Rightarrow> string \<Rightarrow> real \<Rightarrow> real \<Rightarrow> tracker \<Rightarrow> tracker" where
  "send_open_alert coin side v price' s =
     (let (emoji', tier') = get_position_emoji_and_tier coin v in
      send_telegram_message
        \<lparr>kind = OPEN, emoji = emoji', tier = tier', a_coin = coin, a_side = side,
         shown_value = v, prev_shown = None, pct = None, entry_shown = None,
         price = price', btc = btc_price s\<rparr> s)"

definition send_close_alert ::
  "string \<Rightarrow> string \<Rightarrow> real \<Rightarrow> real \<Rightarrow> real option \<Rightarrow> tracker \<Rightarrow> tracker" where
  "send_close_alert coin side v price' entry_price s =
     (let (emoji', tier') = get_position_emoji_and_tier coin v;
          entry_price1 =
            (case entry_price of
               Some p \<Rightarrow> Some p
             | None \<Rightarrow>
                 (case map_of (positions s) coin of
                    Some pos \<Rightarrow> Some (p_avg_price pos)
                  | None \<Rightarrow> None))
      in send_telegram_message
        \<lparr>kind = CLOSE, emoji = emoji', tier = tier', a_coin = coin, a_side = side,
         shown_value = v, prev_shown = None, pct = None,
         entry_shown = entry_price_text entry_price1,
         price = price', btc = btc_price s\<rparr> s)"

definition send_partial_close_alert ::
  "string \<Rightarrow> string \<Rightarrow> real \<Rightarrow> real \<Rightarrow> real \<Rightarrow> real \<Rightarrow> tracker \<Rightarrow> error option \<times> tracker" where
  "send_partial_close_alert coin side prev_value curr_value reduction_pct price' s =
     (case map_of (positions s) coin of
        None \<Rightarrow> (Some KeyError, s)
      | Some pos \<Rightarrow>
          (let max_value = p_max_value pos;
               (emoji', tier') = get_position_emoji_and_tier coin max_value
           in (None, send_telegram_message
                \<lparr>kind = PARTIAL_CLOSE, emoji = emoji', tier = tier', a_coin = coin,
                 a_side = side, shown_value = curr_value, prev_shown = Some prev_value,
                 pct = Some reduction_pct,
                 entry_shown = entry_price_text (Some (p_avg_price pos)),
                 price = price', btc = btc_price s\<rparr> s)))"

definition send_partial_increase_alert ::
  "string \<Rightarrow> string \<Rightarrow> real \<Rightarrow> real \<Rightarrow> real \<Rightarrow> real \<Rightarrow> tracker \<Rightarrow> error option \<times> tracker" where
  "send_partial_increase_alert coin side prev_value curr_value increase_pct price' s =
     (case map_of (positions s) coin of
        None \<Rightarrow> (Some KeyError, s)
      | Some pos \<Rightarrow>
          (let max_value = p_max_value pos;
               (emoji', tier') = get_position_emoji_and_tier coin max_value
           in (None, send_telegram_message
                \<lparr>kind = PARTIAL_INCREASE, emoji = emoji', tier = tier', a_coin = coin,
                 a_side = side, shown_value = curr_value, prev_shown = Some prev_value,
                 pct = Some increase_pct, entry_shown = None,
                 price = price', btc = btc_price s\<rparr> s)))"

section \<open>Reconciliation of a flushed fill batch\<close>

text \<open>
  The early-return sequence \<open>del self.pending_fills[key]; del self.fill_timers[key]; return\<close>
  and the sequence at the end of \<open>process_aggregated_fills\<close>, which guards the second
  \<open>del\<close>. A \<open>del\<close> of a missing key raises \<open>KeyError\<close>.
\<close>

definition discard_batch :: "key \<Rightarrow> tracker \<Rightarrow> error option \<times> tracker" where
  "discard_batch key s =
     (if pending_fills s key = None then (Some KeyError, s)
      else
        (let s1 = s\<lparr>pending_fills := (pending_fills s)(key := None)\<rparr> in
         if fill_timers s1 key = None then (Some KeyError, s1)
         else (None, s1\<lparr>fill_timers := (fill_timers s1)(key := None)\<rparr>)))"

definition finish_batch :: "key \<Rightarrow> tracker \<Rightarrow> error option \<times> tracker" where
  "finish_batch key s =
     (if pending_fills s key = None then (Some KeyError, s)
      else
        (let s1 = s\<lparr>pending_fills := (pending_fills s)(key := None)\<rparr> in
         if fill_timers s1 key \<noteq> None
         then (None, s1\<lparr>fill_timers := (fill_timers s1)(key := None)\<rparr>)
         else (None, s1)))"

text \<open>The entry written at lines 487-488 for a coin that is not in the table.\<close>

definition placeholder :: position where
  "placeholder =
     \<lparr>p_size = 0, p_side = [], p_value = 0, p_avg_price = 0, p_current_price = 0,
      p_max_value = 0\<rparr>"

text \<open>The entry written on OPEN and by the startup sync.\<close>

definition opened :: "exchange_position \<Rightarrow> position" where
  "opened actual_position =
     \<lparr>p_size = p_size actual_position, p_side = p_side actual_position,
      p_value = p_value actual_position, p_avg_price = p_avg_price actual_position,
      p_current_price = p_current_price actual_position,
      p_max_value = p_value actual_position\<rparr>"

definition total_size :: "trade list \<Rightarrow> real" where
  "total_size fills = sum_list (map sz fills)"

definition avg_price :: "trade list \<Rightarrow> real" where
  "avg_price fills = sum_list (map (\<lambda>fill. px fill * sz fill) fills) / total_size fills"

text \<open>
  \<open>process_aggregated_fills\<close> after its initial \<open>asyncio.sleep\<close>, as a function
  run from there to its end with nothing else running in between (the event loop below
  has the evaluation with its suspensions). The result is the exception that ended the
  task, if any, and the tracker as the task left it. The three branches of the \<open>if\<close>/\<open>elif\<close> chain at
  lines 496-576 come first, each followed by its own case of the alert dispatch at lines
  584-600 and by the common end at lines 602-604; \<open>s4\<close> is the tracker at line 490,
  \<open>avg\<close> the batch's \<open>avg_price\<close>, \<open>prev\<close> the entry
  \<open>self.positions[coin]\<close> read at lines 490-492.
\<close>

text \<open>Lines 496-513: no tracked size, position on the exchange.\<close>

definition open_branch ::
  "string \<Rightarrow> key \<Rightarrow> real \<Rightarrow> real \<Rightarrow> exchange_position \<Rightarrow> tracker \<Rightarrow> error option \<times> tracker" where
  "open_branch coin key avg position_value actual_position s4 =
     (if position_value \<ge> real_of_int (MIN_POSITION_VALUE s4) then
        (let s5 = s4\<lparr>positions :=
                    AList.update coin (opened actual_position) (positions s4)\<rparr>;
             s6 = send_open_alert coin (p_side actual_position)
                    (p_value actual_position) avg s5
         in finish_batch key (save_positions s6))
      else discard_batch key s4)"

text \<open>
  Lines 515-527: tracked size, no position on the exchange. \<open>close_branch_end\<close> is
  the part after the verification has returned \<open>is_closed\<close>;
  \<open>del self.positions[coin]\<close> raises \<open>KeyError\<close> when the entry is gone.
  \<open>close_branch\<close> is the branch when nothing else runs during the sleeps of the
  verification.
\<close>

definition close_branch_end ::
  "string \<Rightarrow> key \<Rightarrow> real \<Rightarrow> position \<Rightarrow> bool \<Rightarrow> tracker \<Rightarrow> error option \<times> tracker" where
  "close_branch_end coin key avg prev is_closed s5 =
     (let prev_value = p_value prev;
          prev_side = p_side prev
      in
      if is_closed \<and> prev_value \<ge> real_of_int (MIN_POSITION_VALUE s5) then
        (let closed_value = prev_value in
         if map_of (positions s5) coin = None then (Some KeyError, s5)
         else
           (let s6 = s5\<lparr>positions := AList.delete coin (positions s5)\<rparr>;
                s7 = send_close_alert coin prev_side closed_value avg None s6
            in finish_batch key (save_positions s7)))
      else discard_batch key s5)"

definition close_branch ::
  "env \<Rightarrow> string \<Rightarrow> key \<Rightarrow> real \<Rightarrow> position \<Rightarrow> tracker \<Rightarrow> error option \<times> tracker" where
  "close_branch e coin key avg prev s4 =
     (let (is_closed, s5) = verify_position_closed e coin s4
      in close_branch_end coin key avg prev is_closed s5)"

text \<open>Lines 529-572: tracked size and position on the exchange.\<close>

definition change_branch ::
  "string \<Rightarrow> key \<Rightarrow> real \<Rightarrow> position \<Rightarrow> exchange_position \<Rightarrow> tracker \<Rightarrow> error option \<times> tracker" where
  "change_branch coin key avg prev actual_position s4 =
     (let prev_size = p_size prev;
          prev_value = p_value prev;
          prev_side = p_side prev;
          new_size = p_size actual_position;
          new_value = p_value actual_position
      in
      if new_size > prev_size then
        (let change_pct = (new_size - prev_size) / prev_size in
         if change_pct \<ge> PARTIAL_CHANGE_THRESHOLD s4 then
           (let s5 = s4\<lparr>positions := AList.update coin
                       (prev\<lparr>p_size := new_size, p_value := new_value,
                             p_avg_price := p_avg_price actual_position,
                             p_current_price := p_current_price actual_position,
                             p_max_value := max new_value (p_max_value prev)\<rparr>)
                       (positions s4)\<rparr>;
                increase_pct = (new_size - prev_size) / prev_size
            in case send_partial_increase_alert coin prev_side prev_value
                      new_value increase_pct avg s5 of
                 (Some err, s6) \<Rightarrow> (Some err, s6)
               | (None, s6) \<Rightarrow> finish_batch key (save_positions s6))
         else
           discard_batch key
             (s4\<lparr>positions := AList.update coin
                   (prev\<lparr>p_size := new_size, p_value := new_value,
                         p_avg_price := p_avg_price actual_position,
                         p_current_price := p_current_price actual_position\<rparr>)
                   (positions s4)\<rparr>))
      else
        (let reduction_pct = (prev_size - new_size) / prev_size in
         if reduction_pct \<ge> PARTIAL_CHANGE_THRESHOLD s4 then
           (let s5 = s4\<lparr>positions := AList.update coin
                       (prev\<lparr>p_size := new_size, p_value := new_value,
                             p_current_price := p_current_price actual_position\<rparr>)
                       (positions s4)\<rparr>
            in case send_partial_close_alert coin prev_side prev_value
                      new_value reduction_pct avg s5 of
                 (Some err, s6) \<Rightarrow> (Some err, s6)
               | (None, s6) \<Rightarrow> finish_batch key (save_positions s6))
         else
           discard_batch key
             (s4\<lparr>positions := AList.update coin
                   (prev\<lparr>p_size := new_size, p_value := new_value,
                         p_current_price := p_current_price actual_position\<rparr>)
                   (positions s4)\<rparr>)))"

definition process_aggregated_fills ::
  "env \<Rightarrow> string \<Rightarrow> string \<Rightarrow> tracker \<Rightarrow> error option \<times> tracker" where
  "process_aggregated_fills e coin side s =
     (let key = (coin, side);
          fills = (case pending_fills s key of None \<Rightarrow> [] | Some fs \<Rightarrow> fs)
      in
      if fills = [] then (None, s)
      else if total_size fills = 0 then (Some ZeroDivisionError, s)
      else
        (let avg = avg_price fills;
             position_value = avg * total_size fills;
             (b, s1) = get_btc_price e s;
             s2 = s1\<lparr>btc_price := b\<rparr>;
             (current_positions, s3) = get_whale_positions e s2;
             s4 = (if map_of (positions s3) coin = None
                   then s3\<lparr>positions := AList.update coin placeholder (positions s3)\<rparr>
                   else s3);
             prev = (case map_of (positions s4) coin of Some p \<Rightarrow> p | None \<Rightarrow> placeholder);
             prev_size = p_size prev;
             has_position_on_exchange = (map_of current_positions coin \<noteq> None)
         in
         if prev_size = 0 \<and> has_position_on_exchange then
           (case map_of current_positions coin of
              None \<Rightarrow> (Some KeyError, s4)
            | Some actual_position \<Rightarrow>
                open_branch coin key avg position_value actual_position s4)
         else if prev_size > 0 \<and> \<not> has_position_on_exchange then
           close_branch e coin key avg prev s4
         else if prev_size > 0 \<and> has_position_on_exchange then
           (case map_of current_positions coin of
              None \<Rightarrow> (Some KeyError, s4)
            | Some actual_position \<Rightarrow>
                change_branch coin key avg prev actual_position s4)
         else discard_batch key s4))"

section \<open>Periodic sweep and startup sync\<close>

text \<open>
  The body of the loop over \<open>coins_to_verify_close\<close> in \<open>verify_all_positions\<close>
  (lines 355-381), with the count \<open>positions_closed\<close> so far, and the loop.
\<close>

definition close_if_verified ::
  "env \<Rightarrow> string \<Rightarrow> nat \<Rightarrow> tracker \<Rightarrow> (error + nat) \<times> tracker" where
  "close_if_verified e coin positions_closed s =
     (case map_of (positions s) coin of
        None \<Rightarrow> (Inl KeyError, s)
      | Some tracked_pos \<Rightarrow>
          (let (is_closed, s1) = verify_position_closed e coin s in
           if is_closed then
             (let (b, s2) = get_btc_price e s1;
                  s3 = s2\<lparr>btc_price := b\<rparr>;
                  (quote, s4) = get_asset_price e coin s3;
                  current_price = (if quote = 0 then p_current_price tracked_pos else quote);
                  s5 = send_close_alert coin (p_side tracked_pos) (p_value tracked_pos)
                         current_price (Some (p_avg_price tracked_pos)) s4;
                  s6 = s5\<lparr>positions := AList.delete coin (positions s5)\<rparr>
              in (Inr (positions_closed + 1), s6))
           else (Inr positions_closed, s1)))"

fun verify_close_loop ::
  "env \<Rightarrow> string list \<Rightarrow> nat \<Rightarrow> tracker \<Rightarrow> (error + nat) \<times> tracker" where
  "verify_close_loop e [] positions_closed s = (Inr positions_closed, s)"
| "verify_close_loop e (coin # rest) positions_closed s =
     (case close_if_verified e coin positions_closed s of
        (Inl err, s1) \<Rightarrow> (Inl err, s1)
      | (Inr positions_closed1, s1) \<Rightarrow> verify_close_loop e rest positions_closed1 s1)"

definition verify_all_positions :: "env \<Rightarrow> tracker \<Rightarrow> (error + nat) \<times> tracker" where
  "verify_all_positions e s =
     (if positions s = [] then (Inr 0, s)
      else
        (let (current_positions, s1) = get_whale_positions e s in
         if current_positions = [] then (Inr 0, s1)
         else
           (let coins_to_verify_close =
                  filter (\<lambda>coin. map_of current_positions coin = None) (map fst (positions s1))
            in case verify_close_loop e coins_to_verify_close 0 s1 of
                 (Inl err, s2) \<Rightarrow> (Inl err, s2)
               | (Inr positions_closed, s2) \<Rightarrow>
                   if positions_closed > 0 then (Inr positions_closed, save_positions s2)
                   else (Inr positions_closed, s2))))"

text \<open>The loop over \<open>current_positions.items()\<close> in \<open>sync_positions_on_startup\<close>.\<close>

fun sync_loop :: "snapshot \<Rightarrow> nat \<Rightarrow> tracker \<Rightarrow> nat \<times> tracker" where
  "sync_loop [] positions_found s = (positions_found, s)"
| "sync_loop ((coin, position_data) # rest) positions_found s =
     (if p_value position_data \<ge> real_of_int (MIN_POSITION_VALUE s) then
        sync_loop rest (positions_found + 1)
          (s\<lparr>positions := AList.update coin (opened position_data) (positions s)\<rparr>)
      else sync_loop rest positions_found s)"

definition sync_positions_on_startup :: "env \<Rightarrow> tracker \<Rightarrow> tracker" where
  "sync_positions_on_startup e s =
     (let (current_positions, s1) = get_whale_positions e s in
      if current_positions = [] then s1
      else
        (let (positions_found, s2) = sync_loop current_positions 0 s1 in
         if positions_found > 0 then save_positions s2 else s2))"

section \<open>Fill aggregation and the event loop\<close>

text \<open>
  \<open>Task.cancel()\<close> raises \<open>CancelledError\<close> in a task where it is suspended, in
  the initial sleep of \<open>process_aggregated_fills\<close> or in a sleep of
  \<open>verify_position_closed\<close>; nothing catches it, so the task ends there and leaves the
  loop. On a task that has ended it does nothing.
  \<open>asyncio.create_task(self.process_aggregated_fills(coin, side))\<close> schedules a task
  that first sleeps for the aggregation window.
\<close>

definition cancel :: "nat \<Rightarrow> tracker \<Rightarrow> tracker" where
  "cancel task s =
     s\<lparr>tasks := filter (\<lambda>(t, k, w). t \<noteq> task) (tasks s),
       verifying := (verifying s)(task := None)\<rparr>"

definition create_task :: "key \<Rightarrow> tracker \<Rightarrow> nat \<times> tracker" where
  "create_task key s =
     (next_task s,
      s\<lparr>tasks := tasks s @ [(next_task s, key, clock s + fill_aggregation_window s)],
        next_task := Suc (next_task s)\<rparr>)"

definition queue_fill_for_aggregation :: "trade \<Rightarrow> tracker \<Rightarrow> tracker" where
  "queue_fill_for_aggregation trade s =
     (let coin = t_coin trade;
          side = t_side trade;
          size_f = sz trade;
          price_f = px trade;
          v = size_f * price_f
      in
      if v < 10000 then s
      else
        (let key = (coin, side);
             s1 = s\<lparr>pending_fills := (pending_fills s)
                      (key \<mapsto> (case pending_fills s key of None \<Rightarrow> [] | Some fs \<Rightarrow> fs) @ [trade])\<rparr>;
             s2 = (case fill_timers s1 key of Some task \<Rightarrow> cancel task s1 | None \<Rightarrow> s1);
             (task, s3) = create_task key s2
         in s3\<lparr>fill_timers := (fill_timers s3)(key \<mapsto> task)\<rparr>))"

subsection \<open>A batch evaluation between its suspensions\<close>

text \<open>
  The only points at which a \<open>process_aggregated_fills\<close> task gives control back to
  the event loop are its initial sleep and the sleeps of \<open>verify_position_closed\<close>
  before the attempts after the first (line 315); the requests do not suspend. At these
  points other tasks and the monitor loop run, and the task can be cancelled.

  \<open>verify_steps\<close> is the loop of \<open>verify_position_closed\<close> run up to its next
  sleep: \<open>slept\<close> says that the sleep of the first attempt of the list is over. The
  result is the value returned, or the attempts still to make when the loop suspends.
\<close>

fun verify_steps ::
  "env \<Rightarrow> string \<Rightarrow> bool \<Rightarrow> nat list \<Rightarrow> tracker \<Rightarrow> (bool + nat list) \<times> tracker" where
  "verify_steps e coin slept [] s = (Inl True, s)"
| "verify_steps e coin slept (attempt # rest) s =
     (if attempt > 0 \<and> \<not> slept then (Inr (attempt # rest), s)
      else
        (let (current_positions, s2) = get_whale_positions e s
         in if current_positions = [] \<and> attempt < POSITION_CLOSE_VERIFY_ATTEMPTS - 1
            then verify_steps e coin False rest s2
            else if map_of current_positions coin \<noteq> None then (Inl False, s2)
            else verify_steps e coin False rest s2))"

text \<open>
  How far an evaluation has come when it gives control back: it has ended, with the
  exception that ended it if any, or it sleeps inside the verification, with its local
  variables.
\<close>

datatype stage = Ended "error option" | Sleeping closing

definition ended :: "error option \<times> tracker \<Rightarrow> stage \<times> tracker" where
  "ended r = (Ended (fst r), snd r)"

text \<open>The close branch (lines 515-527) from the call of the verification on.\<close>

definition closing_steps ::
  "env \<Rightarrow> string \<Rightarrow> key \<Rightarrow> real \<Rightarrow> position \<Rightarrow> bool \<Rightarrow> nat list \<Rightarrow> tracker \<Rightarrow> stage \<times> tracker" where
  "closing_steps e coin key avg prev slept attempts s =
     (case verify_steps e coin slept attempts s of
        (Inl is_closed, s5) \<Rightarrow> ended (close_branch_end coin key avg prev is_closed s5)
      | (Inr rest, s5) \<Rightarrow> (Sleeping \<lparr>c_avg = avg, c_prev = prev, c_attempts = rest\<rparr>, s5))"

text \<open>
  \<open>process_aggregated_fills\<close> from the end of its initial sleep to its end or to the
  first sleep of the verification.
\<close>

definition start_evaluation :: "env \<Rightarrow> string \<Rightarrow> string \<Rightarrow> tracker \<Rightarrow> stage \<times> tracker" where
  "start_evaluation e coin side s =
     (let key = (coin, side);
          fills = (case pending_fills s key of None \<Rightarrow> [] | Some fs \<Rightarrow> fs)
      in
      if fills = [] then (Ended None, s)
      else if total_size fills = 0 then (Ended (Some ZeroDivisionError), s)
      else
        (let avg = avg_price fills;
             position_value = avg * total_size fills;
             (b, s1) = get_btc_price e s;
             s2 = s1\<lparr>btc_price := b\<rparr>;
             (current_positions, s3) = get_whale_positions e s2;
             s4 = (if map_of (positions s3) coin = None
                   then s3\<lparr>positions := AList.update coin placeholder (positions s3)\<rparr>
                   else s3);
             prev = (case map_of (positions s4) coin of Some p \<Rightarrow> p | None \<Rightarrow> placeholder);
             prev_size = p_size prev;
             has_position_on_exchange = (map_of current_positions coin \<noteq> None)
         in
         if prev_size = 0 \<and> has_position_on_exchange then
           (case map_of current_positions coin of
              None \<Rightarrow> (Ended (Some KeyError), s4)
            | Some actual_position \<Rightarrow>
                ended (open_branch coin key avg position_value actual_position s4))
         else if prev_size > 0 \<and> \<not> has_position_on_exchange then
           closing_steps e coin key avg prev False [0..<POSITION_CLOSE_VERIFY_ATTEMPTS] s4
         else if prev_size > 0 \<and> has_position_on_exchange then
           (case map_of current_positions coin of
              None \<Rightarrow> (Ended (Some KeyError), s4)
            | Some actual_position \<Rightarrow>
                ended (change_branch coin key avg prev actual_position s4))
         else ended (discard_batch key s4)))"

text \<open>The same evaluation from the end of a sleep of the verification on.\<close>

definition resume_evaluation ::
  "env \<Rightarrow> string \<Rightarrow> string \<Rightarrow> closing \<Rightarrow> tracker \<Rightarrow> stage \<times> tracker" where
  "resume_evaluation e coin side c s =
     closing_steps e coin (coin, side) (c_avg c) (c_prev c) True (c_attempts c) s"

text \<open>
  The event loop runs a task of its list from the end of the sleep it is in: the clock is
  at the task's wake-up time at least, and the evaluation starts or goes on, up to its end,
  when the task leaves the list, or up to its next sleep, whose end is the task's new
  wake-up time.
\<close>

definition run_task :: "env \<Rightarrow> nat \<times> key \<times> nat \<Rightarrow> tracker \<Rightarrow> stage \<times> tracker" where
  "run_task e task s =
     (case task of (t, (coin, side), w) \<Rightarrow>
        (let s0 = s\<lparr>clock := max (clock s) w\<rparr>;
             (reached, s1) =
               (case verifying s0 t of
                  None \<Rightarrow> start_evaluation e coin side s0
                | Some c \<Rightarrow> resume_evaluation e coin side c s0)
         in case reached of
              Ended r \<Rightarrow>
                (reached,
                 s1\<lparr>tasks := filter (\<lambda>(t', k, w'). t' \<noteq> t) (tasks s1),
                    verifying := (verifying s1)(t := None)\<rparr>)
            | Sleeping c \<Rightarrow>
                (reached,
                 s1\<lparr>tasks := map (\<lambda>(t', k, w').
                                if t' = t then (t', k, clock s1 + POSITION_CLOSE_VERIFY_DELAY)
                                else (t', k, w')) (tasks s1),
                    verifying := (verifying s1)(t \<mapsto> c)\<rparr>)))"

text \<open>
  The states the tracker can be in. It starts with no pending batch, timer or task
  (\<open>__init__\<close>; the table is whatever \<open>load_positions\<close> read). Then the monitor
  loop queues a fill, which cancels the task of the fill's key wherever that task is
  suspended; a task of the event loop's list runs from one suspension to the next or to
  its end; the sweep and the startup sync run; and, between any two of these steps, code
  that does not touch the pending batches, the timers, the tasks and their local variables
  changes the rest of the tracker. The last rule stands for the passing of time and for
  every part of the sweep and of the sync between two of their suspensions, so that a
  batch evaluation that sleeps in its verification can find the table, the file and the
  messages changed when it goes on. No order or timing of the steps is assumed.
\<close>

inductive reachable :: "env \<Rightarrow> tracker \<Rightarrow> bool" for e :: env where
  start: "pending_fills s = Map.empty \<Longrightarrow> fill_timers s = Map.empty \<Longrightarrow> tasks s = [] \<Longrightarrow>
          verifying s = Map.empty \<Longrightarrow> reachable e s"
| queue: "reachable e s \<Longrightarrow> reachable e (queue_fill_for_aggregation trade s)"
| task: "reachable e s \<Longrightarrow> task \<in> set (tasks s) \<Longrightarrow> reachable e (snd (run_task e task s))"
| sweep: "reachable e s \<Longrightarrow> reachable e (snd (verify_all_positions e s))"
| sync: "reachable e s \<Longrightarrow> reachable e (sync_positions_on_startup e s)"
| other: "reachable e s \<Longrightarrow> pending_fills s' = pending_fills s \<Longrightarrow>
          fill_timers s' = fill_timers s \<Longrightarrow> tasks s' = tasks s \<Longrightarrow>
          next_task s' = next_task s \<Longrightarrow> verifying s' = verifying s \<Longrightarrow> reachable e s'"

text \<open>The tracker as \<open>__init__\<close> leaves it with the default settings and no saved file.\<close>

definition init :: tracker where
  "init =
     \<lparr>MIN_POSITION_VALUE = 100000, PARTIAL_CHANGE_THRESHOLD = 15 / 100,
      fill_aggregation_window = 30, positions = [], pending_fills = Map.empty,
      fill_timers = Map.empty, btc_price = 0, telegram = [], positions_file = [],
      requests = 0, clock = 0, tasks = [], next_task = 0, verifying = Map.empty\<rparr>"

section \<open>Auxiliary notions for the statements\<close>

text \<open>The answer to request \<open>r\<close> shows a position in \<open>coin\<close>.\<close>

definition seen_at :: "env \<Rightarrow> string \<Rightarrow> nat \<Rightarrow> bool" where
  "seen_at e coin r = (map_of (parse_positions (clearinghouseState e r)) coin \<noteq> None)"

text \<open>Between two trackers only requests were made and time passed.\<close>

definition time_passed :: "tracker \<Rightarrow> tracker \<Rightarrow> bool" where
  "time_passed s s' =
     (positions s' = positions s \<and> telegram s' = telegram s \<and>
      pending_fills s' = pending_fills s \<and> fill_timers s' = fill_timers s \<and>
      positions_file s' = positions_file s \<and> btc_price s' = btc_price s \<and>
      MIN_POSITION_VALUE s' = MIN_POSITION_VALUE s \<and>
      PARTIAL_CHANGE_THRESHOLD s' = PARTIAL_CHANGE_THRESHOLD s \<and>
      fill_aggregation_window s' = fill_aggregation_window s \<and>
      tasks s' = tasks s \<and> next_task s' = next_task s \<and> verifying s' = verifying s)"

text \<open>The tracker after one attempt of the verification loop that did not return.\<close>

definition after_attempt :: "nat \<Rightarrow> tracker \<Rightarrow> tracker" where
  "after_attempt attempt s =
     (if attempt > 0 then sleep POSITION_CLOSE_VERIFY_DELAY s else s)
       \<lparr>requests := Suc (requests s)\<rparr>"

text \<open>
  The tracker when \<open>process_aggregated_fills\<close> has made its two requests (BTC price,
  positions), before it looks at the table.
\<close>

definition after_fetches :: "env \<Rightarrow> tracker \<Rightarrow> tracker" where
  "after_fetches e s =
     s\<lparr>btc_price := fst (get_btc_price e s), requests := Suc (Suc (requests s))\<rparr>"

text \<open>
  The table after lines 487-488 of \<open>process_aggregated_fills\<close>, and the entry
  \<open>self.positions[coin]\<close> read at lines 490-492.
\<close>

definition table_with :: "string \<Rightarrow> table \<Rightarrow> table" where
  "table_with coin ps = (if map_of ps coin = None then AList.update coin placeholder ps else ps)"

definition tracked :: "table \<Rightarrow> string \<Rightarrow> position" where
  "tracked ps coin = (case map_of ps coin of Some p \<Rightarrow> p | None \<Rightarrow> placeholder)"

text \<open>The tracker when the batch evaluation reaches line 490.\<close>

definition at_reconcile :: "env \<Rightarrow> string \<Rightarrow> tracker \<Rightarrow> tracker" where
  "at_reconcile e coin s = (after_fetches e s)\<lparr>positions := table_with coin (positions s)\<rparr>"

section \<open>Example inputs\<close>

definition eth_long :: asset_position where
  "eth_long = \<lparr>ap_coin = ''ETH'', szi = 100, entryPx = 2000, markPx = Some 2100\<rparr>"

definition sol_short :: asset_position where
  "sol_short = \<lparr>ap_coin = ''SOL'', szi = - 500, entryPx = 150, markPx = None\<rparr>"

text \<open>Every request fails.\<close>

definition net_down :: env where
  "net_down =
     \<lparr>clearinghouseState = (\<lambda>n. Request_failed), btc_quote = (\<lambda>n. None),
      asset_quote = (\<lambda>n coin. 0)\<rparr>"

text \<open>The ETH position is missing from the answer to request 0 only.\<close>

definition eth_gap :: env where
  "eth_gap =
     \<lparr>clearinghouseState =
        (\<lambda>n. if n = 0 then Http 200 [Some sol_short] else Http 200 [Some sol_short, Some eth_long]),
      btc_quote = (\<lambda>n. None), asset_quote = (\<lambda>n coin. 0)\<rparr>"

text \<open>The exchange shows 10 ETH, worth 20000, at every request.\<close>

definition eth_minor :: env where
  "eth_minor =
     \<lparr>clearinghouseState =
        (\<lambda>n. Http 200 [Some \<lparr>ap_coin = ''ETH'', szi = 10, entryPx = 2000, markPx = Some 2000\<rparr>]),
      btc_quote = (\<lambda>n. None), asset_quote = (\<lambda>n coin. 0)\<rparr>"

text \<open>A tracked ETH position as the startup sync writes it for \<open>eth_long\<close>.\<close>

definition eth_tracked :: position where
  "eth_tracked =
     \<lparr>p_size = 100, p_side = ''LONG'', p_value = 210000, p_avg_price = 2000,
      p_current_price = 2100, p_max_value = 210000\<rparr>"

text \<open>A fill of 10 ETH at 2000 (value 20000) and one of 100 ETH at 2000 (value 200000).\<close>

definition small_fill :: trade where
  "small_fill = \<lparr>t_coin = ''ETH'', t_side = ''B'', sz = 10, px = 2000\<rparr>"

definition large_fill :: trade where
  "large_fill = \<lparr>t_coin = ''ETH'', t_side = ''B'', sz = 100, px = 2000\<rparr>"

text \<open>The exchange shows a SOL position only, at every request.\<close>

definition eth_gone :: env where
  "eth_gone =
     \<lparr>clearinghouseState = (\<lambda>n. Http 200 [Some sol_short]), btc_quote = (\<lambda>n. None),
      asset_quote = (\<lambda>n coin. 0)\<rparr>"

text \<open>A tracked ETH position whose value has fallen below the default minimum.\<close>

definition eth_reduced :: position where
  "eth_reduced =
     \<lparr>p_size = 25, p_side = ''LONG'', p_value = 50000, p_avg_price = 2000,
      p_current_price = 2000, p_max_value = 210000\<rparr>"

text \<open>A sale of 25 ETH at 2000 (value 50000) and one of 5 ETH at 2100 (value 10500).\<close>

definition sell_fill :: trade where
  "sell_fill = \<lparr>t_coin = ''ETH'', t_side = ''A'', sz = 25, px = 2000\<rparr>"

definition trim_fill :: trade where
  "trim_fill = \<lparr>t_coin = ''ETH'', t_side = ''A'', sz = 5, px = 2100\<rparr>"

text \<open>
  The tracker with the reduced ETH position and the sale of 25 ETH queued, with the
  exchange showing no ETH: after the first run of the task of the sale, which ends in the
  sleep before the second attempt of the verification, and after its second run, which
  ends in the sleep before the third attempt.
\<close>

definition eth_sale :: tracker where
  "eth_sale = queue_fill_for_aggregation sell_fill (init\<lparr>positions := [(''ETH'', eth_reduced)]\<rparr>)"

definition eth_sale_1 :: tracker where
  "eth_sale_1 = snd (run_task eth_gone (0, (''ETH'', ''A''), 30) eth_sale)"

definition eth_sale_2 :: tracker where
  "eth_sale_2 = snd (run_task eth_gone (0, (''ETH'', ''A''), 35) eth_sale_1)"

text \<open>The exchange shows 95 ETH at every request.\<close>

definition eth_trimmed :: env where
  "eth_trimmed =
     \<lparr>clearinghouseState =
        (\<lambda>n. Http 200 [Some \<lparr>ap_coin = ''ETH'', szi = 95, entryPx = 2000, markPx = Some 2100\<rparr>]),
      btc_quote = (\<lambda>n. None), asset_quote = (\<lambda>n coin. 0)\<rparr>"

section \<open>Invariants of the transient tables\<close>

text \<open>
  Every pending batch is non-empty and holds fills of its own key that passed the floor of
  \<open>queue_fill_for_aggregation\<close>; every sleeping task is the one registered in
  \<open>fill_timers\<close> for its key, and its key has a pending batch.
\<close>

definition batches_ok :: "tracker \<Rightarrow> bool" where
  "batches_ok s =
     (\<forall>key fs. pending_fills s key = Some fs \<longrightarrow>
        fs \<noteq> [] \<and> (\<forall>f \<in> set fs. sz f * px f \<ge> 10000 \<and> (t_coin f, t_side f) = key))"

definition timers_ok :: "tracker \<Rightarrow> bool" where
  "timers_ok s =
     (\<forall>task \<in> set (tasks s).
        fill_timers s (fst (snd task)) = Some (fst task) \<and>
        pending_fills s (fst (snd task)) \<noteq> None)"

text \<open>
  The transient tables, the event loop's tasks and their local variables are the same in
  two trackers.
\<close>

definition same_transient :: "tracker \<Rightarrow> tracker \<Rightarrow> bool" where
  "same_transient s s' =
     (pending_fills s' = pending_fills s \<and> fill_timers s' = fill_timers s \<and>
      tasks s' = tasks s \<and> next_task s' = next_task s \<and> verifying s' = verifying s)"

text \<open>
  From one tracker to the other the transient tables changed at one key at most, where the
  batch or the timer entry may be gone, and the tasks are the same.
\<close>

definition batch_only :: "key \<Rightarrow> tracker \<Rightarrow> tracker \<Rightarrow> bool" where
  "batch_only key s s' =
     ((pending_fills s' = pending_fills s \<or>
       pending_fills s' = (pending_fills s)(key := None)) \<and>
      (fill_timers s' = fill_timers s \<or> fill_timers s' = (fill_timers s)(key := None)) \<and>
      tasks s' = tasks s \<and> next_task s' = next_task s \<and> verifying s' = verifying s)"

text \<open>A call returned and left neither a batch nor a timer entry for the key.\<close>

definition returned_cleared :: "key \<Rightarrow> error option \<times> tracker \<Rightarrow> bool" where
  "returned_cleared key r =
     (fst r = None \<and> pending_fills (snd r) key = None \<and> fill_timers (snd r) key = None)"

text \<open>A fill of 5 ETH at 3000 and a record with negative size and price, both worth 15000.\<close>

definition plain_fill :: trade where
  "plain_fill = \<lparr>t_coin = ''ETH'', t_side = ''B'', sz = 5, px = 3000\<rparr>"

definition negative_fill :: trade where
  "negative_fill = \<lparr>t_coin = ''ETH'', t_side = ''B'', sz = - 5, px = - 3000\<rparr>"

text \<open>
  A BTC position of 20 at 100000 (worth 2000000) is opened, reduced to 2 (worth 200000) and
  closed: the answers to the requests of the three batch evaluations, the three fills, and
  the table entries after the first two evaluations.
\<close>

definition btc_story :: env where
  "btc_story =
     \<lparr>clearinghouseState =
        (\<lambda>n. if n = 1
              then Http 200 [Some \<lparr>ap_coin = ''BTC'', szi = 20, entryPx = 100000, markPx = None\<rparr>]
              else if n = 3
              then Http 200 [Some \<lparr>ap_coin = ''BTC'', szi = 2, entryPx = 100000, markPx = None\<rparr>]
              else Http 200 [Some sol_short]),
      btc_quote = (\<lambda>n. Some 100000), asset_quote = (\<lambda>n coin. 0)\<rparr>"

definition btc_buy :: trade where
  "btc_buy = \<lparr>t_coin = ''BTC'', t_side = ''B'', sz = 20, px = 100000\<rparr>"

definition btc_sell_18 :: trade where
  "btc_sell_18 = \<lparr>t_coin = ''BTC'', t_side = ''A'', sz = 18, px = 100000\<rparr>"

definition btc_sell_2 :: trade where
  "btc_sell_2 = \<lparr>t_coin = ''BTC'', t_side = ''A'', sz = 2, px = 100000\<rparr>"

definition btc_opened :: position where
  "btc_opened =
     \<lparr>p_size = 20, p_side = ''LONG'', p_value = 2000000, p_avg_price = 100000,
      p_current_price = 100000, p_max_value = 2000000\<rparr>"

definition btc_reduced :: position where
  "btc_reduced =
     \<lparr>p_size = 2, p_side = ''LONG'', p_value = 200000, p_avg_price = 100000,
      p_current_price = 100000, p_max_value = 2000000\<rparr>"

text \<open>
  The trackers of the story: after the evaluation of the buy, after that of the first
  sale, and after the three runs of the task of the second sale, which sleeps twice in
  the verification.
\<close>

definition btc_story_1 :: tracker where
  "btc_story_1 =
     snd (run_task btc_story (0, (''BTC'', ''B''), 30) (queue_fill_for_aggregation btc_buy init))"

definition btc_story_2 :: tracker where
  "btc_story_2 =
     snd (run_task btc_story (1, (''BTC'', ''A''), 60)
       (queue_fill_for_aggregation btc_sell_18 btc_story_1))"

definition btc_story_3a :: tracker where
  "btc_story_3a =
     snd (run_task btc_story (2, (''BTC'', ''A''), 90)
       (queue_fill_for_aggregation btc_sell_2 btc_story_2))"

definition btc_story_3b :: tracker where
  "btc_story_3b = snd (run_task btc_story (2, (''BTC'', ''A''), 95) btc_story_3a)"

definition btc_story_3 :: tracker where
  "btc_story_3 = snd (run_task btc_story (2, (''BTC'', ''A''), 100) btc_story_3b)"

text \<open>
  Another end of the story: instead of the last sale, a purchase of 2 BTC, after which the
  exchange shows 4 BTC.
\<close>

definition btc_added :: env where
  "btc_added =
     \<lparr>clearinghouseState =
        (\<lambda>n. Http 200 [Some \<lparr>ap_coin = ''BTC'', szi = 4, entryPx = 100000, markPx = None\<rparr>]),
      btc_quote = (\<lambda>n. Some 100000), asset_quote = (\<lambda>n coin. 0)\<rparr>"

definition btc_buy_2 :: trade where
  "btc_buy_2 = \<lparr>t_coin = ''BTC'', t_side = ''B'', sz = 2, px = 100000\<rparr>"

text \<open>The tracker with the ETH position in the table and in the file.\<close>

definition eth_saved :: tracker where
  "eth_saved =
     init\<lparr>positions := [(''ETH'', eth_tracked)], positions_file := [(''ETH'', eth_tracked)]\<rparr>"


section \<open>Close verification: what it returns\<close>

lemma time_passed_refl: "time_passed s s"
  by (simp add: time_passed_def)

lemma time_passed_trans: "time_passed s s' \<Longrightarrow> time_passed s' s'' \<Longrightarrow> time_passed s s''"
  by (simp add: time_passed_def)

lemma time_passed_after_attempt: "time_passed s (after_attempt attempt s)"
  by (simp add: time_passed_def after_attempt_def sleep_def)

lemma requests_after_attempt: "requests (after_attempt attempt s) = Suc (requests s)"
  by (simp add: after_attempt_def)

lemma verify_attempts_Cons:
  "verify_attempts e coin (attempt # rest) s =
     (if seen_at e coin (requests s) then (False, after_attempt attempt s)
      else verify_attempts e coin rest (after_attempt attempt s))"
  by (auto simp add: seen_at_def get_whale_positions_def sleep_def Let_def after_attempt_def)

lemma verify_attempts_time_passed:
  "time_passed s (snd (verify_attempts e coin attempts s))"
proof (induction attempts arbitrary: s)
  case Nil
  show ?case by (simp add: time_passed_refl)
next
  case (Cons attempt rest)
  show ?case
    using time_passed_trans [OF time_passed_after_attempt Cons.IH]
    by (simp add: verify_attempts_Cons time_passed_after_attempt del: verify_attempts.simps)
qed

lemma verify_attempts_sighting:
  "n < length attempts \<Longrightarrow> seen_at e coin (requests s + n) \<Longrightarrow>
   (\<forall>i<n. \<not> seen_at e coin (requests s + i)) \<Longrightarrow>
   fst (verify_attempts e coin attempts s) = False \<and>
   requests (snd (verify_attempts e coin attempts s)) = requests s + Suc n"
proof (induction attempts arbitrary: s n)
  case Nil
  then show ?case by simp
next
  case (Cons attempt rest)
  let ?s2 = "after_attempt attempt s"
  show ?case
  proof (cases n)
    case 0
    with Cons.prems have "seen_at e coin (requests s)" by simp
    then show ?thesis using 0
      by (simp add: verify_attempts_Cons requests_after_attempt del: verify_attempts.simps)
  next
    case (Suc m)
    from Cons.prems Suc have absent: "\<not> seen_at e coin (requests s)" by auto
    have "fst (verify_attempts e coin rest ?s2) = False \<and>
          requests (snd (verify_attempts e coin rest ?s2)) = requests ?s2 + Suc m"
    proof (rule Cons.IH)
      show "m < length rest" using Cons.prems Suc by simp
      show "seen_at e coin (requests ?s2 + m)"
        using Cons.prems Suc by (simp add: requests_after_attempt)
      show "\<forall>i<m. \<not> seen_at e coin (requests ?s2 + i)"
      proof (intro allI impI)
        fix i assume "i < m"
        then have "Suc i < n" using Suc by simp
        with Cons.prems have "\<not> seen_at e coin (requests s + Suc i)" by blast
        then show "\<not> seen_at e coin (requests ?s2 + i)"
          by (simp add: requests_after_attempt)
      qed
    qed
    then show ?thesis
      using Suc absent
      by (simp add: verify_attempts_Cons requests_after_attempt del: verify_attempts.simps)
  qed
qed

lemma verify_attempts_absent:
  "(\<forall>i<length attempts. \<not> seen_at e coin (requests s + i)) \<Longrightarrow>
   fst (verify_attempts e coin attempts s) = True \<and>
   requests (snd (verify_attempts e coin attempts s)) = requests s + length attempts"
proof (induction attempts arbitrary: s)
  case Nil
  show ?case by simp
next
  case (Cons attempt rest)
  let ?s2 = "after_attempt attempt s"
  from Cons.prems have absent: "\<not> seen_at e coin (requests s)" by auto
  have "\<forall>i<length rest. \<not> seen_at e coin (requests ?s2 + i)"
  proof (intro allI impI)
    fix i assume "i < length rest"
    then have "Suc i < length (attempt # rest)" by simp
    with Cons.prems have "\<not> seen_at e coin (requests s + Suc i)" by blast
    then show "\<not> seen_at e coin (requests ?s2 + i)"
      by (simp add: requests_after_attempt)
  qed
  from Cons.IH [OF this] absent show ?case
    by (simp add: verify_attempts_Cons requests_after_attempt del: verify_attempts.simps)
qed

lemma verify_attempts_closed_iff:
  "fst (verify_attempts e coin attempts s) =
     (\<forall>i<length attempts. \<not> seen_at e coin (requests s + i))"
proof (cases "\<forall>i<length attempts. \<not> seen_at e coin (requests s + i)")
  case True
  then show ?thesis using verify_attempts_absent [of attempts e coin s] by simp
next
  case False
  then have ex: "\<exists>i. i < length attempts \<and> seen_at e coin (requests s + i)" by blast
  define n where "n = (LEAST i. i < length attempts \<and> seen_at e coin (requests s + i))"
  have n: "n < length attempts \<and> seen_at e coin (requests s + n)"
    unfolding n_def using ex by (rule LeastI_ex)
  have "\<forall>i<n. \<not> seen_at e coin (requests s + i)"
  proof (intro allI impI)
    fix i assume "i < n"
    then have "\<not> (i < length attempts \<and> seen_at e coin (requests s + i))"
      unfolding n_def by (rule not_less_Least)
    with \<open>i < n\<close> n show "\<not> seen_at e coin (requests s + i)" by simp
  qed
  with n have "fst (verify_attempts e coin attempts s) = False"
    using verify_attempts_sighting [of n attempts e coin s] by simp
  with False show ?thesis by simp
qed

lemma verify_position_closed_time_passed:
  "time_passed s (snd (verify_position_closed e coin s))"
  by (simp add: verify_position_closed_def verify_attempts_time_passed)

lemma verify_position_closed_iff:
  "fst (verify_position_closed e coin s) =
     (\<forall>i<POSITION_CLOSE_VERIFY_ATTEMPTS. \<not> seen_at e coin (requests s + i))"
  by (simp add: verify_position_closed_def verify_attempts_closed_iff)

lemma verify_position_closed_sighting:
  assumes "n < POSITION_CLOSE_VERIFY_ATTEMPTS" and "seen_at e coin (requests s + n)"
    and "\<forall>i<n. \<not> seen_at e coin (requests s + i)"
  shows "fst (verify_position_closed e coin s) = False"
    and "requests (snd (verify_position_closed e coin s)) = requests s + Suc n"
  using verify_attempts_sighting [of n "[0..<POSITION_CLOSE_VERIFY_ATTEMPTS]" e coin s] assms
  by (simp_all add: verify_position_closed_def)

section \<open>The end of a batch evaluation\<close>

lemma finish_batch_eq:
  "pending_fills s key \<noteq> None \<Longrightarrow>
   finish_batch key s =
     (None, s\<lparr>pending_fills := (pending_fills s)(key := None),
              fill_timers := (fill_timers s)(key := None)\<rparr>)"
  by (cases "fill_timers s key") (auto simp: finish_batch_def Let_def fun_upd_idem)

lemma discard_batch_eq:
  "pending_fills s key \<noteq> None \<Longrightarrow> fill_timers s key \<noteq> None \<Longrightarrow>
   discard_batch key s =
     (None, s\<lparr>pending_fills := (pending_fills s)(key := None),
              fill_timers := (fill_timers s)(key := None)\<rparr>)"
  by (auto simp: discard_batch_def Let_def)

lemma finish_batch_fields:
  "positions (snd (finish_batch key s)) = positions s"
  "telegram (snd (finish_batch key s)) = telegram s"
  "positions_file (snd (finish_batch key s)) = positions_file s"
  "requests (snd (finish_batch key s)) = requests s"
  "tasks (snd (finish_batch key s)) = tasks s"
  "next_task (snd (finish_batch key s)) = next_task s"
  "verifying (snd (finish_batch key s)) = verifying s"
  by (simp_all add: finish_batch_def Let_def)

lemma discard_batch_fields:
  "positions (snd (discard_batch key s)) = positions s"
  "telegram (snd (discard_batch key s)) = telegram s"
  "positions_file (snd (discard_batch key s)) = positions_file s"
  "requests (snd (discard_batch key s)) = requests s"
  "tasks (snd (discard_batch key s)) = tasks s"
  "next_task (snd (discard_batch key s)) = next_task s"
  "verifying (snd (discard_batch key s)) = verifying s"
  by (simp_all add: discard_batch_def Let_def)


lemma close_branch_end_keeps:
  assumes "\<not> (is_closed \<and> p_value prev \<ge> real_of_int (MIN_POSITION_VALUE s5))"
  shows "close_branch_end coin key avg prev is_closed s5 = discard_batch key s5"
  using assms by (auto simp add: close_branch_end_def Let_def)

lemma close_branch_end_closes:
  assumes "is_closed" and "p_value prev \<ge> real_of_int (MIN_POSITION_VALUE s5)"
    and "map_of (positions s5) coin \<noteq> None"
  shows "close_branch_end coin key avg prev is_closed s5 =
     finish_batch key (save_positions (send_close_alert coin (p_side prev) (p_value prev) avg None
       (s5\<lparr>positions := AList.delete coin (positions s5)\<rparr>)))"
  using assms by (auto simp add: close_branch_end_def Let_def)

lemma close_branch_end_key_error:
  assumes "is_closed" and "p_value prev \<ge> real_of_int (MIN_POSITION_VALUE s5)"
    and "map_of (positions s5) coin = None"
  shows "close_branch_end coin key avg prev is_closed s5 = (Some KeyError, s5)"
  using assms by (simp add: close_branch_end_def Let_def)
section \<open>False-close resistance\<close>

lemma close_branch_not_closed:
  assumes "fst (verify_position_closed e coin s) = False"
  shows "telegram (snd (close_branch e coin key avg prev s)) = telegram s"
    and "positions (snd (close_branch e coin key avg prev s)) = positions s"
proof -
  obtain b s5 where v: "verify_position_closed e coin s = (b, s5)"
    by (cases "verify_position_closed e coin s")
  with assms have b: "b = False" by simp
  have "time_passed s s5"
    using verify_position_closed_time_passed [of s e coin] v by simp
  then have "telegram s5 = telegram s" and "positions s5 = positions s"
    by (simp_all add: time_passed_def)
  then show "telegram (snd (close_branch e coin key avg prev s)) = telegram s"
    and "positions (snd (close_branch e coin key avg prev s)) = positions s"
    by (simp_all add: close_branch_def v b close_branch_end_keeps discard_batch_fields)
qed

lemma close_if_verified_not_closed:
  assumes "fst (verify_position_closed e coin s) = False"
  shows "telegram (snd (close_if_verified e coin k s)) = telegram s"
    and "positions (snd (close_if_verified e coin k s)) = positions s"
proof -
  obtain b s1 where v: "verify_position_closed e coin s = (b, s1)"
    by (cases "verify_position_closed e coin s")
  with assms have b: "b = False" by simp
  have "time_passed s s1"
    using verify_position_closed_time_passed [of s e coin] v by simp
  then have "telegram s1 = telegram s" and "positions s1 = positions s"
    by (simp_all add: time_passed_def)
  then show "telegram (snd (close_if_verified e coin k s)) = telegram s"
    and "positions (snd (close_if_verified e coin k s)) = positions s"
    by (simp_all add: close_if_verified_def v b split: option.splits)
qed

text \<open>
  C1. If the fetch of attempt \<open>n\<close> (counted from 0) is the first of a verification to show
  the instrument, \<open>verify_position_closed\<close> returns "not closed" having made exactly
  \<open>n + 1\<close> fetches, and neither caller sends an alert or changes the table: the close
  branch of the batch evaluation and the body of the sweep's loop leave the messages and
  the table as they were.
\<close>

theorem verify_position_closed_short_circuit:
  assumes "n < POSITION_CLOSE_VERIFY_ATTEMPTS"
    and "seen_at e coin (requests s + n)"
    and "\<forall>i<n. \<not> seen_at e coin (requests s + i)"
  shows "fst (verify_position_closed e coin s) = False \<and>
         requests (snd (verify_position_closed e coin s)) = requests s + Suc n \<and>
         telegram (snd (close_branch e coin key avg prev s)) = telegram s \<and>
         positions (snd (close_branch e coin key avg prev s)) = positions s \<and>
         telegram (snd (close_if_verified e coin k s)) = telegram s \<and>
         positions (snd (close_if_verified e coin k s)) = positions s"
proof -
  have closed: "fst (verify_position_closed e coin s) = False"
    and count: "requests (snd (verify_position_closed e coin s)) = requests s + Suc n"
    using verify_position_closed_sighting [OF assms] by simp_all
  show ?thesis
    using closed count close_branch_not_closed [OF closed] close_if_verified_not_closed [OF closed]
    by simp
qed

lemma seen_at_eth_gap:
  "\<not> seen_at eth_gap ''ETH'' 0" "seen_at eth_gap ''ETH'' 1"
  by (simp_all add: seen_at_def eth_gap_def parse_positions_def sol_short_def eth_long_def
      update_conv')

theorem verify_position_closed_short_circuit_witness:
  "fst (verify_position_closed eth_gap ''ETH'' (init\<lparr>positions := [(''ETH'', eth_tracked)]\<rparr>))
     = False \<and>
   requests (snd (verify_position_closed eth_gap ''ETH''
     (init\<lparr>positions := [(''ETH'', eth_tracked)]\<rparr>))) = 2 \<and>
   telegram (snd (close_branch eth_gap ''ETH'' (''ETH'', ''A'') 2100 eth_tracked
     (init\<lparr>positions := [(''ETH'', eth_tracked)]\<rparr>))) = [] \<and>
   telegram (snd (close_if_verified eth_gap ''ETH'' 0
     (init\<lparr>positions := [(''ETH'', eth_tracked)]\<rparr>))) = [] \<and>
   positions (snd (close_if_verified eth_gap ''ETH'' 0
     (init\<lparr>positions := [(''ETH'', eth_tracked)]\<rparr>))) = [(''ETH'', eth_tracked)]"
proof -
  let ?s = "init\<lparr>positions := [(''ETH'', eth_tracked)]\<rparr>"
  have r: "requests ?s = 0" and t: "telegram ?s = []"
    and p: "positions ?s = [(''ETH'', eth_tracked)]"
    by (simp_all add: init_def)
  have n: "(1::nat) < POSITION_CLOSE_VERIFY_ATTEMPTS"
    by (simp add: POSITION_CLOSE_VERIFY_ATTEMPTS_def)
  have seen: "seen_at eth_gap ''ETH'' (requests ?s + 1)"
    using seen_at_eth_gap by (simp add: r)
  have unseen: "\<forall>i<1. \<not> seen_at eth_gap ''ETH'' (requests ?s + i)"
    using seen_at_eth_gap by (simp add: r)
  show ?thesis
    using verify_position_closed_short_circuit [OF n seen unseen,
        of "(''ETH'', ''A'')" 2100 eth_tracked 0]
    by (simp add: r t p)
qed

section \<open>Fetch failures during verification\<close>

lemma failed_not_seen:
  "clearinghouseState e r = Request_failed \<Longrightarrow> \<not> seen_at e coin r"
  by (simp add: seen_at_def parse_positions_def)

lemma failed_fetches_closed:
  assumes "\<forall>i<POSITION_CLOSE_VERIFY_ATTEMPTS.
             clearinghouseState e (requests s + i) = Request_failed"
  shows "fst (verify_position_closed e coin s) = True"
proof -
  from assms have "\<forall>i<POSITION_CLOSE_VERIFY_ATTEMPTS. \<not> seen_at e coin (requests s + i)"
    by (simp add: failed_not_seen)
  then show ?thesis by (simp add: verify_position_closed_iff)
qed
section \<open>Queueing a fill\<close>

lemma queue_fill_unchanged:
  "positions (queue_fill_for_aggregation trade s) = positions s"
  "telegram (queue_fill_for_aggregation trade s) = telegram s"
  "positions_file (queue_fill_for_aggregation trade s) = positions_file s"
  "requests (queue_fill_for_aggregation trade s) = requests s"
  "MIN_POSITION_VALUE (queue_fill_for_aggregation trade s) = MIN_POSITION_VALUE s"
  "PARTIAL_CHANGE_THRESHOLD (queue_fill_for_aggregation trade s) = PARTIAL_CHANGE_THRESHOLD s"
  "btc_price (queue_fill_for_aggregation trade s) = btc_price s"
  by (simp_all add: queue_fill_for_aggregation_def create_task_def cancel_def Let_def
      split: option.splits)

lemma queue_fill_pending:
  assumes "t_coin trade = coin" and "t_side trade = side" and "sz trade * px trade \<ge> 10000"
  shows "pending_fills (queue_fill_for_aggregation trade s) (coin, side) =
     Some ((case pending_fills s (coin, side) of None \<Rightarrow> [] | Some fs \<Rightarrow> fs) @ [trade])"
  using assms
  by (simp add: queue_fill_for_aggregation_def create_task_def cancel_def Let_def
      split: option.splits)

section \<open>Batch evaluation: the branch taken\<close>

lemma tracked_table_with: "tracked (table_with coin ps) coin = tracked ps coin"
  by (simp add: tracked_def table_with_def update_conv' split: option.splits)

lemma map_of_table_with: "map_of (table_with coin ps) coin = Some (tracked ps coin)"
  by (simp add: tracked_def table_with_def update_conv' split: option.splits)

lemma process_at_reconcile:
  assumes "pending_fills s (coin, side) = Some fills" "fills \<noteq> []" "total_size fills \<noteq> 0"
  shows "process_aggregated_fills e coin side s =
     (let s4 = at_reconcile e coin s;
          prev = tracked (positions s) coin;
          current_positions = parse_positions (clearinghouseState e (Suc (requests s)))
      in
      if p_size prev = 0 \<and> seen_at e coin (Suc (requests s)) then
        (case map_of current_positions coin of
           None \<Rightarrow> (Some KeyError, s4)
         | Some actual_position \<Rightarrow>
             open_branch coin (coin, side) (avg_price fills)
               (avg_price fills * total_size fills) actual_position s4)
      else if p_size prev > 0 \<and> \<not> seen_at e coin (Suc (requests s)) then
        close_branch e coin (coin, side) (avg_price fills) prev s4
      else if p_size prev > 0 \<and> seen_at e coin (Suc (requests s)) then
        (case map_of current_positions coin of
           None \<Rightarrow> (Some KeyError, s4)
         | Some actual_position \<Rightarrow>
             change_branch coin (coin, side) (avg_price fills) prev actual_position s4)
      else discard_batch (coin, side) s4)"
proof -
  let ?s2 = "(snd (get_btc_price e s))\<lparr>btc_price := fst (get_btc_price e s)\<rparr>"
  have s3: "snd (get_whale_positions e ?s2) = after_fetches e s"
    by (simp add: get_whale_positions_def get_btc_price_def after_fetches_def Let_def
        split: option.splits)
  have cur: "fst (get_whale_positions e ?s2) =
      parse_positions (clearinghouseState e (Suc (requests s)))"
    by (simp add: get_whale_positions_def get_btc_price_def Let_def split: option.splits)
  have pos: "positions (after_fetches e s) = positions s"
    by (simp add: after_fetches_def)
  have s4: "(if map_of (positions (after_fetches e s)) coin = None
             then (after_fetches e s)\<lparr>positions :=
                    AList.update coin placeholder (positions (after_fetches e s))\<rparr>
             else after_fetches e s) = at_reconcile e coin s"
    by (simp add: at_reconcile_def table_with_def pos)
  have prev: "(case map_of (positions (at_reconcile e coin s)) coin of
                 Some p \<Rightarrow> p | None \<Rightarrow> placeholder) = tracked (positions s) coin"
    by (simp add: at_reconcile_def map_of_table_with)
  show ?thesis
    unfolding process_aggregated_fills_def
    using assms
    by (simp add: Let_def split_beta s3 cur s4 prev seen_at_def
          split del: if_split cong: if_cong option.case_cong)
qed

lemma at_reconcile_fields:
  "positions (at_reconcile e coin s) = table_with coin (positions s)"
  "telegram (at_reconcile e coin s) = telegram s"
  "positions_file (at_reconcile e coin s) = positions_file s"
  "pending_fills (at_reconcile e coin s) = pending_fills s"
  "fill_timers (at_reconcile e coin s) = fill_timers s"
  "tasks (at_reconcile e coin s) = tasks s"
  "next_task (at_reconcile e coin s) = next_task s"
  "verifying (at_reconcile e coin s) = verifying s"
  "requests (at_reconcile e coin s) = Suc (Suc (requests s))"
  "MIN_POSITION_VALUE (at_reconcile e coin s) = MIN_POSITION_VALUE s"
  "PARTIAL_CHANGE_THRESHOLD (at_reconcile e coin s) = PARTIAL_CHANGE_THRESHOLD s"
  "btc_price (at_reconcile e coin s) = fst (get_btc_price e s)"
  by (simp_all add: at_reconcile_def after_fetches_def)

lemma telegram_send_open_alert:
  "telegram (send_open_alert coin side v p s) =
     telegram s @
       [\<lparr>kind = OPEN, emoji = fst (get_position_emoji_and_tier coin v),
         tier = snd (get_position_emoji_and_tier coin v), a_coin = coin, a_side = side,
         shown_value = v, prev_shown = None, pct = None, entry_shown = None,
         price = p, btc = btc_price s\<rparr>]"
  by (simp add: send_open_alert_def send_telegram_message_def split_beta)

lemma send_open_alert_fields:
  "positions (send_open_alert coin side v p s) = positions s"
  "positions_file (send_open_alert coin side v p s) = positions_file s"
  "pending_fills (send_open_alert coin side v p s) = pending_fills s"
  "fill_timers (send_open_alert coin side v p s) = fill_timers s"
  "tasks (send_open_alert coin side v p s) = tasks s"
  "next_task (send_open_alert coin side v p s) = next_task s"
  "verifying (send_open_alert coin side v p s) = verifying s"
  by (simp_all add: send_open_alert_def send_telegram_message_def split_beta)

lemma save_positions_fields:
  "positions (save_positions s) = positions s"
  "positions_file (save_positions s) = positions s"
  "telegram (save_positions s) = telegram s"
  "pending_fills (save_positions s) = pending_fills s"
  "fill_timers (save_positions s) = fill_timers s"
  "tasks (save_positions s) = tasks s"
  "next_task (save_positions s) = next_task s"
  "verifying (save_positions s) = verifying s"
  by (simp_all add: save_positions_def)

section \<open>Opening a position\<close>

lemma open_branch_opens:
  assumes "pv \<ge> real_of_int (MIN_POSITION_VALUE s4)"
  shows "telegram (snd (open_branch coin key avg pv actual_position s4)) =
     telegram s4 @
       [\<lparr>kind = OPEN, emoji = fst (get_position_emoji_and_tier coin (p_value actual_position)),
         tier = snd (get_position_emoji_and_tier coin (p_value actual_position)),
         a_coin = coin, a_side = p_side actual_position,
         shown_value = p_value actual_position, prev_shown = None, pct = None,
         entry_shown = None, price = avg, btc = btc_price s4\<rparr>]"
    and "positions (snd (open_branch coin key avg pv actual_position s4)) =
      AList.update coin (opened actual_position) (positions s4)"
  using assms
  by (simp_all add: open_branch_def Let_def finish_batch_fields save_positions_fields
      telegram_send_open_alert send_open_alert_fields)

lemma open_branch_ignores:
  assumes "\<not> pv \<ge> real_of_int (MIN_POSITION_VALUE s4)"
  shows "telegram (snd (open_branch coin key avg pv actual_position s4)) = telegram s4"
    and "positions (snd (open_branch coin key avg pv actual_position s4)) = positions s4"
  using assms by (simp_all add: open_branch_def discard_batch_fields)

lemma eth_gap_snapshot:
  "map_of (parse_positions (clearinghouseState eth_gap (Suc 0))) ''ETH'' =
     Some \<lparr>p_size = 100, p_side = ''LONG'', p_value = 210000, p_avg_price = 2000,
           p_current_price = 2100\<rparr>"
  by (simp add: eth_gap_def parse_positions_def sol_short_def eth_long_def update_conv')

lemma queue_on_init:
  assumes "t_coin trade = coin" and "t_side trade = side" and "sz trade * px trade \<ge> 10000"
  shows "pending_fills (queue_fill_for_aggregation trade init) (coin, side) = Some [trade]"
    and "fill_timers (queue_fill_for_aggregation trade init) (coin, side) = Some 0"
    and "positions (queue_fill_for_aggregation trade init) = []"
    and "telegram (queue_fill_for_aggregation trade init) = []"
    and "positions_file (queue_fill_for_aggregation trade init) = []"
    and "requests (queue_fill_for_aggregation trade init) = 0"
    and "MIN_POSITION_VALUE (queue_fill_for_aggregation trade init) = 100000"
    and "tasks (queue_fill_for_aggregation trade init) = [(0, (coin, side), 30)]"
  using assms
  by (simp_all add: queue_fill_for_aggregation_def init_def create_task_def Let_def)

lemma small_fill_facts:
  "t_coin small_fill = ''ETH''" "t_side small_fill = ''B''"
  "sz small_fill * px small_fill \<ge> 10000" "total_size [small_fill] \<noteq> 0"
  "avg_price [small_fill] * total_size [small_fill] = 20000"
  by (simp_all add: small_fill_def total_size_def avg_price_def)

lemma large_fill_facts:
  "t_coin large_fill = ''ETH''" "t_side large_fill = ''B''"
  "sz large_fill * px large_fill \<ge> 10000" "total_size [large_fill] \<noteq> 0"
  "avg_price [large_fill] * total_size [large_fill] = 200000"
  "avg_price [large_fill] = 2000"
  by (simp_all add: large_fill_def total_size_def avg_price_def)

lemma eth_minor_snapshot:
  "parse_positions (clearinghouseState eth_minor n) =
     [(''ETH'', \<lparr>p_size = 10, p_side = ''LONG'', p_value = 20000, p_avg_price = 2000,
         p_current_price = 2000\<rparr>)]"
  by (simp add: eth_minor_def parse_positions_def)

text \<open>
  C3 at two failing inputs; the minimum is 100000 and ETH is not in the table.
  A batch worth 20000 while the exchange shows ETH at 210000: no OPEN alert is sent and
  the table gets an entry of size 0. A batch worth 200000 while the exchange shows ETH at
  20000: an OPEN alert for the 20000, which has no tier, is sent, and the entry made from
  the exchange's data is written to the table and to the file. The startup sync, which
  compares the exchange's value with the minimum, does not take the position of 20000.
\<close>

theorem process_aggregated_fills_open_by_batch_value:
  "map_of (parse_positions (clearinghouseState eth_gap 1)) ''ETH'' =
     Some \<lparr>p_size = 100, p_side = ''LONG'', p_value = 210000, p_avg_price = 2000,
           p_current_price = 2100\<rparr> \<and>
   positions (queue_fill_for_aggregation small_fill init) = [] \<and>
   real_of_int (MIN_POSITION_VALUE (queue_fill_for_aggregation small_fill init)) \<le> 210000 \<and>
   telegram (snd (process_aggregated_fills eth_gap ''ETH'' ''B''
      (queue_fill_for_aggregation small_fill init))) = [] \<and>
   positions (snd (process_aggregated_fills eth_gap ''ETH'' ''B''
      (queue_fill_for_aggregation small_fill init))) = [(''ETH'', placeholder)] \<and>
   map_of (parse_positions (clearinghouseState eth_minor 1)) ''ETH'' =
     Some \<lparr>p_size = 10, p_side = ''LONG'', p_value = 20000, p_avg_price = 2000,
           p_current_price = 2000\<rparr> \<and>
   positions (queue_fill_for_aggregation large_fill init) = [] \<and>
   20000 < real_of_int (MIN_POSITION_VALUE (queue_fill_for_aggregation large_fill init)) \<and>
   telegram (snd (process_aggregated_fills eth_minor ''ETH'' ''B''
      (queue_fill_for_aggregation large_fill init))) =
     [\<lparr>kind = OPEN, emoji = [], tier = [], a_coin = ''ETH'', a_side = ''LONG'',
       shown_value = 20000, prev_shown = None, pct = None, entry_shown = None,
       price = 2000, btc = 100000\<rparr>] \<and>
   positions (snd (process_aggregated_fills eth_minor ''ETH'' ''B''
      (queue_fill_for_aggregation large_fill init))) =
     [(''ETH'', \<lparr>p_size = 10, p_side = ''LONG'', p_value = 20000, p_avg_price = 2000,
         p_current_price = 2000, p_max_value = 20000\<rparr>)] \<and>
   positions (sync_positions_on_startup eth_minor init) = []"
proof -
  let ?s = "queue_fill_for_aggregation small_fill init"
  note q = queue_on_init [OF small_fill_facts(1-3)]
  have prev: "p_size (tracked (positions ?s) ''ETH'') = 0"
    by (simp add: q tracked_def placeholder_def)
  have seen: "seen_at eth_gap ''ETH'' (Suc (requests ?s))"
    by (simp add: q seen_at_def eth_gap_snapshot)
  have eq: "process_aggregated_fills eth_gap ''ETH'' ''B'' ?s =
      open_branch ''ETH'' (''ETH'', ''B'') (avg_price [small_fill])
        (avg_price [small_fill] * total_size [small_fill])
        \<lparr>p_size = 100, p_side = ''LONG'', p_value = 210000, p_avg_price = 2000,
         p_current_price = 2100\<rparr>
        (at_reconcile eth_gap ''ETH'' ?s)"
    using process_at_reconcile [OF q(1) _ small_fill_facts(4), of eth_gap] prev seen
    by (simp add: Let_def q eth_gap_snapshot)
  have low: "\<not> avg_price [small_fill] * total_size [small_fill] \<ge>
      real_of_int (MIN_POSITION_VALUE (at_reconcile eth_gap ''ETH'' ?s))"
    by (simp add: at_reconcile_fields q small_fill_facts)
  have missed:
    "telegram (snd (process_aggregated_fills eth_gap ''ETH'' ''B'' ?s)) = [] \<and>
     positions (snd (process_aggregated_fills eth_gap ''ETH'' ''B'' ?s)) =
       [(''ETH'', placeholder)]"
    using open_branch_ignores [OF low]
    by (simp add: eq at_reconcile_fields q table_with_def)
  let ?l = "queue_fill_for_aggregation large_fill init"
  let ?minor = "\<lparr>p_size = 10, p_side = ''LONG'', p_value = 20000, p_avg_price = 2000,
         p_current_price = 2000\<rparr> :: exchange_position"
  note ql = queue_on_init [OF large_fill_facts(1-3)]
  have prevl: "p_size (tracked (positions ?l) ''ETH'') = 0"
    by (simp add: ql tracked_def placeholder_def)
  have seenl: "seen_at eth_minor ''ETH'' (Suc (requests ?l))"
    by (simp add: seen_at_def eth_minor_snapshot)
  have eql: "process_aggregated_fills eth_minor ''ETH'' ''B'' ?l =
      open_branch ''ETH'' (''ETH'', ''B'') (avg_price [large_fill])
        (avg_price [large_fill] * total_size [large_fill]) ?minor
        (at_reconcile eth_minor ''ETH'' ?l)"
    using process_at_reconcile [OF ql(1) _ large_fill_facts(4), of eth_minor] prevl seenl
    by (simp add: Let_def eth_minor_snapshot)
  have high: "avg_price [large_fill] * total_size [large_fill] \<ge>
      real_of_int (MIN_POSITION_VALUE (at_reconcile eth_minor ''ETH'' ?l))"
    by (simp add: at_reconcile_fields ql large_fill_facts(5))
  have btc: "fst (get_btc_price eth_minor ?l) = 100000"
    by (simp add: get_btc_price_def eth_minor_def queue_fill_unchanged init_def)
  have sent:
    "telegram (snd (process_aggregated_fills eth_minor ''ETH'' ''B'' ?l)) =
       [\<lparr>kind = OPEN, emoji = [], tier = [], a_coin = ''ETH'', a_side = ''LONG'',
         shown_value = 20000, prev_shown = None, pct = None, entry_shown = None,
         price = 2000, btc = 100000\<rparr>]"
    using open_branch_opens(1) [OF high, of "''ETH''" "(''ETH'', ''B'')" "avg_price [large_fill]"
        ?minor]
    by (simp add: eql at_reconcile_fields ql large_fill_facts btc get_position_emoji_and_tier_def)
  have written:
    "positions (snd (process_aggregated_fills eth_minor ''ETH'' ''B'' ?l)) =
       [(''ETH'', \<lparr>p_size = 10, p_side = ''LONG'', p_value = 20000, p_avg_price = 2000,
           p_current_price = 2000, p_max_value = 20000\<rparr>)]"
    using open_branch_opens(2) [OF high, of "''ETH''" "(''ETH'', ''B'')" "avg_price [large_fill]"
        ?minor]
    by (simp add: eql at_reconcile_fields ql table_with_def opened_def)
  have sync: "positions (sync_positions_on_startup eth_minor init) = []"
    by (simp add: sync_positions_on_startup_def get_whale_positions_def eth_minor_snapshot
        init_def)
  show ?thesis
    using missed sent written sync eth_gap_snapshot eth_minor_snapshot
    by (simp add: q ql)
qed
section \<open>Closing and changing a position\<close>

lemma telegram_send_close_alert:
  "telegram (send_close_alert coin side v p entry s) =
     telegram s @
       [\<lparr>kind = CLOSE, emoji = fst (get_position_emoji_and_tier coin v),
         tier = snd (get_position_emoji_and_tier coin v), a_coin = coin, a_side = side,
         shown_value = v, prev_shown = None, pct = None,
         entry_shown = entry_price_text
           (case entry of
              Some p' \<Rightarrow> Some p'
            | None \<Rightarrow>
                (case map_of (positions s) coin of
                   Some pos \<Rightarrow> Some (p_avg_price pos)
                 | None \<Rightarrow> None)),
         price = p, btc = btc_price s\<rparr>]"
  by (simp add: send_close_alert_def send_telegram_message_def split_beta)

lemma send_close_alert_fields:
  "positions (send_close_alert coin side v p entry s) = positions s"
  "positions_file (send_close_alert coin side v p entry s) = positions_file s"
  "pending_fills (send_close_alert coin side v p entry s) = pending_fills s"
  "fill_timers (send_close_alert coin side v p entry s) = fill_timers s"
  "tasks (send_close_alert coin side v p entry s) = tasks s"
  "next_task (send_close_alert coin side v p entry s) = next_task s"
  "verifying (send_close_alert coin side v p entry s) = verifying s"
  by (simp_all add: send_close_alert_def send_telegram_message_def split_beta)

lemma close_branch_closes:
  assumes "fst (verify_position_closed e coin s4)"
    and "p_value prev \<ge> real_of_int (MIN_POSITION_VALUE s4)"
    and "map_of (positions s4) coin \<noteq> None"
  shows "telegram (snd (close_branch e coin key avg prev s4)) =
     telegram s4 @
       [\<lparr>kind = CLOSE, emoji = fst (get_position_emoji_and_tier coin (p_value prev)),
         tier = snd (get_position_emoji_and_tier coin (p_value prev)), a_coin = coin,
         a_side = p_side prev, shown_value = p_value prev, prev_shown = None, pct = None,
         entry_shown = None, price = avg, btc = btc_price s4\<rparr>]"
    and "positions (snd (close_branch e coin key avg prev s4)) = AList.delete coin (positions s4)"
    and "positions_file (snd (close_branch e coin key avg prev s4)) =
           AList.delete coin (positions s4)"
proof -
  obtain b s5 where v: "verify_position_closed e coin s4 = (b, s5)"
    by (cases "verify_position_closed e coin s4")
  with assms have b: "b" by simp
  have tp: "time_passed s4 s5"
    using verify_position_closed_time_passed [of s4 e coin] v by simp
  then have f: "telegram s5 = telegram s4" "positions s5 = positions s4"
    "MIN_POSITION_VALUE s5 = MIN_POSITION_VALUE s4" "btc_price s5 = btc_price s4"
    by (simp_all add: time_passed_def)
  have gone: "map_of (AList.delete coin (positions s4)) coin = None"
    by (simp add: delete_conv')
  have c: "close_branch e coin key avg prev s4 =
     finish_batch key (save_positions (send_close_alert coin (p_side prev) (p_value prev) avg None
       (s5\<lparr>positions := AList.delete coin (positions s5)\<rparr>)))"
    using close_branch_end_closes [where is_closed = b and prev = prev and ?s5.0 = s5
        and coin = coin and key = key and avg = avg] b assms(2,3)
    by (simp add: close_branch_def v f)
  show "telegram (snd (close_branch e coin key avg prev s4)) =
     telegram s4 @
       [\<lparr>kind = CLOSE, emoji = fst (get_position_emoji_and_tier coin (p_value prev)),
         tier = snd (get_position_emoji_and_tier coin (p_value prev)), a_coin = coin,
         a_side = p_side prev, shown_value = p_value prev, prev_shown = None, pct = None,
         entry_shown = None, price = avg, btc = btc_price s4\<rparr>]"
    by (simp add: c f finish_batch_fields save_positions_fields
        telegram_send_close_alert gone entry_price_text_def)
  show "positions (snd (close_branch e coin key avg prev s4)) = AList.delete coin (positions s4)"
    by (simp add: c f finish_batch_fields save_positions_fields send_close_alert_fields)
  show "positions_file (snd (close_branch e coin key avg prev s4)) =
           AList.delete coin (positions s4)"
    by (simp add: c f finish_batch_fields save_positions_fields send_close_alert_fields)
qed

lemma close_branch_keeps:
  assumes "\<not> (fst (verify_position_closed e coin s4) \<and>
              p_value prev \<ge> real_of_int (MIN_POSITION_VALUE s4))"
  shows "telegram (snd (close_branch e coin key avg prev s4)) = telegram s4"
    and "positions (snd (close_branch e coin key avg prev s4)) = positions s4"
    and "positions_file (snd (close_branch e coin key avg prev s4)) = positions_file s4"
proof -
  obtain b s5 where v: "verify_position_closed e coin s4 = (b, s5)"
    by (cases "verify_position_closed e coin s4")
  have tp: "time_passed s4 s5"
    using verify_position_closed_time_passed [of s4 e coin] v by simp
  then have f: "telegram s5 = telegram s4" "positions s5 = positions s4"
    "MIN_POSITION_VALUE s5 = MIN_POSITION_VALUE s4" "positions_file s5 = positions_file s4"
    by (simp_all add: time_passed_def)
  from assms v have no: "\<not> (b \<and> p_value prev \<ge> real_of_int (MIN_POSITION_VALUE s5))"
    by (simp add: f)
  have c: "close_branch e coin key avg prev s4 = discard_batch key s5"
    using close_branch_end_keeps [OF no] by (simp add: close_branch_def v)
  show "telegram (snd (close_branch e coin key avg prev s4)) = telegram s4"
    and "positions (snd (close_branch e coin key avg prev s4)) = positions s4"
    and "positions_file (snd (close_branch e coin key avg prev s4)) = positions_file s4"
    by (simp_all add: c f discard_batch_fields)
qed

lemma telegram_send_partial_increase_alert:
  assumes "map_of (positions s) coin = Some pos"
  shows "send_partial_increase_alert coin side prev_value curr_value increase_pct p s =
     (None, s\<lparr>telegram := telegram s @
       [\<lparr>kind = PARTIAL_INCREASE,
         emoji = fst (get_position_emoji_and_tier coin (p_max_value pos)),
         tier = snd (get_position_emoji_and_tier coin (p_max_value pos)), a_coin = coin,
         a_side = side, shown_value = curr_value, prev_shown = Some prev_value,
         pct = Some increase_pct, entry_shown = None, price = p, btc = btc_price s\<rparr>]\<rparr>)"
  using assms
  by (simp add: send_partial_increase_alert_def send_telegram_message_def split_beta Let_def)

lemma telegram_send_partial_close_alert:
  assumes "map_of (positions s) coin = Some pos"
  shows "send_partial_close_alert coin side prev_value curr_value reduction_pct p s =
     (None, s\<lparr>telegram := telegram s @
       [\<lparr>kind = PARTIAL_CLOSE,
         emoji = fst (get_position_emoji_and_tier coin (p_max_value pos)),
         tier = snd (get_position_emoji_and_tier coin (p_max_value pos)), a_coin = coin,
         a_side = side, shown_value = curr_value, prev_shown = Some prev_value,
         pct = Some reduction_pct, entry_shown = entry_price_text (Some (p_avg_price pos)),
         price = p, btc = btc_price s\<rparr>]\<rparr>)"
  using assms
  by (simp add: send_partial_close_alert_def send_telegram_message_def split_beta Let_def)

lemma change_branch_increase:
  assumes "p_size actual > p_size prev"
    and "(p_size actual - p_size prev) / p_size prev \<ge> PARTIAL_CHANGE_THRESHOLD s4"
  shows "telegram (snd (change_branch coin key avg prev actual s4)) =
     telegram s4 @
       [\<lparr>kind = PARTIAL_INCREASE,
         emoji = fst (get_position_emoji_and_tier coin (max (p_value actual) (p_max_value prev))),
         tier = snd (get_position_emoji_and_tier coin (max (p_value actual) (p_max_value prev))),
         a_coin = coin, a_side = p_side prev, shown_value = p_value actual,
         prev_shown = Some (p_value prev),
         pct = Some ((p_size actual - p_size prev) / p_size prev), entry_shown = None,
         price = avg, btc = btc_price s4\<rparr>]"
    and "positions (snd (change_branch coin key avg prev actual s4)) =
      AList.update coin
        (prev\<lparr>p_size := p_size actual, p_value := p_value actual,
              p_avg_price := p_avg_price actual, p_current_price := p_current_price actual,
              p_max_value := max (p_value actual) (p_max_value prev)\<rparr>) (positions s4)"
    and "positions_file (snd (change_branch coin key avg prev actual s4)) =
      positions (snd (change_branch coin key avg prev actual s4))"
proof -
  let ?new = "prev\<lparr>p_size := p_size actual, p_value := p_value actual,
              p_avg_price := p_avg_price actual, p_current_price := p_current_price actual,
              p_max_value := max (p_value actual) (p_max_value prev)\<rparr>"
  let ?s5 = "s4\<lparr>positions := AList.update coin ?new (positions s4)\<rparr>"
  have m: "map_of (positions ?s5) coin = Some ?new"
    by (simp add: update_conv')
  note alert = telegram_send_partial_increase_alert [OF m]
  show "telegram (snd (change_branch coin key avg prev actual s4)) =
     telegram s4 @
       [\<lparr>kind = PARTIAL_INCREASE,
         emoji = fst (get_position_emoji_and_tier coin (max (p_value actual) (p_max_value prev))),
         tier = snd (get_position_emoji_and_tier coin (max (p_value actual) (p_max_value prev))),
         a_coin = coin, a_side = p_side prev, shown_value = p_value actual,
         prev_shown = Some (p_value prev),
         pct = Some ((p_size actual - p_size prev) / p_size prev), entry_shown = None,
         price = avg, btc = btc_price s4\<rparr>]"
    using assms
    by (simp add: change_branch_def Let_def alert finish_batch_fields save_positions_fields)
  show "positions (snd (change_branch coin key avg prev actual s4)) =
      AList.update coin ?new (positions s4)"
    using assms
    by (simp add: change_branch_def Let_def alert finish_batch_fields save_positions_fields)
  show "positions_file (snd (change_branch coin key avg prev actual s4)) =
      positions (snd (change_branch coin key avg prev actual s4))"
    using assms
    by (simp add: change_branch_def Let_def alert finish_batch_fields save_positions_fields)
qed

lemma change_branch_silent_increase:
  assumes "p_size actual > p_size prev"
    and "\<not> (p_size actual - p_size prev) / p_size prev \<ge> PARTIAL_CHANGE_THRESHOLD s4"
  shows "telegram (snd (change_branch coin key avg prev actual s4)) = telegram s4"
    and "positions (snd (change_branch coin key avg prev actual s4)) =
      AList.update coin
        (prev\<lparr>p_size := p_size actual, p_value := p_value actual,
              p_avg_price := p_avg_price actual, p_current_price := p_current_price actual\<rparr>)
        (positions s4)"
    and "positions_file (snd (change_branch coin key avg prev actual s4)) = positions_file s4"
  using assms by (simp_all add: change_branch_def Let_def discard_batch_fields)

lemma change_branch_partial_close:
  assumes "\<not> p_size actual > p_size prev"
    and "(p_size prev - p_size actual) / p_size prev \<ge> PARTIAL_CHANGE_THRESHOLD s4"
  shows "telegram (snd (change_branch coin key avg prev actual s4)) =
     telegram s4 @
       [\<lparr>kind = PARTIAL_CLOSE,
         emoji = fst (get_position_emoji_and_tier coin (p_max_value prev)),
         tier = snd (get_position_emoji_and_tier coin (p_max_value prev)),
         a_coin = coin, a_side = p_side prev, shown_value = p_value actual,
         prev_shown = Some (p_value prev),
         pct = Some ((p_size prev - p_size actual) / p_size prev),
         entry_shown = entry_price_text (Some (p_avg_price prev)),
         price = avg, btc = btc_price s4\<rparr>]"
    and "positions (snd (change_branch coin key avg prev actual s4)) =
      AList.update coin
        (prev\<lparr>p_size := p_size actual, p_value := p_value actual,
              p_current_price := p_current_price actual\<rparr>) (positions s4)"
    and "positions_file (snd (change_branch coin key avg prev actual s4)) =
      positions (snd (change_branch coin key avg prev actual s4))"
proof -
  let ?new = "prev\<lparr>p_size := p_size actual, p_value := p_value actual,
              p_current_price := p_current_price actual\<rparr>"
  let ?s5 = "s4\<lparr>positions := AList.update coin ?new (positions s4)\<rparr>"
  have m: "map_of (positions ?s5) coin = Some ?new"
    by (simp add: update_conv')
  note alert = telegram_send_partial_close_alert [OF m]
  show "telegram (snd (change_branch coin key avg prev actual s4)) =
     telegram s4 @
       [\<lparr>kind = PARTIAL_CLOSE,
         emoji = fst (get_position_emoji_and_tier coin (p_max_value prev)),
         tier = snd (get_position_emoji_and_tier coin (p_max_value prev)),
         a_coin = coin, a_side = p_side prev, shown_value = p_value actual,
         prev_shown = Some (p_value prev),
         pct = Some ((p_size prev - p_size actual) / p_size prev),
         entry_shown = entry_price_text (Some (p_avg_price prev)),
         price = avg, btc = btc_price s4\<rparr>]"
    using assms
    by (simp add: change_branch_def Let_def alert finish_batch_fields save_positions_fields)
  show "positions (snd (change_branch coin key avg prev actual s4)) =
      AList.update coin ?new (positions s4)"
    using assms
    by (simp add: change_branch_def Let_def alert finish_batch_fields save_positions_fields)
  show "positions_file (snd (change_branch coin key avg prev actual s4)) =
      positions (snd (change_branch coin key avg prev actual s4))"
    using assms
    by (simp add: change_branch_def Let_def alert finish_batch_fields save_positions_fields)
qed

lemma change_branch_silent_decrease:
  assumes "\<not> p_size actual > p_size prev"
    and "\<not> (p_size prev - p_size actual) / p_size prev \<ge> PARTIAL_CHANGE_THRESHOLD s4"
  shows "telegram (snd (change_branch coin key avg prev actual s4)) = telegram s4"
    and "positions (snd (change_branch coin key avg prev actual s4)) =
      AList.update coin
        (prev\<lparr>p_size := p_size actual, p_value := p_value actual,
              p_current_price := p_current_price actual\<rparr>) (positions s4)"
    and "positions_file (snd (change_branch coin key avg prev actual s4)) = positions_file s4"
  using assms by (simp_all add: change_branch_def Let_def discard_batch_fields)

section \<open>The sweep closes below the threshold\<close>

lemma attempts_list: "[0..<POSITION_CLOSE_VERIFY_ATTEMPTS] = [0, 1, 2]"
  by (simp add: POSITION_CLOSE_VERIFY_ATTEMPTS_def upt_rec)

lemma eth_gone_snapshot:
  "parse_positions (clearinghouseState eth_gone n) =
     [(''SOL'', \<lparr>p_size = 500, p_side = ''SHORT'', p_value = 75000, p_avg_price = 150,
        p_current_price = 150\<rparr>)]"
  by (simp add: eth_gone_def parse_positions_def sol_short_def)

lemma eth_gone_quotes: "btc_quote eth_gone n = None" "asset_quote eth_gone n coin = 0"
  by (simp_all add: eth_gone_def)

lemma verify_eth_gone:
  "verify_position_closed eth_gone ''ETH'' s =
     (True, s\<lparr>requests := requests s + 3, clock := clock s + 10\<rparr>)"
  by (simp add: verify_position_closed_def attempts_list get_whale_positions_def
      eth_gone_snapshot sleep_def POSITION_CLOSE_VERIFY_DELAY_def)

text \<open>
  The batch path on the same input: a sale of the tracked 25 ETH, worth 50000 in the table,
  with ETH gone from the exchange, sends nothing and keeps the entry.
\<close>

lemma batch_keeps_below_threshold:
  "telegram (snd (process_aggregated_fills eth_gone ''ETH'' ''A''
      (queue_fill_for_aggregation sell_fill (init\<lparr>positions := [(''ETH'', eth_reduced)]\<rparr>)))) = [] \<and>
   positions (snd (process_aggregated_fills eth_gone ''ETH'' ''A''
      (queue_fill_for_aggregation sell_fill (init\<lparr>positions := [(''ETH'', eth_reduced)]\<rparr>)))) =
     [(''ETH'', eth_reduced)]"
proof -
  let ?start = "init\<lparr>positions := [(''ETH'', eth_reduced)]\<rparr>"
  let ?s = "queue_fill_for_aggregation sell_fill ?start"
  have sell: "t_coin sell_fill = ''ETH''" "t_side sell_fill = ''A''"
    "sz sell_fill * px sell_fill \<ge> 10000"
    by (simp_all add: sell_fill_def)
  have pend: "pending_fills ?s (''ETH'', ''A'') = Some [sell_fill]"
    using queue_fill_pending [OF sell, of ?start] by (simp add: init_def)
  have tot: "total_size [sell_fill] \<noteq> 0"
    by (simp add: total_size_def sell_fill_def)
  have pos: "positions ?s = [(''ETH'', eth_reduced)]" and tel: "telegram ?s = []"
    and minv: "MIN_POSITION_VALUE ?s = 100000"
    by (simp_all add: queue_fill_unchanged init_def)
  have prev: "tracked (positions ?s) ''ETH'' = eth_reduced"
    by (simp add: pos tracked_def)
  have psz: "p_size eth_reduced > 0" and pval: "p_value eth_reduced = 50000"
    by (simp_all add: eth_reduced_def)
  have unseen: "\<not> seen_at eth_gone ''ETH'' (Suc (requests ?s))"
    by (simp add: seen_at_def eth_gone_snapshot)
  have eq: "process_aggregated_fills eth_gone ''ETH'' ''A'' ?s =
      close_branch eth_gone ''ETH'' (''ETH'', ''A'') (avg_price [sell_fill]) eth_reduced
        (at_reconcile eth_gone ''ETH'' ?s)"
    using process_at_reconcile [OF pend _ tot, of eth_gone] unseen psz
    by (simp add: Let_def prev)
  have low: "\<not> (fst (verify_position_closed eth_gone ''ETH'' (at_reconcile eth_gone ''ETH'' ?s)) \<and>
      p_value eth_reduced \<ge> real_of_int (MIN_POSITION_VALUE (at_reconcile eth_gone ''ETH'' ?s)))"
    using pval by (simp add: at_reconcile_fields minv)
  show ?thesis
    using close_branch_keeps [OF low]
    by (simp add: eq at_reconcile_fields pos tel table_with_def)
qed

text \<open>
  C4 at a failing input. The table holds 25 ETH worth 50000, below the minimum of 100000,
  and the exchange no longer shows ETH: the sweep verifies the close, sends a CLOSE alert
  for the 50000 and removes the entry.
\<close>

theorem sweep_closes_below_threshold:
  "p_value eth_reduced < real_of_int (MIN_POSITION_VALUE init) \<and>
   map kind (telegram (snd (verify_all_positions eth_gone
      (init\<lparr>positions := [(''ETH'', eth_reduced)]\<rparr>)))) = [CLOSE] \<and>
   map a_coin (telegram (snd (verify_all_positions eth_gone
      (init\<lparr>positions := [(''ETH'', eth_reduced)]\<rparr>)))) = [''ETH''] \<and>
   map shown_value (telegram (snd (verify_all_positions eth_gone
      (init\<lparr>positions := [(''ETH'', eth_reduced)]\<rparr>)))) = [50000] \<and>
   positions (snd (verify_all_positions eth_gone
      (init\<lparr>positions := [(''ETH'', eth_reduced)]\<rparr>))) = []"
  by (simp add: verify_all_positions_def get_whale_positions_def eth_gone_snapshot
      close_if_verified_def verify_eth_gone get_btc_price_def get_asset_price_def
      send_close_alert_def send_telegram_message_def save_positions_def split_beta Let_def
      init_def eth_reduced_def eth_gone_quotes)

section \<open>Entries of size zero\<close>

lemma process_leaves_placeholder:
  assumes "pending_fills s (coin, side) = Some fills" and "fills \<noteq> []"
    and "total_size fills \<noteq> 0"
    and "map_of (positions s) coin = None"
    and "\<not> seen_at e coin (Suc (requests s))"
  shows "positions (snd (process_aggregated_fills e coin side s)) =
           AList.update coin placeholder (positions s)"
    and "telegram (snd (process_aggregated_fills e coin side s)) = telegram s"
proof -
  have prev: "p_size (tracked (positions s) coin) = 0"
    using assms(4) by (simp add: tracked_def placeholder_def)
  have eq: "process_aggregated_fills e coin side s =
      discard_batch (coin, side) (at_reconcile e coin s)"
    using process_at_reconcile [OF assms(1-3), of e] prev assms(5) by (simp add: Let_def)
  show "positions (snd (process_aggregated_fills e coin side s)) =
           AList.update coin placeholder (positions s)"
    and "telegram (snd (process_aggregated_fills e coin side s)) = telegram s"
    using assms(4) by (simp_all add: eq discard_batch_fields at_reconcile_fields table_with_def)
qed

text \<open>
  C6 at a failing input. A batch of one fill for ETH is evaluated when ETH is neither in
  the table nor on the exchange: the evaluation leaves an entry of size 0 for ETH in the
  table, and the next sweep sends a CLOSE alert of value 0 for it.
\<close>

theorem batch_leaves_zero_size_entry:
  "positions (queue_fill_for_aggregation small_fill init) = [] \<and>
   \<not> seen_at eth_gone ''ETH'' 1 \<and>
   positions (snd (process_aggregated_fills eth_gone ''ETH'' ''B''
      (queue_fill_for_aggregation small_fill init))) = [(''ETH'', placeholder)] \<and>
   p_size placeholder = 0 \<and>
   map kind (telegram (snd (verify_all_positions eth_gone
      (snd (process_aggregated_fills eth_gone ''ETH'' ''B''
        (queue_fill_for_aggregation small_fill init)))))) = [CLOSE] \<and>
   map shown_value (telegram (snd (verify_all_positions eth_gone
      (snd (process_aggregated_fills eth_gone ''ETH'' ''B''
        (queue_fill_for_aggregation small_fill init)))))) = [0]"
proof -
  let ?s = "queue_fill_for_aggregation small_fill init"
  let ?s' = "snd (process_aggregated_fills eth_gone ''ETH'' ''B'' ?s)"
  note q = queue_on_init [OF small_fill_facts(1-3)]
  have unseen: "\<not> seen_at eth_gone ''ETH'' (Suc (requests ?s))"
    by (simp add: seen_at_def eth_gone_snapshot)
  have absent: "map_of (positions ?s) ''ETH'' = None"
    by (simp add: q)
  note left = process_leaves_placeholder [OF q(1) _ small_fill_facts(4) absent unseen]
  have pos: "positions ?s' = [(''ETH'', placeholder)]" and tel: "telegram ?s' = []"
    using left by (simp_all add: q)
  have sweep: "map kind (telegram (snd (verify_all_positions eth_gone ?s'))) = [CLOSE] \<and>
     map shown_value (telegram (snd (verify_all_positions eth_gone ?s'))) = [0]"
    by (simp add: verify_all_positions_def get_whale_positions_def eth_gone_snapshot
      close_if_verified_def verify_eth_gone get_btc_price_def get_asset_price_def
      send_close_alert_def send_telegram_message_def save_positions_def split_beta Let_def
      pos tel placeholder_def eth_gone_quotes)
  show ?thesis
    using pos sweep unseen by (simp add: q placeholder_def)
qed


section \<open>A verification whose fetches all fail\<close>

text \<open>
  C2 at a failing input. The table holds 100 ETH worth 210000 and every request to the
  exchange fails. The verification makes its three fetches and returns "closed"; the
  evaluation of a batch of one sale of 5 ETH, whose own fetch fails as well, then sends a
  CLOSE alert for the whole position and removes the entry from the table.
\<close>

theorem verify_position_closed_all_failed:
  "(\<forall>n. clearinghouseState net_down n = Request_failed) \<and>
   fst (verify_position_closed net_down ''ETH'' (init\<lparr>positions := [(''ETH'', eth_tracked)]\<rparr>))
     = True \<and>
   requests (snd (verify_position_closed net_down ''ETH''
     (init\<lparr>positions := [(''ETH'', eth_tracked)]\<rparr>))) = 3 \<and>
   map kind (telegram (snd (process_aggregated_fills net_down ''ETH'' ''A''
      (queue_fill_for_aggregation trim_fill (init\<lparr>positions := [(''ETH'', eth_tracked)]\<rparr>)))))
     = [CLOSE] \<and>
   map shown_value (telegram (snd (process_aggregated_fills net_down ''ETH'' ''A''
      (queue_fill_for_aggregation trim_fill (init\<lparr>positions := [(''ETH'', eth_tracked)]\<rparr>)))))
     = [210000] \<and>
   positions (snd (process_aggregated_fills net_down ''ETH'' ''A''
      (queue_fill_for_aggregation trim_fill (init\<lparr>positions := [(''ETH'', eth_tracked)]\<rparr>))))
     = []"
proof -
  let ?start = "init\<lparr>positions := [(''ETH'', eth_tracked)]\<rparr>"
  let ?s = "queue_fill_for_aggregation trim_fill ?start"
  let ?s4 = "at_reconcile net_down ''ETH'' ?s"
  have failed: "clearinghouseState net_down n = Request_failed" for n
    by (simp add: net_down_def)
  have closed: "fst (verify_position_closed net_down ''ETH'' s') = True" for s'
    by (rule failed_fetches_closed) (simp add: failed)
  have count: "requests (snd (verify_position_closed net_down ''ETH'' ?start)) = 3"
    by (simp add: verify_position_closed_def POSITION_CLOSE_VERIFY_ATTEMPTS_def upt_rec
        get_whale_positions_def parse_positions_def net_down_def init_def sleep_def)
  have trim: "t_coin trim_fill = ''ETH''" "t_side trim_fill = ''A''"
    "sz trim_fill * px trim_fill \<ge> 10000"
    by (simp_all add: trim_fill_def)
  have pend: "pending_fills ?s (''ETH'', ''A'') = Some [trim_fill]"
    using queue_fill_pending [OF trim, of ?start] by (simp add: init_def)
  have tot: "total_size [trim_fill] \<noteq> 0"
    by (simp add: total_size_def trim_fill_def)
  have pos: "positions ?s = [(''ETH'', eth_tracked)]" and tel: "telegram ?s = []"
    and minv: "MIN_POSITION_VALUE ?s = 100000"
    by (simp_all add: queue_fill_unchanged init_def)
  have prev: "tracked (positions ?s) ''ETH'' = eth_tracked"
    by (simp add: pos tracked_def)
  have psz: "p_size eth_tracked > 0" and pval: "p_value eth_tracked = 210000"
    by (simp_all add: eth_tracked_def)
  have unseen: "\<not> seen_at net_down ''ETH'' (Suc (requests ?s))"
    by (rule failed_not_seen) (rule failed)
  have eq: "process_aggregated_fills net_down ''ETH'' ''A'' ?s =
      close_branch net_down ''ETH'' (''ETH'', ''A'') (avg_price [trim_fill]) eth_tracked ?s4"
    using process_at_reconcile [OF pend _ tot, of net_down] unseen psz
    by (simp add: Let_def prev)
  have v: "fst (verify_position_closed net_down ''ETH'' ?s4)"
    using closed [of ?s4] by simp
  have high: "p_value eth_tracked \<ge> real_of_int (MIN_POSITION_VALUE ?s4)"
    by (simp add: pval at_reconcile_fields minv)
  have entry: "map_of (positions ?s4) ''ETH'' \<noteq> None"
    by (simp add: at_reconcile_fields map_of_table_with)
  note cl = close_branch_closes [OF v high entry, of "(''ETH'', ''A'')" "avg_price [trim_fill]"]
  have "map kind (telegram (snd (process_aggregated_fills net_down ''ETH'' ''A'' ?s))) = [CLOSE]"
    by (simp add: eq cl(1) at_reconcile_fields tel)
  moreover have
    "map shown_value (telegram (snd (process_aggregated_fills net_down ''ETH'' ''A'' ?s))) =
       [210000]"
    by (simp add: eq cl(1) at_reconcile_fields tel pval)
  moreover have "positions (snd (process_aggregated_fills net_down ''ETH'' ''A'' ?s)) = []"
    by (simp add: eq cl(2) at_reconcile_fields pos table_with_def)
  ultimately show ?thesis
    using failed closed [of ?start] count by simp
qed
section \<open>The transient tables after a batch evaluation\<close>

lemma finish_batch_tables:
  assumes "pending_fills s key \<noteq> None"
  shows "pending_fills (snd (finish_batch key s)) = (pending_fills s)(key := None)"
    and "fill_timers (snd (finish_batch key s)) = (fill_timers s)(key := None)"
  using assms by (simp_all add: finish_batch_eq)

lemma discard_batch_tables:
  assumes "pending_fills s key \<noteq> None"
  shows "pending_fills (snd (discard_batch key s)) = (pending_fills s)(key := None)"
    and "fill_timers (snd (discard_batch key s)) = (fill_timers s)(key := None)"
proof -
  show "pending_fills (snd (discard_batch key s)) = (pending_fills s)(key := None)"
    using assms by (auto simp add: discard_batch_def Let_def)
  show "fill_timers (snd (discard_batch key s)) = (fill_timers s)(key := None)"
  proof (cases "fill_timers s key")
    case None
    then have "(fill_timers s)(key := None) = fill_timers s" by (simp add: fun_upd_idem)
    with None assms show ?thesis by (auto simp add: discard_batch_def Let_def)
  next
    case (Some a)
    with assms show ?thesis by (auto simp add: discard_batch_def Let_def)
  qed
qed

lemma discard_batch_result:
  assumes "pending_fills s key \<noteq> None"
  shows "fst (discard_batch key s) = (if fill_timers s key = None then Some KeyError else None)"
  using assms by (auto simp add: discard_batch_def Let_def)

lemma finish_batch_result:
  assumes "pending_fills s key \<noteq> None"
  shows "fst (finish_batch key s) = None"
  using assms by (simp add: finish_batch_eq)

lemma same_transient_refl: "same_transient s s"
  by (simp add: same_transient_def)

lemma same_transient_trans:
  "same_transient s s' \<Longrightarrow> same_transient s' s'' \<Longrightarrow> same_transient s s''"
  by (simp add: same_transient_def)

lemma time_passed_same_transient: "time_passed s s' \<Longrightarrow> same_transient s s'"
  by (simp add: time_passed_def same_transient_def)

lemma same_transient_batch_only: "same_transient s s' \<Longrightarrow> batch_only key s s'"
  by (simp add: same_transient_def batch_only_def)

lemma same_then_batch_only:
  "same_transient s s' \<Longrightarrow> batch_only key s' s'' \<Longrightarrow> batch_only key s s''"
  by (simp add: same_transient_def batch_only_def)

lemma finish_batch_batch_only: "batch_only key s (snd (finish_batch key s))"
  by (cases "fill_timers s key") (auto simp add: batch_only_def finish_batch_def Let_def)

lemma discard_batch_batch_only: "batch_only key s (snd (discard_batch key s))"
  by (cases "fill_timers s key") (auto simp add: batch_only_def discard_batch_def Let_def)

lemma at_reconcile_same_transient: "same_transient s (at_reconcile e coin s)"
  by (simp add: same_transient_def at_reconcile_fields)

lemma open_branch_batch_only:
  "batch_only key s4 (snd (open_branch coin key avg pv actual s4))"
proof (cases "pv \<ge> real_of_int (MIN_POSITION_VALUE s4)")
  case True
  let ?s6 = "save_positions (send_open_alert coin (p_side actual) (p_value actual) avg
    (s4\<lparr>positions := AList.update coin (opened actual) (positions s4)\<rparr>))"
  have "same_transient s4 ?s6"
    by (simp add: same_transient_def save_positions_fields send_open_alert_fields)
  from same_then_batch_only [OF this finish_batch_batch_only] True show ?thesis
    by (simp add: open_branch_def Let_def)
next
  case False
  then show ?thesis by (simp add: open_branch_def discard_batch_batch_only)
qed

lemma close_branch_end_batch_only:
  "batch_only key s5 (snd (close_branch_end coin key avg prev is_closed s5))"
proof (cases "is_closed \<and> p_value prev \<ge> real_of_int (MIN_POSITION_VALUE s5)")
  case False
  from close_branch_end_keeps [OF False] show ?thesis
    by (simp add: discard_batch_batch_only)
next
  case True
  show ?thesis
  proof (cases "map_of (positions s5) coin = None")
    case absent: True
    with \<open>is_closed \<and> p_value prev \<ge> real_of_int (MIN_POSITION_VALUE s5)\<close>
    have "close_branch_end coin key avg prev is_closed s5 = (Some KeyError, s5)"
      by (simp add: close_branch_end_key_error)
    then show ?thesis by (simp add: batch_only_def)
  next
    case False
    let ?s7 = "save_positions (send_close_alert coin (p_side prev) (p_value prev) avg None
       (s5\<lparr>positions := AList.delete coin (positions s5)\<rparr>))"
    have "same_transient s5 ?s7"
      by (simp add: same_transient_def save_positions_fields send_close_alert_fields)
    from same_then_batch_only [OF this finish_batch_batch_only]
      close_branch_end_closes [where is_closed = is_closed and prev = prev and ?s5.0 = s5
        and coin = coin and key = key and avg = avg] True False
    show ?thesis by simp
  qed
qed

lemma change_branch_batch_only:
  "batch_only key s4 (snd (change_branch coin key avg prev actual s4))"
proof -
  let ?up = "prev\<lparr>p_size := p_size actual, p_value := p_value actual,
              p_avg_price := p_avg_price actual, p_current_price := p_current_price actual,
              p_max_value := max (p_value actual) (p_max_value prev)\<rparr>"
  let ?down = "prev\<lparr>p_size := p_size actual, p_value := p_value actual,
              p_current_price := p_current_price actual\<rparr>"
  let ?quiet = "prev\<lparr>p_size := p_size actual, p_value := p_value actual,
              p_avg_price := p_avg_price actual, p_current_price := p_current_price actual\<rparr>"
  have up: "map_of (positions (s4\<lparr>positions := AList.update coin ?up (positions s4)\<rparr>)) coin
      = Some ?up"
    by (simp add: update_conv')
  have down: "map_of (positions (s4\<lparr>positions := AList.update coin ?down (positions s4)\<rparr>)) coin
      = Some ?down"
    by (simp add: update_conv')
  note alerts = telegram_send_partial_increase_alert [OF up]
    telegram_send_partial_close_alert [OF down]
  have f: "batch_only key s4 (snd (finish_batch key (save_positions s')))"
    if "same_transient s4 s'" for s'
  proof -
    from that have "same_transient s4 (save_positions s')"
      by (simp add: same_transient_def save_positions_fields)
    from same_then_batch_only [OF this finish_batch_batch_only] show ?thesis .
  qed
  have d: "batch_only key s4 (snd (discard_batch key s'))" if "same_transient s4 s'" for s'
    using same_then_batch_only [OF that discard_batch_batch_only] .
  have st: "same_transient s4 (s4\<lparr>positions := ps\<rparr>)"
    "same_transient s4 (s4\<lparr>positions := ps, telegram := ms\<rparr>)" for ps ms
    by (simp_all add: same_transient_def)
  show ?thesis
    by (simp add: change_branch_def Let_def alerts f d st)
qed

section \<open>The transient tables after a step of a batch evaluation\<close>

lemma verify_steps_time_passed:
  "time_passed s (snd (verify_steps e coin slept attempts s))"
proof (induction attempts arbitrary: s slept)
  case Nil
  show ?case by (simp add: time_passed_refl)
next
  case (Cons attempt rest)
  let ?s2 = "snd (get_whale_positions e s)"
  have first: "time_passed s ?s2"
    by (simp add: get_whale_positions_def time_passed_def)
  have "time_passed s (snd (verify_steps e coin False rest ?s2))"
    using time_passed_trans [OF first Cons.IH] .
  with first show ?case
    by (simp add: split_beta Let_def time_passed_refl)
qed

lemma closing_steps_batch_only:
  "batch_only key s (snd (closing_steps e coin key avg prev slept attempts s))"
proof -
  obtain r s5 where v: "verify_steps e coin slept attempts s = (r, s5)"
    by (cases "verify_steps e coin slept attempts s")
  have "time_passed s s5"
    using verify_steps_time_passed [of s e coin slept attempts] v by simp
  then have same: "same_transient s s5" by (rule time_passed_same_transient)
  show ?thesis
  proof (cases r)
    case (Inl is_closed)
    with v same_then_batch_only [OF same close_branch_end_batch_only] show ?thesis
      by (simp add: closing_steps_def ended_def)
  next
    case (Inr rest)
    with v same_transient_batch_only [OF same] show ?thesis
      by (simp add: closing_steps_def)
  qed
qed

lemma closing_steps_sleeping:
  assumes "fst (closing_steps e coin key avg prev slept attempts s) = Sleeping c"
  shows "time_passed s (snd (closing_steps e coin key avg prev slept attempts s))"
proof -
  obtain r s5 where v: "verify_steps e coin slept attempts s = (r, s5)"
    by (cases "verify_steps e coin slept attempts s")
  have tp: "time_passed s s5"
    using verify_steps_time_passed [of s e coin slept attempts] v by simp
  show ?thesis
  proof (cases r)
    case (Inl is_closed)
    with v assms show ?thesis by (simp add: closing_steps_def ended_def)
  next
    case (Inr rest)
    with v tp show ?thesis by (simp add: closing_steps_def)
  qed
qed

lemma start_at_reconcile:
  assumes "pending_fills s (coin, side) = Some fills" "fills \<noteq> []" "total_size fills \<noteq> 0"
  shows "start_evaluation e coin side s =
     (let s4 = at_reconcile e coin s;
          prev = tracked (positions s) coin;
          current_positions = parse_positions (clearinghouseState e (Suc (requests s)))
      in
      if p_size prev = 0 \<and> seen_at e coin (Suc (requests s)) then
        (case map_of current_positions coin of
           None \<Rightarrow> (Ended (Some KeyError), s4)
         | Some actual_position \<Rightarrow>
             ended (open_branch coin (coin, side) (avg_price fills)
               (avg_price fills * total_size fills) actual_position s4))
      else if p_size prev > 0 \<and> \<not> seen_at e coin (Suc (requests s)) then
        closing_steps e coin (coin, side) (avg_price fills) prev False
          [0..<POSITION_CLOSE_VERIFY_ATTEMPTS] s4
      else if p_size prev > 0 \<and> seen_at e coin (Suc (requests s)) then
        (case map_of current_positions coin of
           None \<Rightarrow> (Ended (Some KeyError), s4)
         | Some actual_position \<Rightarrow>
             ended (change_branch coin (coin, side) (avg_price fills) prev actual_position s4))
      else ended (discard_batch (coin, side) s4))"
proof -
  let ?s2 = "(snd (get_btc_price e s))\<lparr>btc_price := fst (get_btc_price e s)\<rparr>"
  have s3: "snd (get_whale_positions e ?s2) = after_fetches e s"
    by (simp add: get_whale_positions_def get_btc_price_def after_fetches_def Let_def
        split: option.splits)
  have cur: "fst (get_whale_positions e ?s2) =
      parse_positions (clearinghouseState e (Suc (requests s)))"
    by (simp add: get_whale_positions_def get_btc_price_def Let_def split: option.splits)
  have pos: "positions (after_fetches e s) = positions s"
    by (simp add: after_fetches_def)
  have s4: "(if map_of (positions (after_fetches e s)) coin = None
             then (after_fetches e s)\<lparr>positions :=
                    AList.update coin placeholder (positions (after_fetches e s))\<rparr>
             else after_fetches e s) = at_reconcile e coin s"
    by (simp add: at_reconcile_def table_with_def pos)
  have prev: "(case map_of (positions (at_reconcile e coin s)) coin of
                 Some p \<Rightarrow> p | None \<Rightarrow> placeholder) = tracked (positions s) coin"
    by (simp add: at_reconcile_def map_of_table_with)
  show ?thesis
    unfolding start_evaluation_def
    using assms
    by (simp add: Let_def split_beta s3 cur s4 prev seen_at_def
          split del: if_split cong: if_cong option.case_cong)
qed

lemma start_evaluation_batch_only:
  "batch_only (coin, side) s (snd (start_evaluation e coin side s))"
proof (cases "pending_fills s (coin, side)")
  case None
  then show ?thesis by (simp add: start_evaluation_def batch_only_def)
next
  case (Some fills)
  show ?thesis
  proof (cases "fills = [] \<or> total_size fills = 0")
    case True
    with Some have "snd (start_evaluation e coin side s) = s"
      by (cases "fills = []") (simp_all add: start_evaluation_def)
    then show ?thesis by (simp add: batch_only_def)
  next
    case False
    then have nonempty: "fills \<noteq> []" and total: "total_size fills \<noteq> 0" by simp_all
    note same = at_reconcile_same_transient [of s e coin]
    note b = same_then_batch_only [OF same open_branch_batch_only]
      same_then_batch_only [OF same closing_steps_batch_only]
      same_then_batch_only [OF same change_branch_batch_only]
      same_then_batch_only [OF same discard_batch_batch_only]
      same_transient_batch_only [OF same]
    show ?thesis
      by (simp add: start_at_reconcile [OF Some nonempty total] Let_def ended_def b
          split: option.splits)
  qed
qed

lemma resume_evaluation_batch_only:
  "batch_only (coin, side) s (snd (resume_evaluation e coin side c s))"
  by (simp add: resume_evaluation_def closing_steps_batch_only)

lemma start_evaluation_sleeping:
  assumes "fst (start_evaluation e coin side s) = Sleeping c"
  shows "same_transient s (snd (start_evaluation e coin side s))"
proof (cases "pending_fills s (coin, side)")
  case None
  with assms show ?thesis by (simp add: start_evaluation_def)
next
  case (Some fills)
  show ?thesis
  proof (cases "fills = [] \<or> total_size fills = 0")
    case True
    with Some have "fst (start_evaluation e coin side s) = Ended None \<or>
        fst (start_evaluation e coin side s) = Ended (Some ZeroDivisionError)"
      by (cases "fills = []") (simp_all add: start_evaluation_def)
    with assms show ?thesis by auto
  next
    case False
    then have nonempty: "fills \<noteq> []" and total: "total_size fills \<noteq> 0" by simp_all
    let ?s4 = "at_reconcile e coin s"
    let ?prev = "tracked (positions s) coin"
    let ?steps = "closing_steps e coin (coin, side) (avg_price fills) ?prev False
          [0..<POSITION_CLOSE_VERIFY_ATTEMPTS] ?s4"
    note eq = start_at_reconcile [OF Some nonempty total, of e]
    from assms have branch: "start_evaluation e coin side s = ?steps"
      by (auto simp add: eq Let_def ended_def split: if_splits option.splits)
    with assms have "fst ?steps = Sleeping c" by simp
    from closing_steps_sleeping [OF this] have "same_transient ?s4 (snd ?steps)"
      by (rule time_passed_same_transient)
    from same_transient_trans [OF at_reconcile_same_transient this] show ?thesis
      by (simp add: branch)
  qed
qed

lemma resume_evaluation_sleeping:
  assumes "fst (resume_evaluation e coin side c s) = Sleeping c'"
  shows "same_transient s (snd (resume_evaluation e coin side c s))"
  using closing_steps_sleeping [of e coin "(coin, side)" "c_avg c" "c_prev c" True
      "c_attempts c" s c'] assms
  by (simp add: resume_evaluation_def time_passed_same_transient)

section \<open>The batch evaluation in one piece\<close>

lemma process_nothing_to_do:
  assumes "pending_fills s (coin, side) = None \<or> pending_fills s (coin, side) = Some []"
  shows "process_aggregated_fills e coin side s = (None, s)"
  using assms by (auto simp add: process_aggregated_fills_def)

lemma process_division_by_zero:
  assumes "pending_fills s (coin, side) = Some fills" and "fills \<noteq> []"
    and "total_size fills = 0"
  shows "process_aggregated_fills e coin side s = (Some ZeroDivisionError, s)"
  using assms by (simp add: process_aggregated_fills_def)
section \<open>The sweep and the startup sync leave the transient tables alone\<close>

lemma close_if_verified_same_transient:
  "same_transient s (snd (close_if_verified e coin k s))"
proof -
  obtain b s1 where v: "verify_position_closed e coin s = (b, s1)"
    by (cases "verify_position_closed e coin s")
  have "time_passed s s1"
    using verify_position_closed_time_passed [of s e coin] v by simp
  then have "same_transient s s1" by (rule time_passed_same_transient)
  then show ?thesis
    by (simp add: close_if_verified_def v same_transient_def get_btc_price_def
        get_asset_price_def send_close_alert_fields split_beta Let_def
        split: option.splits)
qed

lemma verify_close_loop_same_transient:
  "same_transient s (snd (verify_close_loop e coins k s))"
proof (induction coins arbitrary: k s)
  case Nil
  show ?case by (simp add: same_transient_refl)
next
  case (Cons coin rest)
  obtain r s1 where c: "close_if_verified e coin k s = (r, s1)"
    by (cases "close_if_verified e coin k s")
  have first: "same_transient s s1"
    using close_if_verified_same_transient [of s e coin k] c by simp
  show ?case
  proof (cases r)
    case (Inl err)
    with c first show ?thesis by simp
  next
    case (Inr k1)
    with c same_transient_trans [OF first Cons.IH [of s1 k1]] show ?thesis by simp
  qed
qed

lemma verify_all_positions_same_transient:
  "same_transient s (snd (verify_all_positions e s))"
proof -
  let ?s1 = "snd (get_whale_positions e s)"
  let ?cur = "fst (get_whale_positions e s)"
  let ?coins = "filter (\<lambda>coin. map_of ?cur coin = None) (map fst (positions ?s1))"
  have fetch: "same_transient s ?s1"
    by (simp add: get_whale_positions_def same_transient_def)
  obtain r s2 where l: "verify_close_loop e ?coins 0 ?s1 = (r, s2)"
    by (cases "verify_close_loop e ?coins 0 ?s1")
  have "same_transient ?s1 s2"
    using verify_close_loop_same_transient [of ?s1 e ?coins 0] l by simp
  with fetch have loop: "same_transient s s2" by (rule same_transient_trans)
  then have saved: "same_transient s (save_positions s2)"
    by (simp add: same_transient_def save_positions_def)
  show ?thesis
    using fetch loop saved
    by (cases r) (simp_all add: verify_all_positions_def split_beta Let_def l same_transient_refl)
qed

lemma sync_loop_same_transient:
  "same_transient s (snd (sync_loop snapshot k s))"
proof (induction snapshot arbitrary: k s)
  case Nil
  show ?case by (simp add: same_transient_refl)
next
  case (Cons entry rest)
  obtain coin position_data where entry: "entry = (coin, position_data)"
    by (cases entry)
  let ?s1 = "s\<lparr>positions := AList.update coin (opened position_data) (positions s)\<rparr>"
  have "same_transient s ?s1" by (simp add: same_transient_def)
  from same_transient_trans [OF this Cons.IH [of ?s1 "k + 1"]] Cons.IH [of s k]
  show ?case by (simp add: entry)
qed

lemma sync_positions_on_startup_same_transient:
  "same_transient s (sync_positions_on_startup e s)"
proof -
  let ?s1 = "snd (get_whale_positions e s)"
  let ?cur = "fst (get_whale_positions e s)"
  have fetch: "same_transient s ?s1"
    by (simp add: get_whale_positions_def same_transient_def)
  have loop: "same_transient s (snd (sync_loop ?cur 0 ?s1))"
    using same_transient_trans [OF fetch sync_loop_same_transient] .
  then have saved: "same_transient s (save_positions (snd (sync_loop ?cur 0 ?s1)))"
    by (simp add: same_transient_def save_positions_def)
  show ?thesis
    using fetch loop saved
    by (simp add: sync_positions_on_startup_def split_beta Let_def)
qed

section \<open>Invariants of the reachable trackers\<close>

lemma same_transient_invariants:
  assumes "same_transient s s'"
  shows "batches_ok s \<Longrightarrow> batches_ok s'" and "timers_ok s \<Longrightarrow> timers_ok s'"
  using assms by (simp_all add: same_transient_def batches_ok_def timers_ok_def)

lemma queue_pending_eq:
  assumes "\<not> sz trade * px trade < 10000"
  shows "pending_fills (queue_fill_for_aggregation trade s) =
      (pending_fills s)((t_coin trade, t_side trade) \<mapsto>
         (case pending_fills s (t_coin trade, t_side trade) of None \<Rightarrow> [] | Some fs \<Rightarrow> fs) @ [trade])"
proof -
  have c: "pending_fills (cancel task s') = pending_fills s'" for task s'
    by (simp add: cancel_def)
  have ct: "pending_fills (snd (create_task key s')) = pending_fills s'" for key s'
    by (simp add: create_task_def)
  show ?thesis
    using assms
    apply (simp add: queue_fill_for_aggregation_def Let_def split_beta ct)
    apply (cases "fill_timers s (t_coin trade, t_side trade)")
     apply (simp_all add: c)
    done
qed

lemma queue_batches_ok:
  assumes "batches_ok s"
  shows "batches_ok (queue_fill_for_aggregation trade s)"
proof (cases "sz trade * px trade < 10000")
  case True
  with assms show ?thesis by (simp add: queue_fill_for_aggregation_def)
next
  case False
  note admitted = False
  define key0 where "key0 = (t_coin trade, t_side trade)"
  define old where "old = (case pending_fills s key0 of None \<Rightarrow> [] | Some fs \<Rightarrow> fs)"
  have pend: "pending_fills (queue_fill_for_aggregation trade s) =
      (pending_fills s)(key0 \<mapsto> old @ [trade])"
    unfolding old_def key0_def by (rule queue_pending_eq [OF admitted])
  have old: "\<forall>f \<in> set old. sz f * px f \<ge> 10000 \<and> (t_coin f, t_side f) = key0"
  proof (cases "pending_fills s key0")
    case None
    then show ?thesis by (simp add: old_def)
  next
    case (Some fs)
    from assms have "pending_fills s key0 = Some fs \<longrightarrow>
        fs \<noteq> [] \<and> (\<forall>f \<in> set fs. sz f * px f \<ge> 10000 \<and> (t_coin f, t_side f) = key0)"
      unfolding batches_ok_def by blast
    with Some show ?thesis by (simp add: old_def)
  qed
  have new: "sz trade * px trade \<ge> 10000 \<and> (t_coin trade, t_side trade) = key0"
    using admitted by (simp add: key0_def)
  show ?thesis
    unfolding batches_ok_def
  proof (intro allI impI)
    fix key fs
    assume "pending_fills (queue_fill_for_aggregation trade s) key = Some fs"
    then have h: "((pending_fills s)(key0 \<mapsto> old @ [trade])) key = Some fs"
      by (simp only: pend)
    show "fs \<noteq> [] \<and> (\<forall>f \<in> set fs. sz f * px f \<ge> 10000 \<and> (t_coin f, t_side f) = key)"
    proof (cases "key = key0")
      case True
      with h have fs: "fs = old @ [trade]" by simp
      have "fs \<noteq> []" by (simp add: fs)
      moreover have "\<forall>f \<in> set fs. sz f * px f \<ge> 10000 \<and> (t_coin f, t_side f) = key"
      proof (rule ballI)
        fix f assume "f \<in> set fs"
        then have "f \<in> set old \<or> f = trade" unfolding fs by auto
        with old new show "sz f * px f \<ge> 10000 \<and> (t_coin f, t_side f) = key"
          unfolding True by blast
      qed
      ultimately show ?thesis by blast
    next
      case False
      with h have "pending_fills s key = Some fs" by (simp add: fun_upd_def)
      with assms show ?thesis unfolding batches_ok_def by blast
    qed
  qed
qed

lemma queue_timers_ok:
  assumes "timers_ok s"
  shows "timers_ok (queue_fill_for_aggregation trade s)"
proof (cases "sz trade * px trade < 10000")
  case True
  with assms show ?thesis by (simp add: queue_fill_for_aggregation_def)
next
  case False
  let ?key = "(t_coin trade, t_side trade)"
  let ?old = "case pending_fills s ?key of None \<Rightarrow> [] | Some fs \<Rightarrow> fs"
  let ?s' = "queue_fill_for_aggregation trade s"
  have pend: "pending_fills ?s' = (pending_fills s)(?key \<mapsto> ?old @ [trade])"
    by (rule queue_pending_eq [OF False])
  have tim: "fill_timers ?s' = (fill_timers s)(?key \<mapsto> next_task s)"
    using False
    by (simp add: queue_fill_for_aggregation_def create_task_def cancel_def Let_def
        split: option.splits)
  have tasks: "set (tasks ?s') \<subseteq>
      {task \<in> set (tasks s). fill_timers s ?key \<noteq> Some (fst task)} \<union>
      {(next_task s, ?key, clock s + fill_aggregation_window s)}"
    using False
    by (auto simp add: queue_fill_for_aggregation_def create_task_def cancel_def Let_def
        split: option.splits)
  show ?thesis
    unfolding timers_ok_def
  proof
    fix task
    assume "task \<in> set (tasks ?s')"
    with tasks consider
      (old) "task \<in> set (tasks s)" "fill_timers s ?key \<noteq> Some (fst task)"
      | (new) "task = (next_task s, ?key, clock s + fill_aggregation_window s)"
      by auto
    then show "fill_timers ?s' (fst (snd task)) = Some (fst task) \<and>
               pending_fills ?s' (fst (snd task)) \<noteq> None"
    proof cases
      case old
      from assms old(1) have t: "fill_timers s (fst (snd task)) = Some (fst task)"
        and p: "pending_fills s (fst (snd task)) \<noteq> None"
        by (auto simp add: timers_ok_def)
      from t old(2) have "fst (snd task) \<noteq> ?key" by auto
      with t p show ?thesis by (simp add: pend tim)
    next
      case new
      then show ?thesis by (simp add: pend tim)
    qed
  qed
qed

lemma run_task_invariants:
  assumes "batches_ok s" and "timers_ok s" and "task \<in> set (tasks s)"
  shows "batches_ok (snd (run_task e task s)) \<and> timers_ok (snd (run_task e task s))"
proof -
  obtain t coin side w where task: "task = (t, (coin, side), w)"
    by (cases task) auto
  let ?s0 = "s\<lparr>clock := max (clock s) w\<rparr>"
  let ?r = "case verifying ?s0 t of
              None \<Rightarrow> start_evaluation e coin side ?s0
            | Some c \<Rightarrow> resume_evaluation e coin side c ?s0"
  obtain reached s1 where r: "?r = (reached, s1)" by (cases ?r)
  from assms(2,3) task have tim: "fill_timers s (coin, side) = Some t"
    by (auto simp add: timers_ok_def)
  have same0: "same_transient s ?s0" by (simp add: same_transient_def)
  have "batch_only (coin, side) ?s0 (snd ?r)"
    by (cases "verifying ?s0 t")
       (simp_all add: start_evaluation_batch_only resume_evaluation_batch_only)
  from same_then_batch_only [OF same0 this] r have only: "batch_only (coin, side) s s1"
    by simp
  have sleeping: "same_transient s s1" if "reached = Sleeping c" for c
  proof -
    from that r have "fst ?r = Sleeping c" by simp
    then have "same_transient ?s0 (snd ?r)"
      by (cases "verifying ?s0 t")
         (simp_all add: start_evaluation_sleeping resume_evaluation_sleeping)
    from same_transient_trans [OF same0 this] r show ?thesis by simp
  qed
  have run: "run_task e task s =
      (case reached of
         Ended x \<Rightarrow>
           (reached, s1\<lparr>tasks := filter (\<lambda>(t', k, w'). t' \<noteq> t) (tasks s1),
                        verifying := (verifying s1)(t := None)\<rparr>)
       | Sleeping c \<Rightarrow>
           (reached, s1\<lparr>tasks := map (\<lambda>(t', k, w').
                                if t' = t then (t', k, clock s1 + POSITION_CLOSE_VERIFY_DELAY)
                                else (t', k, w')) (tasks s1),
                        verifying := (verifying s1)(t \<mapsto> c)\<rparr>))"
    using r by (simp add: run_task_def task Let_def)
  show ?thesis
  proof (cases reached)
    case (Sleeping c)
    from sleeping [OF Sleeping] have pend: "pending_fills s1 = pending_fills s"
      and timers: "fill_timers s1 = fill_timers s" and tasks: "tasks s1 = tasks s"
      by (simp_all add: same_transient_def)
    let ?s2 = "snd (run_task e task s)"
    have p2: "pending_fills ?s2 = pending_fills s" and t2: "fill_timers ?s2 = fill_timers s"
      by (simp_all add: run Sleeping pend timers)
    have tasks2: "\<forall>task' \<in> set (tasks ?s2). \<exists>task'' \<in> set (tasks s).
        fst task' = fst task'' \<and> fst (snd task') = fst (snd task'')"
      by (force simp add: run Sleeping tasks split: if_splits)
    have "batches_ok ?s2" using assms(1) by (simp add: batches_ok_def p2)
    moreover have "timers_ok ?s2"
      unfolding timers_ok_def
    proof
      fix task'
      assume "task' \<in> set (tasks ?s2)"
      with tasks2 obtain task'' where mem: "task'' \<in> set (tasks s)"
        and same: "fst task' = fst task''" "fst (snd task') = fst (snd task'')"
        by blast
      from assms(2) mem have "fill_timers s (fst (snd task'')) = Some (fst task'') \<and>
          pending_fills s (fst (snd task'')) \<noteq> None"
        by (simp only: timers_ok_def) blast
      then show "fill_timers ?s2 (fst (snd task')) = Some (fst task') \<and>
          pending_fills ?s2 (fst (snd task')) \<noteq> None"
        by (simp add: p2 t2 same)
    qed
    ultimately show ?thesis by simp
  next
    case (Ended x)
    let ?s2 = "snd (run_task e task s)"
    have p2: "pending_fills ?s2 = pending_fills s1" and t2: "fill_timers ?s2 = fill_timers s1"
      and tasks2: "tasks ?s2 = filter (\<lambda>(t', k, w'). t' \<noteq> t) (tasks s1)"
      by (simp_all add: run Ended)
    from only have tasks1: "tasks s1 = tasks s" by (simp add: batch_only_def)
    from only have pend: "\<And>k. k \<noteq> (coin, side) \<Longrightarrow> pending_fills s1 k = pending_fills s k"
      and sub: "\<And>k fs. pending_fills s1 k = Some fs \<Longrightarrow> pending_fills s k = Some fs"
      and timers: "\<And>k. k \<noteq> (coin, side) \<Longrightarrow> fill_timers s1 k = fill_timers s k"
      by (auto simp add: batch_only_def split: if_splits)
    have "batches_ok ?s2"
      unfolding batches_ok_def
    proof (intro allI impI)
      fix key fs
      assume "pending_fills ?s2 key = Some fs"
      then have "pending_fills s key = Some fs" by (simp add: p2 sub)
      with assms(1) show "fs \<noteq> [] \<and>
          (\<forall>f \<in> set fs. sz f * px f \<ge> 10000 \<and> (t_coin f, t_side f) = key)"
        unfolding batches_ok_def by blast
    qed
    moreover have "timers_ok ?s2"
      unfolding timers_ok_def
    proof
      fix task'
      assume "task' \<in> set (tasks ?s2)"
      then have mem: "task' \<in> set (tasks s)" and diff: "fst task' \<noteq> t"
        by (auto simp add: tasks2 tasks1 case_prod_beta)
      from assms(2) mem have ok: "fill_timers s (fst (snd task')) = Some (fst task') \<and>
          pending_fills s (fst (snd task')) \<noteq> None"
        by (simp only: timers_ok_def) blast
      with tim diff have "fst (snd task') \<noteq> (coin, side)" by auto
      with ok show "fill_timers ?s2 (fst (snd task')) = Some (fst task') \<and>
          pending_fills ?s2 (fst (snd task')) \<noteq> None"
        by (simp add: p2 t2 pend timers)
    qed
    ultimately show ?thesis by simp
  qed
qed

lemma reachable_invariants:
  assumes "reachable e s"
  shows "batches_ok s \<and> timers_ok s"
  using assms
proof (induction rule: reachable.induct)
  case (start s)
  then show ?case by (simp add: batches_ok_def timers_ok_def)
next
  case (queue s trade)
  then show ?case by (simp add: queue_batches_ok queue_timers_ok)
next
  case (task s task)
  then show ?case by (simp add: run_task_invariants)
next
  case (sweep s)
  then show ?case
    using same_transient_invariants [OF verify_all_positions_same_transient [of s e]] by blast
next
  case (sync s)
  then show ?case
    using same_transient_invariants [OF sync_positions_on_startup_same_transient [of s e]]
    by blast
next
  case (other s s')
  then have "same_transient s s'" by (simp add: same_transient_def)
  from same_transient_invariants [OF this] other.IH show ?case by blast
qed
section \<open>Cleanup after a batch evaluation\<close>

lemma finish_batch_cleared:
  assumes "pending_fills s key \<noteq> None"
  shows "returned_cleared key (finish_batch key s)"
  using assms by (simp add: returned_cleared_def finish_batch_eq)

lemma discard_batch_cleared:
  assumes "pending_fills s key \<noteq> None" and "fill_timers s key \<noteq> None"
  shows "returned_cleared key (discard_batch key s)"
  using assms by (simp add: returned_cleared_def discard_batch_eq)

lemma open_branch_cleared:
  assumes "pending_fills s4 key \<noteq> None" and "fill_timers s4 key \<noteq> None"
  shows "returned_cleared key (open_branch coin key avg pv actual s4)"
proof (cases "pv \<ge> real_of_int (MIN_POSITION_VALUE s4)")
  case True
  let ?s6 = "save_positions (send_open_alert coin (p_side actual) (p_value actual) avg
    (s4\<lparr>positions := AList.update coin (opened actual) (positions s4)\<rparr>))"
  have "pending_fills ?s6 key \<noteq> None"
    using assms(1) by (simp add: save_positions_fields send_open_alert_fields)
  from finish_batch_cleared [OF this] True show ?thesis
    by (simp add: open_branch_def Let_def)
next
  case False
  with discard_batch_cleared [OF assms] show ?thesis by (simp add: open_branch_def)
qed

lemma close_branch_end_cleared:
  assumes "pending_fills s5 key \<noteq> None" and "fill_timers s5 key \<noteq> None"
  shows "returned_cleared key (close_branch_end coin key avg prev is_closed s5) \<or>
         (close_branch_end coin key avg prev is_closed s5 = (Some KeyError, s5) \<and>
          is_closed \<and> map_of (positions s5) coin = None)"
proof (cases "is_closed \<and> p_value prev \<ge> real_of_int (MIN_POSITION_VALUE s5)")
  case False
  from close_branch_end_keeps [OF False] discard_batch_cleared [OF assms] show ?thesis
    by simp
next
  case True
  show ?thesis
  proof (cases "map_of (positions s5) coin = None")
    case absent: True
    with True show ?thesis by (simp add: close_branch_end_key_error)
  next
    case False
    let ?s7 = "save_positions (send_close_alert coin (p_side prev) (p_value prev) avg None
       (s5\<lparr>positions := AList.delete coin (positions s5)\<rparr>))"
    have "pending_fills ?s7 key \<noteq> None"
      using assms(1) by (simp add: save_positions_fields send_close_alert_fields)
    from finish_batch_cleared [OF this]
      close_branch_end_closes [where is_closed = is_closed and prev = prev and ?s5.0 = s5
        and coin = coin and key = key and avg = avg] True False
    show ?thesis by simp
  qed
qed

lemma change_branch_cleared:
  assumes "pending_fills s4 key \<noteq> None" and "fill_timers s4 key \<noteq> None"
  shows "returned_cleared key (change_branch coin key avg prev actual s4)"
proof -
  let ?up = "prev\<lparr>p_size := p_size actual, p_value := p_value actual,
              p_avg_price := p_avg_price actual, p_current_price := p_current_price actual,
              p_max_value := max (p_value actual) (p_max_value prev)\<rparr>"
  let ?down = "prev\<lparr>p_size := p_size actual, p_value := p_value actual,
              p_current_price := p_current_price actual\<rparr>"
  have up: "map_of (positions (s4\<lparr>positions := AList.update coin ?up (positions s4)\<rparr>)) coin
      = Some ?up"
    by (simp add: update_conv')
  have down: "map_of (positions (s4\<lparr>positions := AList.update coin ?down (positions s4)\<rparr>)) coin
      = Some ?down"
    by (simp add: update_conv')
  note alerts = telegram_send_partial_increase_alert [OF up]
    telegram_send_partial_close_alert [OF down]
  have f: "returned_cleared key (finish_batch key (save_positions s'))"
    if "pending_fills s' = pending_fills s4" for s'
    by (rule finish_batch_cleared) (simp add: save_positions_fields that assms(1))
  have d: "returned_cleared key (discard_batch key s')"
    if "pending_fills s' = pending_fills s4" and "fill_timers s' = fill_timers s4" for s'
    by (rule discard_batch_cleared) (simp_all add: that assms)
  show ?thesis
    by (simp add: change_branch_def Let_def alerts f d)
qed

lemma verify_steps_start:
  "fst (verify_steps e coin False [0..<POSITION_CLOSE_VERIFY_ATTEMPTS] s) \<noteq> Inl True"
  by (simp add: attempts_list split_beta Let_def)

lemma closing_steps_cases:
  assumes "pending_fills s key \<noteq> None" and "fill_timers s key \<noteq> None"
    and "closing_steps e coin key avg prev slept attempts s = (reached, s1)"
  shows "case reached of
           Sleeping c \<Rightarrow> True
         | Ended None \<Rightarrow> pending_fills s1 key = None \<and> fill_timers s1 key = None
         | Ended (Some err) \<Rightarrow>
             err = KeyError \<and> map_of (positions s) coin = None \<and>
             fst (verify_steps e coin slept attempts s) = Inl True"
proof -
  obtain r s5 where v: "verify_steps e coin slept attempts s = (r, s5)"
    by (cases "verify_steps e coin slept attempts s")
  have "time_passed s s5"
    using verify_steps_time_passed [of s e coin slept attempts] v by simp
  then have f: "pending_fills s5 = pending_fills s" "fill_timers s5 = fill_timers s"
    "positions s5 = positions s"
    by (simp_all add: time_passed_def)
  show ?thesis
  proof (cases r)
    case (Inr rest)
    with v assms(3) show ?thesis by (auto simp add: closing_steps_def)
  next
    case (Inl is_closed)
    have p5: "pending_fills s5 key \<noteq> None" and t5: "fill_timers s5 key \<noteq> None"
      using assms by (simp_all add: f)
    from v Inl assms(3)
    have res: "reached = Ended (fst (close_branch_end coin key avg prev is_closed s5))"
      "s1 = snd (close_branch_end coin key avg prev is_closed s5)"
      by (simp_all add: closing_steps_def ended_def)
    from close_branch_end_cleared [OF p5 t5, of coin avg prev is_closed]
    show ?thesis
    proof
      assume "returned_cleared key (close_branch_end coin key avg prev is_closed s5)"
      then show ?thesis
        by (simp add: res returned_cleared_def)
    next
      assume a: "close_branch_end coin key avg prev is_closed s5 = (Some KeyError, s5) \<and>
          is_closed \<and> map_of (positions s5) coin = None"
      from a have k0: "close_branch_end coin key avg prev is_closed s5 = (Some KeyError, s5)"
        by (rule conjunct1)
      have k: "fst (close_branch_end coin key avg prev is_closed s5) = Some KeyError"
        by (simp only: k0 fst_conv)
      from a have c: "is_closed" by blast
      from a have "map_of (positions s5) coin = None" by blast
      then have m: "map_of (positions s) coin = None" by (simp only: f)
      from v Inl c have "fst (verify_steps e coin slept attempts s) = Inl True" by simp
      with k m show ?thesis by (simp add: res(1))
    qed
  qed
qed

lemma start_evaluation_cases:
  assumes "pending_fills s (coin, side) = Some fills" and "fills \<noteq> []"
    and "fill_timers s (coin, side) \<noteq> None"
    and "start_evaluation e coin side s = (reached, s1)"
  shows "case reached of
           Sleeping c \<Rightarrow> True
         | Ended None \<Rightarrow>
             pending_fills s1 (coin, side) = None \<and> fill_timers s1 (coin, side) = None
         | Ended (Some err) \<Rightarrow> err = ZeroDivisionError \<and> total_size fills = 0"
proof (cases "total_size fills = 0")
  case True
  with assms show ?thesis by (auto simp add: start_evaluation_def)
next
  case False
  let ?s4 = "at_reconcile e coin s"
  let ?prev = "tracked (positions s) coin"
  have p4: "pending_fills ?s4 (coin, side) \<noteq> None"
    using assms(1) by (simp add: at_reconcile_fields)
  have t4: "fill_timers ?s4 (coin, side) \<noteq> None"
    using assms(3) by (simp add: at_reconcile_fields)
  have cleared: ?thesis if "returned_cleared (coin, side) r" and "ended r = (reached, s1)" for r
    using that by (auto simp add: ended_def returned_cleared_def)
  note eq = start_at_reconcile [OF assms(1,2) False, of e]
  consider
    (opened) actual where "(reached, s1) = ended (open_branch coin (coin, side) (avg_price fills)
        (avg_price fills * total_size fills) actual ?s4)"
    | (closing) "(reached, s1) = closing_steps e coin (coin, side) (avg_price fills) ?prev False
        [0..<POSITION_CLOSE_VERIFY_ATTEMPTS] ?s4"
    | (changed) actual where "(reached, s1) =
        ended (change_branch coin (coin, side) (avg_price fills) ?prev actual ?s4)"
    | (ignored) "(reached, s1) = ended (discard_batch (coin, side) ?s4)"
    using assms(4) [symmetric]
    by (auto simp add: eq Let_def seen_at_def split: if_splits option.splits)
  then show ?thesis
  proof cases
    case opened
    from cleared [OF open_branch_cleared [OF p4 t4] opened [symmetric]] show ?thesis .
  next
    case closing
    from closing_steps_cases [OF p4 t4 closing [symmetric]] verify_steps_start [of e coin ?s4]
    show ?thesis by (auto split: stage.splits option.splits)
  next
    case changed
    from cleared [OF change_branch_cleared [OF p4 t4] changed [symmetric]] show ?thesis .
  next
    case ignored
    from cleared [OF discard_batch_cleared [OF p4 t4] ignored [symmetric]] show ?thesis .
  qed
qed

text \<open>
  C7. A task of a reachable tracker runs from the sleep it is in. When the evaluation ends
  without an exception, on whichever path, the key has neither a pending batch nor a timer
  entry afterwards. It ends with an exception in two cases only, neither of them on a path
  that returns early: the division by a total size of 0 at line 478, and
  \<open>del self.positions[coin]\<close> at line 522 after a sleep of the verification during
  which the entry left the table. When the evaluation sleeps in the verification, the
  batch and the timer entry are as they were and the task is still in the loop.
\<close>

theorem batch_state_cleared:
  assumes "reachable e s" and "(t, (coin, side), w) \<in> set (tasks s)"
  shows "case fst (run_task e (t, (coin, side), w) s) of
           Ended None \<Rightarrow>
             pending_fills (snd (run_task e (t, (coin, side), w) s)) (coin, side) = None \<and>
             fill_timers (snd (run_task e (t, (coin, side), w) s)) (coin, side) = None
         | Ended (Some err) \<Rightarrow>
             (verifying s t = None \<and> err = ZeroDivisionError \<and>
              (\<exists>fills. pending_fills s (coin, side) = Some fills \<and> total_size fills = 0)) \<or>
             (verifying s t \<noteq> None \<and> err = KeyError \<and> map_of (positions s) coin = None)
         | Sleeping c \<Rightarrow>
             pending_fills (snd (run_task e (t, (coin, side), w) s)) = pending_fills s \<and>
             fill_timers (snd (run_task e (t, (coin, side), w) s)) = fill_timers s \<and>
             (\<exists>w'. (t, (coin, side), w') \<in> set (tasks (snd (run_task e (t, (coin, side), w) s))))"
proof -
  let ?s0 = "s\<lparr>clock := max (clock s) w\<rparr>"
  let ?r = "case verifying ?s0 t of
              None \<Rightarrow> start_evaluation e coin side ?s0
            | Some c \<Rightarrow> resume_evaluation e coin side c ?s0"
  obtain reached s1 where r: "?r = (reached, s1)" by (cases ?r)
  from reachable_invariants [OF assms(1)] have b: "batches_ok s" and tm: "timers_ok s"
    by simp_all
  from tm assms(2) have tim: "fill_timers s (coin, side) = Some t"
    and "pending_fills s (coin, side) \<noteq> None"
    by (auto simp add: timers_ok_def)
  then obtain fills where fills: "pending_fills s (coin, side) = Some fills" by auto
  with b have nonempty: "fills \<noteq> []" by (simp add: batches_ok_def)
  have p0: "pending_fills ?s0 (coin, side) = Some fills" by (simp add: fills)
  have t0: "fill_timers ?s0 (coin, side) \<noteq> None" by (simp add: tim)
  have run: "run_task e (t, (coin, side), w) s =
      (case reached of
         Ended x \<Rightarrow>
           (reached, s1\<lparr>tasks := filter (\<lambda>(t', k, w'). t' \<noteq> t) (tasks s1),
                        verifying := (verifying s1)(t := None)\<rparr>)
       | Sleeping c \<Rightarrow>
           (reached, s1\<lparr>tasks := map (\<lambda>(t', k, w').
                                if t' = t then (t', k, clock s1 + POSITION_CLOSE_VERIFY_DELAY)
                                else (t', k, w')) (tasks s1),
                        verifying := (verifying s1)(t \<mapsto> c)\<rparr>))"
    using r by (simp add: run_task_def Let_def)
  show ?thesis
  proof (cases reached)
    case (Sleeping c)
    with r have "fst ?r = Sleeping c" by simp
    then have "same_transient ?s0 (snd ?r)"
      by (cases "verifying ?s0 t")
         (simp_all add: start_evaluation_sleeping resume_evaluation_sleeping)
    with r have same: "pending_fills s1 = pending_fills s" "fill_timers s1 = fill_timers s"
      "tasks s1 = tasks s"
      by (simp_all add: same_transient_def)
    let ?f = "\<lambda>(t', k, w'). if t' = t then (t', k, clock s1 + POSITION_CLOSE_VERIFY_DELAY)
                                else (t', k, w')"
    have "?f (t, (coin, side), w) \<in> ?f ` set (tasks s)"
      using assms(2) by (rule imageI)
    then have "(t, (coin, side), clock s1 + POSITION_CLOSE_VERIFY_DELAY) \<in>
        set (tasks (snd (run_task e (t, (coin, side), w) s)))"
      by (simp add: run Sleeping same)
    then have "\<exists>w'. (t, (coin, side), w') \<in>
        set (tasks (snd (run_task e (t, (coin, side), w) s)))"
      by blast
    moreover have "fst (run_task e (t, (coin, side), w) s) = Sleeping c"
      "pending_fills (snd (run_task e (t, (coin, side), w) s)) = pending_fills s"
      "fill_timers (snd (run_task e (t, (coin, side), w) s)) = fill_timers s"
      by (simp_all add: run Sleeping same)
    ultimately show ?thesis by simp
  next
    case (Ended x)
    show ?thesis
    proof (cases "verifying s t")
      case None
      with r have st: "start_evaluation e coin side ?s0 = (reached, s1)" by simp
      from start_evaluation_cases [OF p0 nonempty t0 st] Ended fills None
      show ?thesis
        by (cases x) (simp_all add: run)
    next
      case (Some c)
      with r have st: "closing_steps e coin (coin, side) (c_avg c) (c_prev c) True
          (c_attempts c) ?s0 = (reached, s1)"
        by (simp add: resume_evaluation_def)
      have p0': "pending_fills ?s0 (coin, side) \<noteq> None" by (simp add: fills)
      from closing_steps_cases [OF p0' t0 st] Ended Some
      show ?thesis
        by (cases x) (simp_all add: run)
    qed
  qed
qed
section \<open>The division in the average price\<close>

lemma sum_list_sz_pos:
  "fills \<noteq> [] \<Longrightarrow> \<forall>f \<in> set fills. sz f > 0 \<Longrightarrow> sum_list (map sz fills) > 0"
proof (induction fills)
  case Nil
  then show ?case by simp
next
  case (Cons f rest)
  show ?case
  proof (cases "rest = []")
    case True
    with Cons.prems show ?thesis by simp
  next
    case False
    with Cons have "sum_list (map sz rest) > 0" by simp
    moreover from Cons.prems have "sz f > 0" by simp
    ultimately show ?thesis by simp
  qed
qed

lemma admitted_size_pos:
  assumes "sz f * px f \<ge> 10000" and "px f > 0"
  shows "sz (f :: trade) > 0"
proof -
  from assms(1) have "0 < sz f * px f" by simp
  with assms(2) show ?thesis by (simp add: zero_less_mult_iff)
qed

lemma process_no_division_by_zero:
  assumes "pending_fills s (coin, side) = Some fills" and "fills \<noteq> []"
    and "total_size fills \<noteq> 0"
  shows "fst (process_aggregated_fills e coin side s) \<noteq> Some ZeroDivisionError"
proof -
  let ?s4 = "at_reconcile e coin s"
  have d: "fst (discard_batch (coin, side) s') \<noteq> Some ZeroDivisionError" for s'
    by (simp add: discard_batch_def Let_def)
  have f: "fst (finish_batch (coin, side) s') \<noteq> Some ZeroDivisionError" for s'
    by (simp add: finish_batch_def Let_def)
  have o: "fst (open_branch coin (coin, side) avg pv actual ?s4) \<noteq> Some ZeroDivisionError"
    for avg pv actual
    by (simp add: open_branch_def Let_def d f)
  have c: "fst (close_branch e coin (coin, side) avg prev ?s4) \<noteq> Some ZeroDivisionError"
    for avg prev
    by (simp add: close_branch_def close_branch_end_def Let_def split_beta d f)
  have ch: "fst (change_branch coin (coin, side) avg prev actual ?s4) \<noteq> Some ZeroDivisionError"
    for avg prev actual
    by (simp add: change_branch_def Let_def d f send_partial_increase_alert_def
        send_partial_close_alert_def split_beta split: option.splits)
  show ?thesis
    by (simp add: process_at_reconcile [OF assms, of e] Let_def o c ch d split: option.splits)
qed

lemma reachable_after_large_fill: "reachable e (queue_fill_for_aggregation large_fill init)"
  by (rule reachable.queue, rule reachable.start) (simp_all add: init_def)

text \<open>
  C10, as the code has it. In a reachable tracker every fill of a pending batch has size
  times price at least 10000; when the fills of the batch of a key have positive prices,
  their sizes are positive, the total size is positive and the evaluation of the batch
  does not end in a division by zero. With no batch for the key the evaluation returns
  before the division.
\<close>

theorem batch_total_size_positive:
  assumes "reachable e s"
    and "\<forall>fs. pending_fills s (coin, side) = Some fs \<longrightarrow> (\<forall>f \<in> set fs. px f > 0)"
  shows "case pending_fills s (coin, side) of
           None \<Rightarrow> process_aggregated_fills e coin side s = (None, s)
         | Some fills \<Rightarrow>
             (\<forall>f \<in> set fills. sz f * px f \<ge> 10000 \<and> sz f > 0) \<and>
             total_size fills > 0 \<and>
             fst (process_aggregated_fills e coin side s) \<noteq> Some ZeroDivisionError"
proof (cases "pending_fills s (coin, side)")
  case None
  then show ?thesis by (simp add: process_nothing_to_do)
next
  case (Some fills)
  from reachable_invariants [OF assms(1)] have "batches_ok s" by simp
  with Some have nonempty: "fills \<noteq> []"
    and floor: "\<forall>f \<in> set fills. sz f * px f \<ge> 10000"
    by (simp_all add: batches_ok_def)
  from assms(2) Some have prices: "\<forall>f \<in> set fills. px f > 0" by simp
  have sizes: "\<forall>f \<in> set fills. sz f > 0"
    using floor prices admitted_size_pos by blast
  have total: "total_size fills > 0"
    unfolding total_size_def using nonempty sizes by (rule sum_list_sz_pos)
  then have "total_size fills \<noteq> 0" by simp
  from process_no_division_by_zero [OF Some nonempty this, of e] floor sizes total Some
  show ?thesis by simp
qed

theorem batch_total_size_positive_witness:
  "sz large_fill * px large_fill \<ge> 10000 \<and> sz large_fill > 0 \<and>
   total_size [large_fill] > 0 \<and>
   fst (process_aggregated_fills eth_gap ''ETH'' ''B''
     (queue_fill_for_aggregation large_fill init)) \<noteq> Some ZeroDivisionError"
proof -
  let ?s = "queue_fill_for_aggregation large_fill init"
  note q = queue_on_init [OF large_fill_facts(1-3)]
  have r: "reachable eth_gap ?s" by (rule reachable_after_large_fill)
  have large_price: "px large_fill > 0" by (simp add: large_fill_def)
  have prices: "\<forall>fs. pending_fills ?s (''ETH'', ''B'') = Some fs \<longrightarrow> (\<forall>f \<in> set fs. px f > 0)"
    using large_price by (simp add: q)
  from batch_total_size_positive [OF r prices] show ?thesis by (simp add: q)
qed

text \<open>
  C10 as stated fails: a fill record with negative size and negative price passes the
  floor, and together with an ordinary fill of the opposite size it gives a batch of
  total size 0, whose evaluation ends in a division by zero.
\<close>

theorem admitted_fill_with_negative_size:
  "sz negative_fill * px negative_fill \<ge> 10000 \<and> \<not> sz negative_fill > 0 \<and>
   pending_fills (queue_fill_for_aggregation negative_fill
      (queue_fill_for_aggregation plain_fill init)) (''ETH'', ''B'') =
     Some [plain_fill, negative_fill] \<and>
   total_size [plain_fill, negative_fill] = 0 \<and>
   fst (process_aggregated_fills eth_gap ''ETH'' ''B''
      (queue_fill_for_aggregation negative_fill
        (queue_fill_for_aggregation plain_fill init))) = Some ZeroDivisionError"
proof -
  let ?s1 = "queue_fill_for_aggregation plain_fill init"
  let ?s2 = "queue_fill_for_aggregation negative_fill ?s1"
  have plain: "t_coin plain_fill = ''ETH''" "t_side plain_fill = ''B''"
    "sz plain_fill * px plain_fill \<ge> 10000"
    by (simp_all add: plain_fill_def)
  have neg: "t_coin negative_fill = ''ETH''" "t_side negative_fill = ''B''"
    "sz negative_fill * px negative_fill \<ge> 10000" "\<not> sz negative_fill > 0"
    by (simp_all add: negative_fill_def)
  have p1: "pending_fills ?s1 (''ETH'', ''B'') = Some [plain_fill]"
    using queue_fill_pending [OF plain, of init] by (simp add: init_def)
  have p2: "pending_fills ?s2 (''ETH'', ''B'') = Some [plain_fill, negative_fill]"
    using queue_fill_pending [OF neg(1-3), of ?s1] by (simp add: p1)
  have total: "total_size [plain_fill, negative_fill] = 0"
    by (simp add: total_size_def plain_fill_def negative_fill_def)
  have "process_aggregated_fills eth_gap ''ETH'' ''B'' ?s2 = (Some ZeroDivisionError, ?s2)"
    by (rule process_division_by_zero [OF p2 _ total]) simp
  with neg p2 total show ?thesis by simp
qed


section \<open>Runs of the event loop\<close>

lemma verify_steps_Cons:
  "verify_steps e coin slept (attempt # rest) s =
     (if attempt > 0 \<and> \<not> slept then (Inr (attempt # rest), s)
      else if seen_at e coin (requests s) then (Inl False, s\<lparr>requests := Suc (requests s)\<rparr>)
      else verify_steps e coin False rest (s\<lparr>requests := Suc (requests s)\<rparr>))"
  by (auto simp add: seen_at_def get_whale_positions_def Let_def)

lemma closing_steps_Nil:
  "closing_steps e coin key avg prev slept [] s =
     ended (close_branch_end coin key avg prev True s)"
  by (simp add: closing_steps_def)

lemma closing_steps_Cons:
  "closing_steps e coin key avg prev slept (attempt # rest) s =
     (if attempt > 0 \<and> \<not> slept
      then (Sleeping \<lparr>c_avg = avg, c_prev = prev, c_attempts = attempt # rest\<rparr>, s)
      else if seen_at e coin (requests s)
      then ended (close_branch_end coin key avg prev False (s\<lparr>requests := Suc (requests s)\<rparr>))
      else closing_steps e coin key avg prev False rest (s\<lparr>requests := Suc (requests s)\<rparr>))"
  by (simp add: closing_steps_def verify_steps_Cons del: verify_steps.simps)

lemma run_task_started:
  assumes "verifying s t = None" and "clock s \<le> w"
    and "start_evaluation e coin side (s\<lparr>clock := w\<rparr>) = (reached, s1)"
  shows "run_task e (t, (coin, side), w) s =
      (case reached of
         Ended x \<Rightarrow>
           (reached, s1\<lparr>tasks := filter (\<lambda>(t', k, w'). t' \<noteq> t) (tasks s1),
                        verifying := (verifying s1)(t := None)\<rparr>)
       | Sleeping c \<Rightarrow>
           (reached, s1\<lparr>tasks := map (\<lambda>(t', k, w').
                                if t' = t then (t', k, clock s1 + POSITION_CLOSE_VERIFY_DELAY)
                                else (t', k, w')) (tasks s1),
                        verifying := (verifying s1)(t \<mapsto> c)\<rparr>))"
  using assms by (simp add: run_task_def Let_def max_def)

lemma run_task_resumed:
  assumes "verifying s t = Some c" and "clock s \<le> w"
    and "closing_steps e coin (coin, side) (c_avg c) (c_prev c) True (c_attempts c)
           (s\<lparr>clock := w\<rparr>) = (reached, s1)"
  shows "run_task e (t, (coin, side), w) s =
      (case reached of
         Ended x \<Rightarrow>
           (reached, s1\<lparr>tasks := filter (\<lambda>(t', k, w'). t' \<noteq> t) (tasks s1),
                        verifying := (verifying s1)(t := None)\<rparr>)
       | Sleeping c' \<Rightarrow>
           (reached, s1\<lparr>tasks := map (\<lambda>(t', k, w').
                                if t' = t then (t', k, clock s1 + POSITION_CLOSE_VERIFY_DELAY)
                                else (t', k, w')) (tasks s1),
                        verifying := (verifying s1)(t \<mapsto> c')\<rparr>))"
  using assms by (simp add: run_task_def resume_evaluation_def Let_def max_def)

lemma queue_on_table:
  assumes "t_coin trade = coin" and "t_side trade = side" and "sz trade * px trade \<ge> 10000"
  shows "queue_fill_for_aggregation trade (init\<lparr>positions := table\<rparr>) =
     init\<lparr>positions := table, pending_fills := [(coin, side) \<mapsto> [trade]],
          fill_timers := [(coin, side) \<mapsto> 0], tasks := [(0, (coin, side), 30)],
          next_task := 1\<rparr>"
  using assms
  by (simp add: queue_fill_for_aggregation_def init_def create_task_def Let_def)

lemma reachable_queue_on_table:
  "reachable e (queue_fill_for_aggregation trade (init\<lparr>positions := table\<rparr>))"
  by (rule reachable.queue, rule reachable.start) (simp_all add: init_def)

lemma run_task_ended:
  assumes "verifying s t = None" and "clock s \<le> w"
    and "start_evaluation e coin side (s\<lparr>clock := w\<rparr>) = ended r"
  shows "fst (run_task e (t, (coin, side), w) s) = Ended (fst r)"
    and "telegram (snd (run_task e (t, (coin, side), w) s)) = telegram (snd r)"
    and "positions (snd (run_task e (t, (coin, side), w) s)) = positions (snd r)"
    and "positions_file (snd (run_task e (t, (coin, side), w) s)) = positions_file (snd r)"
proof -
  from assms(3)
  have "start_evaluation e coin side (s\<lparr>clock := w\<rparr>) = (Ended (fst r), snd r)"
    by (simp add: ended_def)
  note run = run_task_started [OF assms(1,2) this]
  show "fst (run_task e (t, (coin, side), w) s) = Ended (fst r)"
    and "telegram (snd (run_task e (t, (coin, side), w) s)) = telegram (snd r)"
    and "positions (snd (run_task e (t, (coin, side), w) s)) = positions (snd r)"
    and "positions_file (snd (run_task e (t, (coin, side), w) s)) = positions_file (snd r)"
    by (simp_all add: run)
qed

lemma run_task_resumed_ended:
  assumes "verifying s t = Some c" and "clock s \<le> w"
    and "closing_steps e coin (coin, side) (c_avg c) (c_prev c) True (c_attempts c)
           (s\<lparr>clock := w\<rparr>) = ended r"
  shows "fst (run_task e (t, (coin, side), w) s) = Ended (fst r)"
    and "telegram (snd (run_task e (t, (coin, side), w) s)) = telegram (snd r)"
    and "positions (snd (run_task e (t, (coin, side), w) s)) = positions (snd r)"
    and "positions_file (snd (run_task e (t, (coin, side), w) s)) = positions_file (snd r)"
proof -
  from assms(3)
  have "closing_steps e coin (coin, side) (c_avg c) (c_prev c) True (c_attempts c)
           (s\<lparr>clock := w\<rparr>) = (Ended (fst r), snd r)"
    by (simp add: ended_def)
  note run = run_task_resumed [OF assms(1,2) this]
  show "fst (run_task e (t, (coin, side), w) s) = Ended (fst r)"
    and "telegram (snd (run_task e (t, (coin, side), w) s)) = telegram (snd r)"
    and "positions (snd (run_task e (t, (coin, side), w) s)) = positions (snd r)"
    and "positions_file (snd (run_task e (t, (coin, side), w) s)) = positions_file (snd r)"
    by (simp_all add: run)
qed

lemma queued_fields:
  assumes "t_coin trade = coin" and "t_side trade = side" and "sz trade * px trade \<ge> 10000"
  shows "pending_fills (queue_fill_for_aggregation trade (init\<lparr>positions := table\<rparr>))
           (coin, side) = Some [trade]"
    and "fill_timers (queue_fill_for_aggregation trade (init\<lparr>positions := table\<rparr>))
           (coin, side) = Some 0"
    and "positions (queue_fill_for_aggregation trade (init\<lparr>positions := table\<rparr>)) = table"
    and "telegram (queue_fill_for_aggregation trade (init\<lparr>positions := table\<rparr>)) = []"
    and "positions_file (queue_fill_for_aggregation trade (init\<lparr>positions := table\<rparr>)) = []"
    and "requests (queue_fill_for_aggregation trade (init\<lparr>positions := table\<rparr>)) = 0"
    and "MIN_POSITION_VALUE (queue_fill_for_aggregation trade (init\<lparr>positions := table\<rparr>))
           = 100000"
    and "PARTIAL_CHANGE_THRESHOLD (queue_fill_for_aggregation trade
           (init\<lparr>positions := table\<rparr>)) = 15 / 100"
    and "tasks (queue_fill_for_aggregation trade (init\<lparr>positions := table\<rparr>)) =
           [(0, (coin, side), 30)]"
    and "verifying (queue_fill_for_aggregation trade (init\<lparr>positions := table\<rparr>)) =
           Map.empty"
    and "btc_price (queue_fill_for_aggregation trade (init\<lparr>positions := table\<rparr>)) = 0"
    and "clock (queue_fill_for_aggregation trade (init\<lparr>positions := table\<rparr>)) = 0"
  unfolding queue_on_table [OF assms] by (simp_all add: init_def)

lemma init_table: "init\<lparr>positions := []\<rparr> = init"
  by (simp add: init_def)

lemmas run_defs =
  run_task_def start_evaluation_def resume_evaluation_def closing_steps_Nil
  closing_steps_Cons attempts_list seen_at_def ended_def
  close_branch_end_def open_branch_def change_branch_def
  queue_fill_for_aggregation_def create_task_def cancel_def
  get_btc_price_def get_whale_positions_def parse_positions_def
  total_size_def avg_price_def finish_batch_def discard_batch_def save_positions_def
  send_open_alert_def send_close_alert_def send_partial_close_alert_def
  send_partial_increase_alert_def send_telegram_message_def get_position_emoji_and_tier_def
  entry_price_text_def opened_def placeholder_def POSITION_CLOSE_VERIFY_DELAY_def

text \<open>
  Six runs of a task to its end, one on each path of \<open>process_aggregated_fills\<close>
  after line 474. The batch of 200000 for ETH, which the exchange shows: the evaluation
  sends an OPEN alert and reaches the end of the function.
\<close>

lemma run_opens:
  "fst (run_task eth_gap (0, (''ETH'', ''B''), 30) (queue_fill_for_aggregation large_fill init))
     = Ended None \<and>
   map kind (telegram (snd (run_task eth_gap (0, (''ETH'', ''B''), 30)
     (queue_fill_for_aggregation large_fill init)))) = [OPEN]"
  by (simp add: run_defs init_def large_fill_def eth_gap_def sol_short_def eth_long_def Let_def
      update_conv')

text \<open>The batch of 20000 for ETH, which the exchange shows: the return at line 513.\<close>

lemma run_ignores_small_batch:
  "fst (run_task eth_gap (0, (''ETH'', ''B''), 30) (queue_fill_for_aggregation small_fill init))
     = Ended None \<and>
   telegram (snd (run_task eth_gap (0, (''ETH'', ''B''), 30)
     (queue_fill_for_aggregation small_fill init))) = []"
  by (simp add: run_defs init_def small_fill_def eth_gap_def sol_short_def eth_long_def Let_def
      update_conv')

text \<open>
  A batch for ETH, which is neither in the table nor on the exchange: the return at line
  576.
\<close>

lemma run_ignores_untracked:
  "fst (run_task eth_gone (0, (''ETH'', ''B''), 30) (queue_fill_for_aggregation large_fill init))
     = Ended None \<and>
   telegram (snd (run_task eth_gone (0, (''ETH'', ''B''), 30)
     (queue_fill_for_aggregation large_fill init))) = []"
  by (simp add: run_defs init_def large_fill_def eth_gone_def sol_short_def Let_def
      update_conv')

text \<open>
  A sale of 5 of the 100 ETH tracked, with 95 ETH on the exchange: the silent update and
  the return at line 572.
\<close>

lemma run_updates_silently:
  "fst (run_task eth_trimmed (0, (''ETH'', ''A''), 30)
     (queue_fill_for_aggregation trim_fill (init\<lparr>positions := [(''ETH'', eth_tracked)]\<rparr>)))
     = Ended None \<and>
   telegram (snd (run_task eth_trimmed (0, (''ETH'', ''A''), 30)
     (queue_fill_for_aggregation trim_fill (init\<lparr>positions := [(''ETH'', eth_tracked)]\<rparr>))))
     = []"
  by (simp add: run_defs init_def trim_fill_def eth_trimmed_def eth_tracked_def Let_def
      update_conv')

text \<open>
  The sale of the 25 ETH tracked at 50000, with no ETH on the exchange: the task sleeps
  twice in the verification, and its third run confirms the close and takes the return at
  line 527, the value being below the minimum.
\<close>

lemma eth_sale:
  "eth_sale =
     init\<lparr>positions := [(''ETH'', eth_reduced)],
          pending_fills := [(''ETH'', ''A'') \<mapsto> [sell_fill]],
          fill_timers := [(''ETH'', ''A'') \<mapsto> 0], tasks := [(0, (''ETH'', ''A''), 30)],
          next_task := 1\<rparr>"
  by (simp add: eth_sale_def run_defs init_def sell_fill_def Let_def)

lemma eth_sale_1:
  "eth_sale_1 =
     init\<lparr>positions := [(''ETH'', eth_reduced)],
          pending_fills := [(''ETH'', ''A'') \<mapsto> [sell_fill]],
          fill_timers := [(''ETH'', ''A'') \<mapsto> 0], btc_price := 100000, requests := 3,
          clock := 30, tasks := [(0, (''ETH'', ''A''), 35)], next_task := 1,
          verifying := [0 \<mapsto> \<lparr>c_avg = 2000, c_prev = eth_reduced, c_attempts = [1, 2]\<rparr>]\<rparr>"
  by (simp add: eth_sale_1_def eth_sale run_defs init_def sell_fill_def eth_gone_def
      sol_short_def eth_reduced_def Let_def update_conv')

lemma eth_sale_2:
  "eth_sale_2 =
     init\<lparr>positions := [(''ETH'', eth_reduced)],
          pending_fills := [(''ETH'', ''A'') \<mapsto> [sell_fill]],
          fill_timers := [(''ETH'', ''A'') \<mapsto> 0], btc_price := 100000, requests := 4,
          clock := 35, tasks := [(0, (''ETH'', ''A''), 40)], next_task := 1,
          verifying := [0 \<mapsto> \<lparr>c_avg = 2000, c_prev = eth_reduced, c_attempts = [2]\<rparr>]\<rparr>"
  by (simp add: eth_sale_2_def eth_sale_1 run_defs init_def eth_gone_def
      sol_short_def Let_def update_conv')

lemma run_keeps_below_threshold:
  "fst (run_task eth_gone (0, (''ETH'', ''A''), 40) eth_sale_2) = Ended None \<and>
   telegram (snd (run_task eth_gone (0, (''ETH'', ''A''), 40) eth_sale_2)) = [] \<and>
   positions (snd (run_task eth_gone (0, (''ETH'', ''A''), 40) eth_sale_2)) =
     [(''ETH'', eth_reduced)]"
  by (simp add: eth_sale_2 run_defs init_def eth_gone_def eth_reduced_def
      sol_short_def Let_def update_conv')

text \<open>
  The story of a BTC position: bought at 2000000, reduced to 200000, sold. The task of the
  last sale sleeps twice in the verification, and its third run sends the CLOSE alert and
  reaches the end of the function.
\<close>

lemma btc_story_1:
  "btc_story_1 =
     init\<lparr>positions := [(''BTC'', btc_opened)], btc_price := 100000,
          telegram :=
            [\<lparr>kind = OPEN, emoji = ''alien alien'', tier = ''1M+'', a_coin = ''BTC'',
              a_side = ''LONG'', shown_value = 2000000, prev_shown = None, pct = None,
              entry_shown = None, price = 100000, btc = 100000\<rparr>],
          positions_file := [(''BTC'', btc_opened)], requests := 2, clock := 30,
          next_task := 1\<rparr>"
  by (simp add: btc_story_1_def run_defs init_def btc_buy_def btc_story_def btc_opened_def
      Let_def)

lemma btc_story_2:
  "btc_story_2 =
     init\<lparr>positions := [(''BTC'', btc_reduced)], btc_price := 100000,
          telegram :=
            [\<lparr>kind = OPEN, emoji = ''alien alien'', tier = ''1M+'', a_coin = ''BTC'',
              a_side = ''LONG'', shown_value = 2000000, prev_shown = None, pct = None,
              entry_shown = None, price = 100000, btc = 100000\<rparr>,
             \<lparr>kind = PARTIAL_CLOSE, emoji = ''alien alien'', tier = ''1M+'', a_coin = ''BTC'',
              a_side = ''LONG'', shown_value = 200000, prev_shown = Some 2000000,
              pct = Some (9 / 10), entry_shown = Some 100000, price = 100000, btc = 100000\<rparr>],
          positions_file := [(''BTC'', btc_reduced)], requests := 4, clock := 60,
          next_task := 2\<rparr>"
  by (simp add: btc_story_2_def btc_story_1 run_defs init_def btc_sell_18_def btc_story_def
      btc_opened_def btc_reduced_def Let_def)

lemma btc_story_3a:
  "btc_story_3a =
     btc_story_2\<lparr>pending_fills := [(''BTC'', ''A'') \<mapsto> [btc_sell_2]],
          fill_timers := [(''BTC'', ''A'') \<mapsto> 2], requests := 7, clock := 90,
          tasks := [(2, (''BTC'', ''A''), 95)], next_task := 3,
          verifying := [2 \<mapsto> \<lparr>c_avg = 100000, c_prev = btc_reduced, c_attempts = [1, 2]\<rparr>]\<rparr>"
  by (simp add: btc_story_3a_def btc_story_2 run_defs init_def btc_sell_2_def btc_story_def
      btc_reduced_def sol_short_def Let_def update_conv')

lemma btc_story_3b:
  "btc_story_3b =
     btc_story_2\<lparr>pending_fills := [(''BTC'', ''A'') \<mapsto> [btc_sell_2]],
          fill_timers := [(''BTC'', ''A'') \<mapsto> 2], requests := 8, clock := 95,
          tasks := [(2, (''BTC'', ''A''), 100)], next_task := 3,
          verifying := [2 \<mapsto> \<lparr>c_avg = 100000, c_prev = btc_reduced, c_attempts = [2]\<rparr>]\<rparr>"
  by (simp add: btc_story_3b_def btc_story_3a btc_story_2 run_defs init_def btc_story_def
      sol_short_def Let_def update_conv')

lemma run_closes:
  "fst (run_task btc_story (2, (''BTC'', ''A''), 100) btc_story_3b) = Ended None \<and>
   map kind (telegram (snd (run_task btc_story (2, (''BTC'', ''A''), 100) btc_story_3b))) =
     [OPEN, PARTIAL_CLOSE, CLOSE]"
  by (simp add: btc_story_3b btc_story_2 run_defs init_def btc_story_def btc_reduced_def
      sol_short_def Let_def update_conv')

lemma reachable_queue_on_init: "reachable e (queue_fill_for_aggregation trade init)"
  by (rule reachable.queue, rule reachable.start) (simp_all add: init_def)

lemma reachable_eth_sale_2: "reachable eth_gone eth_sale_2"
proof -
  have "reachable eth_gone eth_sale"
    unfolding eth_sale_def by (rule reachable_queue_on_table)
  moreover have "(0, (''ETH'', ''A''), 30) \<in> set (tasks eth_sale)"
    by (simp add: eth_sale)
  ultimately have "reachable eth_gone eth_sale_1"
    unfolding eth_sale_1_def by (rule reachable.task)
  moreover have "(0, (''ETH'', ''A''), 35) \<in> set (tasks eth_sale_1)"
    by (simp add: eth_sale_1)
  ultimately show ?thesis
    unfolding eth_sale_2_def by (rule reachable.task)
qed

lemma reachable_btc_story_3b: "reachable btc_story btc_story_3b"
proof -
  have "(0, (''BTC'', ''B''), 30) \<in> set (tasks (queue_fill_for_aggregation btc_buy init))"
    by (simp add: queue_fill_for_aggregation_def create_task_def init_def btc_buy_def Let_def)
  with reachable_queue_on_init have "reachable btc_story btc_story_1"
    unfolding btc_story_1_def by (rule reachable.task)
  then have "reachable btc_story (queue_fill_for_aggregation btc_sell_18 btc_story_1)"
    by (rule reachable.queue)
  moreover have
    "(1, (''BTC'', ''A''), 60) \<in> set (tasks (queue_fill_for_aggregation btc_sell_18 btc_story_1))"
    by (simp add: btc_story_1 queue_fill_for_aggregation_def create_task_def init_def
        btc_sell_18_def Let_def)
  ultimately have "reachable btc_story btc_story_2"
    unfolding btc_story_2_def by (rule reachable.task)
  then have "reachable btc_story (queue_fill_for_aggregation btc_sell_2 btc_story_2)"
    by (rule reachable.queue)
  moreover have
    "(2, (''BTC'', ''A''), 90) \<in> set (tasks (queue_fill_for_aggregation btc_sell_2 btc_story_2))"
    by (simp add: btc_story_2 queue_fill_for_aggregation_def create_task_def init_def
        btc_sell_2_def Let_def)
  ultimately have "reachable btc_story btc_story_3a"
    unfolding btc_story_3a_def by (rule reachable.task)
  moreover have "(2, (''BTC'', ''A''), 95) \<in> set (tasks btc_story_3a)"
    by (simp add: btc_story_3a)
  ultimately show ?thesis
    unfolding btc_story_3b_def by (rule reachable.task)
qed

theorem batch_state_cleared_witness:
  "(fst (run_task eth_gap (0, (''ETH'', ''B''), 30) (queue_fill_for_aggregation large_fill init))
      = Ended None \<and>
    map kind (telegram (snd (run_task eth_gap (0, (''ETH'', ''B''), 30)
      (queue_fill_for_aggregation large_fill init)))) = [OPEN] \<and>
    pending_fills (snd (run_task eth_gap (0, (''ETH'', ''B''), 30)
      (queue_fill_for_aggregation large_fill init))) (''ETH'', ''B'') = None \<and>
    fill_timers (snd (run_task eth_gap (0, (''ETH'', ''B''), 30)
      (queue_fill_for_aggregation large_fill init))) (''ETH'', ''B'') = None) \<and>
   (fst (run_task eth_gap (0, (''ETH'', ''B''), 30) (queue_fill_for_aggregation small_fill init))
      = Ended None \<and>
    telegram (snd (run_task eth_gap (0, (''ETH'', ''B''), 30)
      (queue_fill_for_aggregation small_fill init))) = [] \<and>
    pending_fills (snd (run_task eth_gap (0, (''ETH'', ''B''), 30)
      (queue_fill_for_aggregation small_fill init))) (''ETH'', ''B'') = None \<and>
    fill_timers (snd (run_task eth_gap (0, (''ETH'', ''B''), 30)
      (queue_fill_for_aggregation small_fill init))) (''ETH'', ''B'') = None) \<and>
   (fst (run_task eth_gone (0, (''ETH'', ''B''), 30) (queue_fill_for_aggregation large_fill init))
      = Ended None \<and>
    telegram (snd (run_task eth_gone (0, (''ETH'', ''B''), 30)
      (queue_fill_for_aggregation large_fill init))) = [] \<and>
    pending_fills (snd (run_task eth_gone (0, (''ETH'', ''B''), 30)
      (queue_fill_for_aggregation large_fill init))) (''ETH'', ''B'') = None \<and>
    fill_timers (snd (run_task eth_gone (0, (''ETH'', ''B''), 30)
      (queue_fill_for_aggregation large_fill init))) (''ETH'', ''B'') = None) \<and>
   (fst (run_task eth_trimmed (0, (''ETH'', ''A''), 30)
      (queue_fill_for_aggregation trim_fill (init\<lparr>positions := [(''ETH'', eth_tracked)]\<rparr>)))
      = Ended None \<and>
    telegram (snd (run_task eth_trimmed (0, (''ETH'', ''A''), 30)
      (queue_fill_for_aggregation trim_fill (init\<lparr>positions := [(''ETH'', eth_tracked)]\<rparr>))))
      = [] \<and>
    pending_fills (snd (run_task eth_trimmed (0, (''ETH'', ''A''), 30)
      (queue_fill_for_aggregation trim_fill (init\<lparr>positions := [(''ETH'', eth_tracked)]\<rparr>))))
      (''ETH'', ''A'') = None \<and>
    fill_timers (snd (run_task eth_trimmed (0, (''ETH'', ''A''), 30)
      (queue_fill_for_aggregation trim_fill (init\<lparr>positions := [(''ETH'', eth_tracked)]\<rparr>))))
      (''ETH'', ''A'') = None) \<and>
   (fst (run_task eth_gone (0, (''ETH'', ''A''), 40) eth_sale_2) = Ended None \<and>
    telegram (snd (run_task eth_gone (0, (''ETH'', ''A''), 40) eth_sale_2)) = [] \<and>
    pending_fills (snd (run_task eth_gone (0, (''ETH'', ''A''), 40) eth_sale_2))
      (''ETH'', ''A'') = None \<and>
    fill_timers (snd (run_task eth_gone (0, (''ETH'', ''A''), 40) eth_sale_2))
      (''ETH'', ''A'') = None) \<and>
   (fst (run_task btc_story (2, (''BTC'', ''A''), 100) btc_story_3b) = Ended None \<and>
    map kind (telegram (snd (run_task btc_story (2, (''BTC'', ''A''), 100) btc_story_3b))) =
      [OPEN, PARTIAL_CLOSE, CLOSE] \<and>
    pending_fills (snd (run_task btc_story (2, (''BTC'', ''A''), 100) btc_story_3b))
      (''BTC'', ''A'') = None \<and>
    fill_timers (snd (run_task btc_story (2, (''BTC'', ''A''), 100) btc_story_3b))
      (''BTC'', ''A'') = None)"
proof -
  have buy: "(0, (''ETH'', ''B''), 30) \<in> set (tasks (queue_fill_for_aggregation large_fill init))"
    "(0, (''ETH'', ''B''), 30) \<in> set (tasks (queue_fill_for_aggregation small_fill init))"
    by (simp_all add: queue_on_init large_fill_facts small_fill_facts)
  have trim: "(0, (''ETH'', ''A''), 30) \<in> set (tasks
      (queue_fill_for_aggregation trim_fill (init\<lparr>positions := [(''ETH'', eth_tracked)]\<rparr>)))"
    by (simp add: queued_fields trim_fill_def)
  have sale: "(0, (''ETH'', ''A''), 40) \<in> set (tasks eth_sale_2)"
    by (simp add: eth_sale_2)
  have story: "(2, (''BTC'', ''A''), 100) \<in> set (tasks btc_story_3b)"
    by (simp add: btc_story_3b)
  from batch_state_cleared [OF reachable_queue_on_init buy(1), of eth_gap] run_opens
  have opens: "pending_fills (snd (run_task eth_gap (0, (''ETH'', ''B''), 30)
      (queue_fill_for_aggregation large_fill init))) (''ETH'', ''B'') = None \<and>
    fill_timers (snd (run_task eth_gap (0, (''ETH'', ''B''), 30)
      (queue_fill_for_aggregation large_fill init))) (''ETH'', ''B'') = None"
    by simp
  from batch_state_cleared [OF reachable_queue_on_init buy(2), of eth_gap]
    run_ignores_small_batch
  have small: "pending_fills (snd (run_task eth_gap (0, (''ETH'', ''B''), 30)
      (queue_fill_for_aggregation small_fill init))) (''ETH'', ''B'') = None \<and>
    fill_timers (snd (run_task eth_gap (0, (''ETH'', ''B''), 30)
      (queue_fill_for_aggregation small_fill init))) (''ETH'', ''B'') = None"
    by simp
  from batch_state_cleared [OF reachable_queue_on_init buy(1), of eth_gone]
    run_ignores_untracked
  have untracked: "pending_fills (snd (run_task eth_gone (0, (''ETH'', ''B''), 30)
      (queue_fill_for_aggregation large_fill init))) (''ETH'', ''B'') = None \<and>
    fill_timers (snd (run_task eth_gone (0, (''ETH'', ''B''), 30)
      (queue_fill_for_aggregation large_fill init))) (''ETH'', ''B'') = None"
    by simp
  from batch_state_cleared [OF reachable_queue_on_table trim, of eth_trimmed]
    run_updates_silently
  have silent: "pending_fills (snd (run_task eth_trimmed (0, (''ETH'', ''A''), 30)
      (queue_fill_for_aggregation trim_fill (init\<lparr>positions := [(''ETH'', eth_tracked)]\<rparr>))))
      (''ETH'', ''A'') = None \<and>
    fill_timers (snd (run_task eth_trimmed (0, (''ETH'', ''A''), 30)
      (queue_fill_for_aggregation trim_fill (init\<lparr>positions := [(''ETH'', eth_tracked)]\<rparr>))))
      (''ETH'', ''A'') = None"
    by simp
  from batch_state_cleared [OF reachable_eth_sale_2 sale] run_keeps_below_threshold
  have kept: "pending_fills (snd (run_task eth_gone (0, (''ETH'', ''A''), 40) eth_sale_2))
      (''ETH'', ''A'') = None \<and>
    fill_timers (snd (run_task eth_gone (0, (''ETH'', ''A''), 40) eth_sale_2))
      (''ETH'', ''A'') = None"
    by simp
  from batch_state_cleared [OF reachable_btc_story_3b story] run_closes
  have closed: "pending_fills (snd (run_task btc_story (2, (''BTC'', ''A''), 100) btc_story_3b))
      (''BTC'', ''A'') = None \<and>
    fill_timers (snd (run_task btc_story (2, (''BTC'', ''A''), 100) btc_story_3b))
      (''BTC'', ''A'') = None"
    by simp
  from opens small untracked silent kept closed
    run_opens run_ignores_small_batch run_ignores_untracked run_updates_silently
    run_keeps_below_threshold run_closes
  show ?thesis by blast
qed

section \<open>The tier of an alert\<close>

lemma tier_of_alerts:
  "tier (last (telegram (send_open_alert coin side v p s))) =
     snd (get_position_emoji_and_tier coin v)"
  "tier (last (telegram (send_close_alert coin side v p entry s))) =
     snd (get_position_emoji_and_tier coin v)"
  "map_of (positions s) coin = Some pos \<Longrightarrow>
   tier (last (telegram (snd (send_partial_close_alert coin side prev_value curr_value pct' p s))))
     = snd (get_position_emoji_and_tier coin (p_max_value pos))"
  "map_of (positions s) coin = Some pos \<Longrightarrow>
   tier (last (telegram (snd (send_partial_increase_alert coin side prev_value curr_value pct' p
     s)))) = snd (get_position_emoji_and_tier coin (p_max_value pos))"
  by (simp_all add: telegram_send_open_alert telegram_send_close_alert
      telegram_send_partial_close_alert telegram_send_partial_increase_alert)

lemma verify_btc_gone:
  "verify_position_closed eth_gone ''BTC'' s =
     (True, s\<lparr>requests := requests s + 3, clock := clock s + 10\<rparr>)"
  by (simp add: verify_position_closed_def attempts_list get_whale_positions_def
      eth_gone_snapshot sleep_def POSITION_CLOSE_VERIFY_DELAY_def)

text \<open>
  C5 at a failing input, the scenario of the claim. A BTC position is opened at 2000000
  (OPEN alert at tier 1M+) and reduced by 90% to 200000 (PARTIAL_CLOSE alert at tier 1M+,
  that of the entry's \<open>max_value\<close>, which stays at 2000000). When the rest is sold,
  the CLOSE alert of the batch evaluation shows 200000 at tier 100K+, and so does the CLOSE
  alert of the sweep when the sweep finds the position gone. When instead 2 BTC are added,
  the PARTIAL_INCREASE alert shows the current value, 400000, whose tier is 100K+, at the
  tier of \<open>max_value\<close>, 1M+.
\<close>

theorem close_alert_tier_of_reduced_position:
  "map_of (positions btc_story_2) ''BTC'' = Some btc_reduced \<and>
   p_max_value btc_reduced = 2000000 \<and>
   snd (get_position_emoji_and_tier ''BTC'' (p_max_value btc_reduced)) = ''1M+'' \<and>
   positions btc_story_3 = [] \<and>
   map kind (telegram btc_story_3) = [OPEN, PARTIAL_CLOSE, CLOSE] \<and>
   map shown_value (telegram btc_story_3) = [2000000, 200000, 200000] \<and>
   map tier (telegram btc_story_3) = [''1M+'', ''1M+'', ''100K+''] \<and>
   map kind (telegram (snd (verify_all_positions eth_gone btc_story_2))) =
     [OPEN, PARTIAL_CLOSE, CLOSE] \<and>
   map tier (telegram (snd (verify_all_positions eth_gone btc_story_2))) =
     [''1M+'', ''1M+'', ''100K+''] \<and>
   map kind (telegram (snd (run_task btc_added (2, (''BTC'', ''B''), 90)
     (queue_fill_for_aggregation btc_buy_2 btc_story_2)))) =
     [OPEN, PARTIAL_CLOSE, PARTIAL_INCREASE] \<and>
   map shown_value (telegram (snd (run_task btc_added (2, (''BTC'', ''B''), 90)
     (queue_fill_for_aggregation btc_buy_2 btc_story_2)))) = [2000000, 200000, 400000] \<and>
   map tier (telegram (snd (run_task btc_added (2, (''BTC'', ''B''), 90)
     (queue_fill_for_aggregation btc_buy_2 btc_story_2)))) = [''1M+'', ''1M+'', ''1M+''] \<and>
   snd (get_position_emoji_and_tier ''BTC'' 400000) = ''100K+''"
proof -
  have story: "map_of (positions btc_story_2) ''BTC'' = Some btc_reduced \<and>
      p_max_value btc_reduced = 2000000 \<and>
      snd (get_position_emoji_and_tier ''BTC'' (p_max_value btc_reduced)) = ''1M+'' \<and>
      positions btc_story_3 = [] \<and>
      map kind (telegram btc_story_3) = [OPEN, PARTIAL_CLOSE, CLOSE] \<and>
      map shown_value (telegram btc_story_3) = [2000000, 200000, 200000] \<and>
      map tier (telegram btc_story_3) = [''1M+'', ''1M+'', ''100K+'']"
    by (simp add: btc_story_3_def btc_story_3b btc_story_2 run_defs init_def btc_story_def
        btc_reduced_def sol_short_def Let_def update_conv')
  have sweep: "map kind (telegram (snd (verify_all_positions eth_gone btc_story_2))) =
       [OPEN, PARTIAL_CLOSE, CLOSE] \<and>
     map tier (telegram (snd (verify_all_positions eth_gone btc_story_2))) =
       [''1M+'', ''1M+'', ''100K+'']"
    by (simp add: btc_story_2 verify_all_positions_def get_whale_positions_def
        eth_gone_snapshot close_if_verified_def verify_btc_gone get_btc_price_def
        get_asset_price_def send_close_alert_def send_telegram_message_def save_positions_def
        split_beta Let_def init_def btc_reduced_def eth_gone_quotes
        get_position_emoji_and_tier_def)
  have added: "map kind (telegram (snd (run_task btc_added (2, (''BTC'', ''B''), 90)
       (queue_fill_for_aggregation btc_buy_2 btc_story_2)))) =
       [OPEN, PARTIAL_CLOSE, PARTIAL_INCREASE] \<and>
     map shown_value (telegram (snd (run_task btc_added (2, (''BTC'', ''B''), 90)
       (queue_fill_for_aggregation btc_buy_2 btc_story_2)))) = [2000000, 200000, 400000] \<and>
     map tier (telegram (snd (run_task btc_added (2, (''BTC'', ''B''), 90)
       (queue_fill_for_aggregation btc_buy_2 btc_story_2)))) = [''1M+'', ''1M+'', ''1M+'']"
    by (simp add: btc_story_2 run_defs init_def btc_buy_2_def btc_added_def
        btc_reduced_def Let_def update_conv')
  have "snd (get_position_emoji_and_tier ''BTC'' 400000) = ''100K+''"
    by (simp add: get_position_emoji_and_tier_def)
  with story sweep added show ?thesis by blast
qed
section \<open>When the table is written to the file\<close>

lemma open_branch_saved:
  "telegram (snd (open_branch coin key avg pv actual s4)) = telegram s4 \<or>
   positions_file (snd (open_branch coin key avg pv actual s4)) =
     positions (snd (open_branch coin key avg pv actual s4))"
  by (simp add: open_branch_def Let_def finish_batch_fields discard_batch_fields
      save_positions_fields send_open_alert_fields)

lemma close_branch_saved:
  "telegram (snd (close_branch e coin key avg prev s4)) = telegram s4 \<or>
   positions_file (snd (close_branch e coin key avg prev s4)) =
     positions (snd (close_branch e coin key avg prev s4))"
proof (cases "fst (verify_position_closed e coin s4) \<and>
              p_value prev \<ge> real_of_int (MIN_POSITION_VALUE s4)")
  case True
  then have a: "fst (verify_position_closed e coin s4)"
    and b: "p_value prev \<ge> real_of_int (MIN_POSITION_VALUE s4)"
    by simp_all
  show ?thesis
  proof (cases "map_of (positions s4) coin = None")
    case False
    from close_branch_closes(2,3) [OF a b False] show ?thesis by simp
  next
    case absent: True
    obtain c s5 where v: "verify_position_closed e coin s4 = (c, s5)"
      by (cases "verify_position_closed e coin s4")
    have "time_passed s4 s5"
      using verify_position_closed_time_passed [of s4 e coin] v by simp
    then have f: "telegram s5 = telegram s4" "positions s5 = positions s4"
      "MIN_POSITION_VALUE s5 = MIN_POSITION_VALUE s4"
      by (simp_all add: time_passed_def)
    from a v have c: "c" by simp
    have "close_branch_end coin key avg prev c s5 = (Some KeyError, s5)"
      by (rule close_branch_end_key_error) (simp_all add: c b f absent)
    then show ?thesis by (simp add: close_branch_def v f)
  qed
next
  case False
  from close_branch_keeps(1) [OF False] show ?thesis by simp
qed

lemma change_branch_saved:
  "telegram (snd (change_branch coin key avg prev actual s4)) = telegram s4 \<or>
   positions_file (snd (change_branch coin key avg prev actual s4)) =
     positions (snd (change_branch coin key avg prev actual s4))"
proof (cases "p_size actual > p_size prev")
  case True
  show ?thesis
  proof (cases "(p_size actual - p_size prev) / p_size prev \<ge> PARTIAL_CHANGE_THRESHOLD s4")
    case True
    from change_branch_increase(3) [OF \<open>p_size actual > p_size prev\<close> True]
    show ?thesis by simp
  next
    case False
    from change_branch_silent_increase(1) [OF \<open>p_size actual > p_size prev\<close> False]
    show ?thesis by simp
  qed
next
  case False
  show ?thesis
  proof (cases "(p_size prev - p_size actual) / p_size prev \<ge> PARTIAL_CHANGE_THRESHOLD s4")
    case True
    from change_branch_partial_close(3) [OF \<open>\<not> p_size actual > p_size prev\<close> True]
    show ?thesis by simp
  next
    case False
    from change_branch_silent_decrease(1) [OF \<open>\<not> p_size actual > p_size prev\<close> False]
    show ?thesis by simp
  qed
qed

lemma process_saved:
  "telegram (snd (process_aggregated_fills e coin side s)) = telegram s \<or>
   positions_file (snd (process_aggregated_fills e coin side s)) =
     positions (snd (process_aggregated_fills e coin side s))"
proof (cases "pending_fills s (coin, side)")
  case None
  then show ?thesis by (simp add: process_nothing_to_do)
next
  case (Some fills)
  show ?thesis
  proof (cases "fills = []")
    case True
    with Some show ?thesis by (simp add: process_nothing_to_do)
  next
    case False
    note nonempty = False
    show ?thesis
    proof (cases "total_size fills = 0")
      case True
      from process_division_by_zero [OF Some nonempty True, of e] show ?thesis by simp
    next
      case False
      let ?s4 = "at_reconcile e coin s"
      let ?prev = "tracked (positions s) coin"
      let ?cur = "parse_positions (clearinghouseState e (Suc (requests s)))"
      note eq = process_at_reconcile [OF Some nonempty False, of e]
      have t4: "telegram ?s4 = telegram s" by (simp add: at_reconcile_fields)
      show ?thesis
      proof (cases "map_of ?cur coin")
        case None
        then have unseen: "\<not> seen_at e coin (Suc (requests s))" by (simp add: seen_at_def)
        show ?thesis
        proof (cases "p_size ?prev > 0")
          case True
          with unseen eq have "process_aggregated_fills e coin side s =
              close_branch e coin (coin, side) (avg_price fills) ?prev ?s4"
            by (simp add: Let_def)
          with close_branch_saved [of e coin "(coin, side)" "avg_price fills" ?prev ?s4] t4
          show ?thesis by simp
        next
          case False
          with unseen eq have "process_aggregated_fills e coin side s =
              discard_batch (coin, side) ?s4"
            by (simp add: Let_def)
          then show ?thesis by (simp add: discard_batch_fields t4)
        qed
      next
        case (Some actual)
        then have seen: "seen_at e coin (Suc (requests s))" by (simp add: seen_at_def)
        consider (zero) "p_size ?prev = 0" | (pos) "p_size ?prev > 0"
          | (neg) "\<not> p_size ?prev = 0" "\<not> p_size ?prev > 0"
          by blast
        then show ?thesis
        proof cases
          case zero
          with seen Some eq have "process_aggregated_fills e coin side s =
              open_branch coin (coin, side) (avg_price fills) (avg_price fills * total_size fills) actual ?s4"
            by (simp add: Let_def)
          with open_branch_saved [of coin "(coin, side)" "avg_price fills"
              "avg_price fills * total_size fills" actual ?s4] t4
          show ?thesis by simp
        next
          case pos
          with seen Some eq have "process_aggregated_fills e coin side s =
              change_branch coin (coin, side) (avg_price fills) ?prev actual ?s4"
            by (simp add: Let_def)
          with change_branch_saved [of coin "(coin, side)" "avg_price fills" ?prev actual ?s4] t4
          show ?thesis by simp
        next
          case neg
          with eq have "process_aggregated_fills e coin side s =
              discard_batch (coin, side) ?s4"
            by (simp add: Let_def)
          then show ?thesis by (simp add: discard_batch_fields t4)
        qed
      qed
    qed
  qed
qed

lemma close_if_verified_count:
  assumes "close_if_verified e coin k s = (Inr n, s')"
  shows "k \<le> n \<and> (n = k \<longrightarrow> positions s' = positions s \<and> positions_file s' = positions_file s)"
proof -
  obtain b s1 where v: "verify_position_closed e coin s = (b, s1)"
    by (cases "verify_position_closed e coin s")
  have "time_passed s s1"
    using verify_position_closed_time_passed [of s e coin] v by simp
  then have f: "positions s1 = positions s" "positions_file s1 = positions_file s"
    by (simp_all add: time_passed_def)
  from assms f show ?thesis
    by (cases b)
       (auto simp add: close_if_verified_def v split_beta Let_def split: option.splits)
qed

lemma verify_close_loop_count:
  "verify_close_loop e coins k s = (Inr n, s') \<Longrightarrow>
   k \<le> n \<and> (n = k \<longrightarrow> positions s' = positions s \<and> positions_file s' = positions_file s)"
proof (induction coins arbitrary: k s)
  case Nil
  then show ?case by simp
next
  case (Cons coin rest)
  obtain r s1 where c: "close_if_verified e coin k s = (r, s1)"
    by (cases "close_if_verified e coin k s")
  show ?case
  proof (cases r)
    case (Inl err)
    with Cons.prems c show ?thesis by simp
  next
    case (Inr k1)
    with c have first: "close_if_verified e coin k s = (Inr k1, s1)" by simp
    from Cons.prems first have rest: "verify_close_loop e rest k1 s1 = (Inr n, s')" by simp
    from close_if_verified_count [OF first] Cons.IH [OF rest] show ?thesis by auto
  qed
qed

lemma verify_all_positions_saved:
  assumes "verify_all_positions e s = (Inr n, s')"
  shows "if n > 0 then positions_file s' = positions s'
         else positions s' = positions s \<and> positions_file s' = positions_file s"
proof (cases "positions s = []")
  case True
  with assms show ?thesis by (auto simp add: verify_all_positions_def)
next
  case False
  note tracked = False
  let ?s1 = "snd (get_whale_positions e s)"
  let ?cur = "fst (get_whale_positions e s)"
  have f1: "positions ?s1 = positions s" "positions_file ?s1 = positions_file s"
    by (simp_all add: get_whale_positions_def)
  show ?thesis
  proof (cases "?cur = []")
    case True
    with assms tracked f1 show ?thesis
      by (auto simp add: verify_all_positions_def split_beta)
  next
    case False
    let ?coins = "filter (\<lambda>coin. map_of ?cur coin = None) (map fst (positions ?s1))"
    obtain r s2 where l: "verify_close_loop e ?coins 0 ?s1 = (r, s2)"
      by (cases "verify_close_loop e ?coins 0 ?s1")
    show ?thesis
    proof (cases r)
      case (Inl err)
      with assms tracked False l show ?thesis
        by (simp add: verify_all_positions_def split_beta Let_def)
    next
      case (Inr m)
      with l have loop: "verify_close_loop e ?coins 0 ?s1 = (Inr m, s2)" by simp
      from verify_close_loop_count [OF loop] f1
      have unchanged: "m = 0 \<longrightarrow> positions s2 = positions s \<and> positions_file s2 = positions_file s"
        by simp
      from assms tracked False loop
      have "n = m \<and> s' = (if m > 0 then save_positions s2 else s2)"
        by (auto simp add: verify_all_positions_def split_beta Let_def)
      with unchanged show ?thesis by (auto simp add: save_positions_fields)
    qed
  qed
qed

lemma sync_loop_count:
  "sync_loop snapshot k s = (n, s') \<Longrightarrow>
   k \<le> n \<and> (n = k \<longrightarrow> positions s' = positions s) \<and> positions_file s' = positions_file s"
proof (induction snapshot arbitrary: k s)
  case Nil
  then show ?case by simp
next
  case (Cons entry rest)
  obtain coin position_data where entry: "entry = (coin, position_data)"
    by (cases entry)
  show ?case
  proof (cases "p_value position_data \<ge> real_of_int (MIN_POSITION_VALUE s)")
    case True
    let ?s1 = "s\<lparr>positions := AList.update coin (opened position_data) (positions s)\<rparr>"
    from Cons.prems True have "sync_loop rest (k + 1) ?s1 = (n, s')" by (simp add: entry)
    from Cons.IH [OF this] show ?thesis by simp
  next
    case False
    with Cons.prems have "sync_loop rest k s = (n, s')" by (simp add: entry)
    from Cons.IH [OF this] show ?thesis by simp
  qed
qed

lemma sync_positions_on_startup_saved:
  "positions_file (sync_positions_on_startup e s) = positions (sync_positions_on_startup e s) \<or>
   (positions (sync_positions_on_startup e s) = positions s \<and>
    positions_file (sync_positions_on_startup e s) = positions_file s)"
proof -
  let ?s1 = "snd (get_whale_positions e s)"
  let ?cur = "fst (get_whale_positions e s)"
  have f1: "positions ?s1 = positions s" "positions_file ?s1 = positions_file s"
    by (simp_all add: get_whale_positions_def)
  obtain n s2 where l: "sync_loop ?cur 0 ?s1 = (n, s2)"
    by (cases "sync_loop ?cur 0 ?s1")
  from sync_loop_count [OF l] f1
  have "(n = 0 \<longrightarrow> positions s2 = positions s) \<and> positions_file s2 = positions_file s"
    by simp
  then show ?thesis
    using f1 by (auto simp add: sync_positions_on_startup_def split_beta Let_def l
        save_positions_fields)
qed

text \<open>
  Where the code does write the table: a batch evaluation that sends an alert ends with
  the table written to the file. A sweep that returns a positive count of closed positions
  ends with the table written, and one that returns 0 has changed neither the table nor
  the file. After the startup sync the table is written or neither the table nor the file
  has changed.
\<close>

lemma table_written_after_alert:
  "(telegram (snd (process_aggregated_fills e coin side s)) \<noteq> telegram s \<longrightarrow>
      positions_file (snd (process_aggregated_fills e coin side s)) =
        positions (snd (process_aggregated_fills e coin side s))) \<and>
   (\<forall>n. fst (verify_all_positions e s) = Inr n \<longrightarrow>
      (if n > 0
       then positions_file (snd (verify_all_positions e s)) =
              positions (snd (verify_all_positions e s))
       else positions (snd (verify_all_positions e s)) = positions s \<and>
            positions_file (snd (verify_all_positions e s)) = positions_file s)) \<and>
   (positions_file (sync_positions_on_startup e s) = positions (sync_positions_on_startup e s) \<or>
    (positions (sync_positions_on_startup e s) = positions s \<and>
     positions_file (sync_positions_on_startup e s) = positions_file s))"
proof (intro conjI allI impI)
  assume "telegram (snd (process_aggregated_fills e coin side s)) \<noteq> telegram s"
  with process_saved [of e coin side s]
  show "positions_file (snd (process_aggregated_fills e coin side s)) =
        positions (snd (process_aggregated_fills e coin side s))"
    by blast
next
  fix n
  assume "fst (verify_all_positions e s) = Inr n"
  then have "verify_all_positions e s = (Inr n, snd (verify_all_positions e s))"
    by (cases "verify_all_positions e s") simp
  from verify_all_positions_saved [OF this]
  show "if n > 0
       then positions_file (snd (verify_all_positions e s)) =
              positions (snd (verify_all_positions e s))
       else positions (snd (verify_all_positions e s)) = positions s \<and>
            positions_file (snd (verify_all_positions e s)) = positions_file s" .
next
  show "positions_file (sync_positions_on_startup e s) = positions (sync_positions_on_startup e s) \<or>
    (positions (sync_positions_on_startup e s) = positions s \<and>
     positions_file (sync_positions_on_startup e s) = positions_file s)"
    by (rule sync_positions_on_startup_saved)
qed


text \<open>
  C9 at a failing input. The table and the file hold 100 ETH at 210000. A sale of 5 ETH is
  evaluated with 95 ETH on the exchange: the reduction of 5% is below the threshold of 15%,
  the entry is updated to size 95 and value 199500 without an alert, and the evaluation
  returns at line 572 without writing the file, which still holds size 100 and value
  210000.
\<close>

theorem silent_update_not_saved:
  "positions_file (queue_fill_for_aggregation trim_fill eth_saved) =
     positions (queue_fill_for_aggregation trim_fill eth_saved) \<and>
   fst (run_task eth_trimmed (0, (''ETH'', ''A''), 30)
     (queue_fill_for_aggregation trim_fill eth_saved)) = Ended None \<and>
   telegram (snd (run_task eth_trimmed (0, (''ETH'', ''A''), 30)
     (queue_fill_for_aggregation trim_fill eth_saved))) = [] \<and>
   positions (snd (run_task eth_trimmed (0, (''ETH'', ''A''), 30)
     (queue_fill_for_aggregation trim_fill eth_saved))) =
     [(''ETH'', \<lparr>p_size = 95, p_side = ''LONG'', p_value = 199500, p_avg_price = 2000,
         p_current_price = 2100, p_max_value = 210000\<rparr>)] \<and>
   positions_file (snd (run_task eth_trimmed (0, (''ETH'', ''A''), 30)
     (queue_fill_for_aggregation trim_fill eth_saved))) =
     [(''ETH'', \<lparr>p_size = 100, p_side = ''LONG'', p_value = 210000, p_avg_price = 2000,
         p_current_price = 2100, p_max_value = 210000\<rparr>)]"
  by (simp add: eth_saved_def run_defs init_def trim_fill_def eth_trimmed_def eth_tracked_def
      Let_def update_conv')

end
